(* ===== verification/Prelude.thy ===== *)
theory Prelude
  imports Main "HOL-Library.Sublist"
begin

text \<open>
  Shared vocabulary of the development: the parts of Go's \<^verbatim>\<open>strings\<close>, \<^verbatim>\<open>slices\<close> and
  \<^verbatim>\<open>errors\<close> packages that the sources use, instants of \<^verbatim>\<open>time.Time\<close>, the result type of
  fallible operations, and the generic lemmas that the component theories rely on.

  A Go string is a list of characters.  The model covers ASCII text, on which Go's bytes
  and runes coincide; \<open>ToLower\<close> and \<open>TrimSpace\<close> are the ASCII cases of the library functions.

  An instant is an integer number of nanoseconds since Go's zero time (1 January of year 1,
  UTC), so \<^verbatim>\<open>t.IsZero()\<close> is \<open>t = 0\<close> and \<^verbatim>\<open>a.After(b)\<close> is \<open>b < a\<close>.  Durations are
  nanoseconds as well.
\<close>

type_synonym duration = int
type_synonym instant = int

datatype error = ErrSessionNotFound | Err string

type_synonym 'a result = "error + 'a"

fun error_text :: "error \<Rightarrow> string" where
  "error_text ErrSessionNotFound = ''session not found''"
| "error_text (Err msg) = msg"

definition wrap_error :: "string \<Rightarrow> error \<Rightarrow> error" where
  "wrap_error msg e = Err (msg @ '': '' @ error_text e)"

subsection \<open>Named collections\<close>

named_theorems decision_defs "definitions unfolded when a handler is analysed branch by branch"
named_theorems frame_simps "fields that an operation leaves unchanged"

subsection \<open>Go strings\<close>

abbreviation HasPrefix :: "string \<Rightarrow> string \<Rightarrow> bool" where
  "HasPrefix s p \<equiv> prefix p s"

abbreviation HasSuffix :: "string \<Rightarrow> string \<Rightarrow> bool" where
  "HasSuffix s p \<equiv> suffix p s"

abbreviation StrContains :: "string \<Rightarrow> string \<Rightarrow> bool" where
  "StrContains s sub \<equiv> sublist sub s"

definition TrimPrefix :: "string \<Rightarrow> string \<Rightarrow> string" where
  "TrimPrefix s p = (if HasPrefix s p then drop (length p) s else s)"

definition TrimLeft :: "string \<Rightarrow> string \<Rightarrow> string" where
  "TrimLeft s cutset = dropWhile (\<lambda>c. c \<in> set cutset) s"

definition TrimRight :: "string \<Rightarrow> string \<Rightarrow> string" where
  "TrimRight s cutset = rev (dropWhile (\<lambda>c. c \<in> set cutset) (rev s))"

definition is_space :: "char \<Rightarrow> bool" where
  "is_space c = (let n = (of_char c :: int) in n = 32 \<or> (9 \<le> n \<and> n \<le> 13))"

definition TrimSpace :: "string \<Rightarrow> string" where
  "TrimSpace s = rev (dropWhile is_space (rev (dropWhile is_space s)))"

definition lower_char :: "char \<Rightarrow> char" where
  "lower_char c = (let n = (of_char c :: int) in if 65 \<le> n \<and> n \<le> 90 then char_of (n + 32) else c)"

definition ToLower :: "string \<Rightarrow> string" where
  "ToLower s = map lower_char s"

text \<open>\<^verbatim>\<open>strings.ReplaceAll(s, old, new)\<close> for a non-empty \<open>old\<close>: left to right, no overlaps.\<close>

function ReplaceAll :: "string \<Rightarrow> string \<Rightarrow> string \<Rightarrow> string" where
  "ReplaceAll [] old new = []"
| "ReplaceAll (c # cs) old new =
     (if old \<noteq> [] \<and> prefix old (c # cs)
      then new @ ReplaceAll (drop (length old) (c # cs)) old new
      else c # ReplaceAll cs old new)"
  by pat_completeness auto
termination
  by (relation "measure (\<lambda>(s, old, new). length s)") (auto simp: neq_Nil_conv)

fun Join :: "string list \<Rightarrow> string \<Rightarrow> string" where
  "Join [] sep = []"
| "Join [x] sep = x"
| "Join (x # xs) sep = x @ sep @ Join xs sep"

text \<open>Decimal rendering of a non-negative Go \<^verbatim>\<open>int\<close>, as \<^verbatim>\<open>%d\<close> prints it.\<close>

function Itoa :: "int \<Rightarrow> string" where
  "Itoa n = (if n < 10 then [char_of (48 + n)] else Itoa (n div 10) @ [char_of (48 + n mod 10)])"
  by pat_completeness auto
termination
  by (relation "measure nat") auto

declare Itoa.simps [simp del]

text \<open>\<^verbatim>\<open>strconv.Quote\<close> on ASCII text, which is what the \<^verbatim>\<open>%q\<close> verb prints.\<close>

definition hex_digit :: "int \<Rightarrow> char" where
  "hex_digit n = (if n < 10 then char_of (48 + n) else char_of (87 + n))"

definition quote_char :: "char \<Rightarrow> string" where
  "quote_char c = (let n = (of_char c :: int); bs = CHR 0x5C in
     if n = 34 \<or> n = 92 then [bs, c]
     else if n = 7 then [bs, CHR ''a''] else if n = 8 then [bs, CHR ''b'']
     else if n = 12 then [bs, CHR ''f''] else if n = 10 then [bs, CHR ''n'']
     else if n = 13 then [bs, CHR ''r''] else if n = 9 then [bs, CHR ''t'']
     else if n = 11 then [bs, CHR ''v'']
     else if n < 32 \<or> n = 127 then [bs, CHR ''x'', hex_digit (n div 16), hex_digit (n mod 16)]
     else [c])"

definition Quote :: "string \<Rightarrow> string" where
  "Quote s = [CHR 0x22] @ concat (map quote_char s) @ [CHR 0x22]"

subsection \<open>Go slices and maps\<close>

abbreviation SlicesContains :: "'a list \<Rightarrow> 'a \<Rightarrow> bool" where
  "SlicesContains xs x \<equiv> List.member xs x"

text \<open>A Go map as an association list without repeated keys; a write replaces the entry.\<close>

fun map_set :: "'k \<Rightarrow> 'v \<Rightarrow> ('k \<times> 'v) list \<Rightarrow> ('k \<times> 'v) list" where
  "map_set k v [] = [(k, v)]"
| "map_set k v ((k', v') # m) = (if k = k' then (k, v) # m else (k', v') # map_set k v m)"

definition map_delete :: "'k \<Rightarrow> ('k \<times> 'v) list \<Rightarrow> ('k \<times> 'v) list" where
  "map_delete k m = filter (\<lambda>e. fst e \<noteq> k) m"

text \<open>\<^verbatim>\<open>x, err := f(); if err != nil { return g(err) }\<close> as a bind on results.\<close>

fun bind_result :: "'a result \<Rightarrow> ('a \<Rightarrow> 'b result) \<Rightarrow> 'b result" where
  "bind_result (Inl e) f = Inl e"
| "bind_result (Inr x) f = f x"

definition map_error :: "(error \<Rightarrow> error) \<Rightarrow> 'a result \<Rightarrow> 'a result" where
  "map_error f r = (case r of Inl e \<Rightarrow> Inl (f e) | Inr x \<Rightarrow> Inr x)"

subsection \<open>Generic lemmas\<close>

lemma map_of_map_set [simp]: "map_of (map_set k v m) = (map_of m)(k \<mapsto> v)"
  by (induction k v m rule: map_set.induct) auto

lemma map_of_map_delete [simp]: "map_of (map_delete k m) = (map_of m)(k := None)"
  by (induction m) (auto simp: map_delete_def fun_eq_iff)

lemma map_error_Inr_iff [simp]: "map_error f r = Inr x \<longleftrightarrow> r = Inr x"
  by (cases r) (auto simp: map_error_def)

lemma map_error_Inl_iff: "map_error f r = Inl e \<longleftrightarrow> (\<exists>e'. r = Inl e' \<and> e = f e')"
  by (cases r) (auto simp: map_error_def)

lemma map_error_simps [simp]:
  "map_error f (Inr x) = Inr x"
  "map_error f (Inl e) = Inl (f e)"
  by (simp_all add: map_error_def)

lemma dropWhile_idem_hd: "dropWhile P xs \<noteq> [] \<Longrightarrow> \<not> P (hd (dropWhile P xs))"
  by (rule hd_dropWhile)

lemma set_dropWhile_subset: "set (dropWhile P xs) \<subseteq> set xs"
  by (auto dest: set_dropWhileD)

lemma last_rev_dropWhile:
  "rev (dropWhile P (rev xs)) \<noteq> [] \<Longrightarrow> \<not> P (last (rev (dropWhile P (rev xs))))"
  using hd_dropWhile [of P "rev xs"] by (simp add: last_rev)

lemma hd_rev_dropWhile_rev:
  assumes "rev (dropWhile P (rev xs)) \<noteq> []"
  shows "hd (rev (dropWhile P (rev xs))) = hd xs"
proof -
  have "xs = rev (dropWhile P (rev xs)) @ rev (takeWhile P (rev xs))"
    by (metis rev_append rev_rev_ident takeWhile_dropWhile_id)
  with assms show ?thesis by (metis hd_append2)
qed

lemma ReplaceAll_length_le:
  "length new \<le> length old \<Longrightarrow> length (ReplaceAll s old new) \<le> length s"
proof (induction s old new rule: ReplaceAll.induct)
  case (1 old new)
  then show ?case by simp
next
  case (2 c cs old new)
  show ?case
  proof (cases "old \<noteq> [] \<and> prefix old (c # cs)")
    case True
    then have "length old \<le> length (c # cs)" using prefix_length_le by blast
    with 2 True show ?thesis by (auto simp: min_def)
  next
    case False
    with 2 show ?thesis by auto
  qed
qed

lemma set_ReplaceAll: "set (ReplaceAll s old new) \<subseteq> set s \<union> set new"
proof (induction s old new rule: ReplaceAll.induct)
  case (1 old new)
  then show ?case by simp
next
  case (2 c cs old new)
  have "set (drop (length old) (c # cs)) \<subseteq> set (c # cs)"
    by (rule set_drop_subset)
  with 2 show ?case by (auto split: if_splits simp del: drop_Suc_Cons)
qed

lemma ReplaceAll_id: "\<not> sublist old s \<Longrightarrow> ReplaceAll s old new = s"
  by (induction s old new rule: ReplaceAll.induct) (auto simp: sublist_Cons_right)

lemma set_map_set: "set (map_set k v m) \<subseteq> insert (k, v) (set m)"
  by (induction k v m rule: map_set.induct) auto

lemma filter_key_remove:
  assumes "distinct (map f (xs @ s # ys))"
  shows "filter (\<lambda>x. f x \<noteq> f s) (xs @ s # ys) = xs @ ys"
proof -
  have "f s \<notin> f ` set xs" "f s \<notin> f ` set ys" using assms by auto
  then have "filter (\<lambda>x. f x \<noteq> f s) xs = xs" "filter (\<lambda>x. f x \<noteq> f s) ys = ys"
    by (auto simp: filter_id_conv image_iff)
  then show ?thesis by simp
qed

end
