(* ===== verification/GoTime.thy ===== *)
theory GoTime
  imports Prelude
begin

text \<open>
  The part of Go's \<^verbatim>\<open>time\<close> package that the sessions rely on: comparison of instants and
  \<^verbatim>\<open>time.ParseDuration\<close>, which turns the \<^verbatim>\<open>maxValidFor\<close>, \<^verbatim>\<open>retainFor\<close> and cache settings into
  nanoseconds.  The parser follows the library: an optional sign, then one or more of
  \<^verbatim>\<open>[0-9]*(.[0-9]*)?unit\<close>, 64-bit overflow checks after every arithmetic step, and float64
  arithmetic (53-bit mantissa, ties to even) for the fractional part.  \<open>None\<close> is the error.
\<close>

definition IsZero :: "instant \<Rightarrow> bool" where
  "IsZero t = (t = 0)"

definition After :: "instant \<Rightarrow> instant \<Rightarrow> bool" where
  "After a b = (b < a)"

definition Before :: "instant \<Rightarrow> instant \<Rightarrow> bool" where
  "Before a b = (a < b)"

definition Nanosecond :: duration where "Nanosecond = 1"
definition Microsecond :: duration where "Microsecond = 1000"
definition Millisecond :: duration where "Millisecond = 1000000"
definition Second :: duration where "Second = 1000000000"
definition Minute :: duration where "Minute = 60000000000"
definition Hour :: duration where "Hour = 3600000000000"

subsection \<open>float64 values of positive rationals\<close>

function bit_length :: "int \<Rightarrow> int" where
  "bit_length n = (if n \<le> 0 then 0 else 1 + bit_length (n div 2))"
  by pat_completeness auto
termination
  by (relation "measure nat") auto

declare bit_length.simps [simp del]

definition round_half_even :: "int \<Rightarrow> int \<Rightarrow> int" where
  "round_half_even p q = (let d = p div q; r = p mod q in
     if 2 * r < q then d else if q < 2 * r then d + 1 else if even d then d else d + 1)"

text \<open>
  \<open>f64 (p, q)\<close> is the float64 nearest to \<open>p / q\<close>, again as a fraction: scale by a power of
  two so that the quotient lies between \<open>2^52\<close> and \<open>2^53\<close>, round, scale back.
\<close>

definition f64 :: "int \<times> int \<Rightarrow> int \<times> int" where
  "f64 pq = (case pq of (p, q) \<Rightarrow>
     if p = 0 then (0, 1) else
     let k = 53 + bit_length q - bit_length p;
         up = (if 0 \<le> k then 2 ^ nat k else 1);
         dn = (if 0 \<le> k then 1 else 2 ^ nat (- k));
         big = (2 ^ 53 * (q * dn) \<le> p * up)
     in if big then (2 * dn * round_half_even (p * up) (2 * q * dn), up)
        else (dn * round_half_even (p * up) (q * dn), up))"

definition f64_trunc :: "int \<times> int \<Rightarrow> int" where
  "f64_trunc pq = fst pq div snd pq"

subsection \<open>ParseDuration\<close>

definition digit_val :: "char \<Rightarrow> int" where
  "digit_val c = of_char c - 48"

definition is_digit :: "char \<Rightarrow> bool" where
  "is_digit c = (let n = (of_char c :: int) in 48 \<le> n \<and> n \<le> 57)"

fun leadingInt :: "int \<Rightarrow> string \<Rightarrow> (int \<times> string) option" where
  "leadingInt x [] = Some (x, [])"
| "leadingInt x (c # s) =
     (if \<not> is_digit c then Some (x, c # s)
      else if 2 ^ 63 div 10 < x then None
      else let x' = x * 10 + digit_val c in if 2 ^ 63 < x' then None else leadingInt x' s)"

text \<open>The accumulated digits, the number of them that count (the scale is its power of ten),
  whether the rest overflowed, and the remaining input.\<close>

fun leadingFraction :: "int \<Rightarrow> nat \<Rightarrow> bool \<Rightarrow> string \<Rightarrow> int \<times> nat \<times> string" where
  "leadingFraction x k ovf [] = (x, k, [])"
| "leadingFraction x k ovf (c # s) =
     (if \<not> is_digit c then (x, k, c # s)
      else if ovf then leadingFraction x k True s
      else if (2 ^ 63 - 1) div 10 < x then leadingFraction x k True s
      else let y = x * 10 + digit_val c in
        if 2 ^ 63 < y then leadingFraction x k True s else leadingFraction y (Suc k) False s)"

definition unitMap :: "(string \<times> int) list" where
  "unitMap = [(''ns'', 1), (''us'', 1000), (''ms'', 1000000), (''s'', 1000000000),
              (''m'', 60000000000), (''h'', 3600000000000)]"

definition frac_ns :: "int \<Rightarrow> int \<Rightarrow> nat \<Rightarrow> int" where
  "frac_ns f unit k =
     (case f64 (f, 1) of (a, b) \<Rightarrow> case f64 (unit, 10 ^ k) of (c, d) \<Rightarrow>
        f64_trunc (f64 (a * c, b * d)))"

text \<open>One \<^verbatim>\<open>[0-9]*(.[0-9]*)?unit\<close> group: its nanoseconds and the rest of the input.\<close>

definition duration_group :: "string \<Rightarrow> (int \<times> string) option" where
  "duration_group s =
     (if \<not> (s \<noteq> [] \<and> (hd s = CHR ''.'' \<or> is_digit (hd s))) then None else
      case leadingInt 0 s of None \<Rightarrow> None | Some (v, s1) \<Rightarrow>
      let pre = (length s \<noteq> length s1);
          dot = (s1 \<noteq> [] \<and> hd s1 = CHR ''.'');
          (f, k, s2) = (if dot then leadingFraction 0 0 False (tl s1) else (0, 0, s1));
          post = (dot \<and> length (tl s1) \<noteq> length s2)
      in if \<not> pre \<and> \<not> post then None else
      let u = takeWhile (\<lambda>c. \<not> (c = CHR ''.'' \<or> is_digit c)) s2;
          s3 = dropWhile (\<lambda>c. \<not> (c = CHR ''.'' \<or> is_digit c)) s2
      in if u = [] then None else
      case map_of unitMap u of None \<Rightarrow> None | Some unit \<Rightarrow>
      if 2 ^ 63 div unit < v then None else
      let v1 = v * unit; v2 = (if 0 < f then v1 + frac_ns f unit k else v1)
      in if 2 ^ 63 < v2 then None else Some (v2, s3))"

text \<open>The loop of the library; every group consumes input, so \<open>length s\<close> rounds suffice.\<close>

fun duration_groups :: "nat \<Rightarrow> int \<Rightarrow> string \<Rightarrow> int option" where
  "duration_groups 0 d s = (if s = [] then Some d else None)"
| "duration_groups (Suc n) d s =
     (if s = [] then Some d else
      case duration_group s of None \<Rightarrow> None | Some (v, s') \<Rightarrow>
      if 2 ^ 63 < d + v then None else duration_groups n (d + v) s')"

definition ParseDuration :: "string \<Rightarrow> duration option" where
  "ParseDuration orig =
     (let signed = (orig \<noteq> [] \<and> (hd orig = CHR ''-'' \<or> hd orig = CHR ''+''));
          neg = (signed \<and> hd orig = CHR ''-'');
          s = (if signed then tl orig else orig)
      in if s = ''0'' then Some 0 else if s = [] then None else
      case duration_groups (length s) 0 s of None \<Rightarrow> None | Some d \<Rightarrow>
      if neg then Some (- d) else if 2 ^ 63 - 1 < d then None else Some d)"

subsection \<open>Facts about durations\<close>

lemma leadingInt_suffix: "leadingInt x s = Some (v, s') \<Longrightarrow> suffix s' s"
  by (induction x s rule: leadingInt.induct)
    (auto simp: Let_def split: if_splits intro: suffix_ConsI)

lemma leadingFraction_suffix: "leadingFraction x k ovf s = (f, k', s') \<Longrightarrow> suffix s' s"
  by (induction x k ovf s rule: leadingFraction.induct)
    (auto simp: Let_def split: if_splits intro: suffix_ConsI)

lemma duration_group_shorter:
  assumes "duration_group s = Some (v, s')"
  shows "length s' < length s"
proof -
  let ?stop = "\<lambda>c. \<not> (c = CHR ''.'' \<or> is_digit c)"
  from assms obtain v0 s1 where 1: "leadingInt 0 s = Some (v0, s1)"
    by (auto simp: duration_group_def split: if_splits option.splits)
  define r where "r = (if s1 \<noteq> [] \<and> hd s1 = CHR ''.''
      then leadingFraction 0 0 False (tl s1) else (0, 0, s1))"
  obtain f k s2 where r: "r = (f, k, s2)" by (cases r)
  have s2: "length s2 \<le> length s1"
  proof (cases "s1 \<noteq> [] \<and> hd s1 = CHR ''.''")
    case True
    then have "suffix s2 (tl s1)"
      using r leadingFraction_suffix by (auto simp: r_def)
    from suffix_length_le [OF this] show ?thesis by simp
  next
    case False
    with r show ?thesis by (auto simp: r_def)
  qed
  have "takeWhile ?stop s2 \<noteq> [] \<and> s' = dropWhile ?stop s2"
    using assms 1 r
    by (auto simp: duration_group_def r_def Let_def split: if_splits option.splits prod.splits)
  then have "length s' < length s2"
    by (metis append_self_conv2 length_append length_greater_0_conv less_add_same_cancel2
        takeWhile_dropWhile_id)
  with s2 suffix_length_le [OF leadingInt_suffix [OF 1]] show ?thesis by linarith
qed

text \<open>The round bound of the loop is never the reason to stop.\<close>

lemma duration_groups_enough:
  "length s \<le> n \<Longrightarrow> duration_groups (n + m) d s = duration_groups n d s"
proof (induction n arbitrary: d s)
  case 0
  then show ?case by (cases m) auto
next
  case (Suc n)
  show ?case
  proof (cases "s = []")
    case False
    then show ?thesis
    proof (cases "duration_group s")
      case (Some r)
      obtain v s' where r: "r = (v, s')" by (cases r)
      have "length s' \<le> n"
        using duration_group_shorter [of s v s'] Some r Suc.prems by simp
      with Suc.IH [of s' "d + v"] Some r False show ?thesis by simp
    qed (simp add: False)
  qed simp
qed

lemma leadingInt_nonneg: "leadingInt x s = Some (v, s') \<Longrightarrow> 0 \<le> x \<Longrightarrow> 0 \<le> v"
  by (induction x s rule: leadingInt.induct)
    (auto simp: Let_def is_digit_def digit_val_def split: if_splits)

lemma duration_groups_bound: "duration_groups n d s = Some r \<Longrightarrow> d \<le> 2 ^ 63 \<Longrightarrow> r \<le> 2 ^ 63"
  by (induction n d s rule: duration_groups.induct)
    (auto split: if_splits option.splits prod.splits)

lemma round_half_even_nonneg: "0 \<le> p \<Longrightarrow> 0 < q \<Longrightarrow> 0 \<le> round_half_even p q"
  by (auto simp: round_half_even_def Let_def pos_imp_zdiv_nonneg_iff)

lemma f64_nonneg:
  assumes "0 \<le> p" and "0 < q"
  shows "0 \<le> fst (f64 (p, q)) \<and> 0 < snd (f64 (p, q))"
proof -
  have "0 \<le> round_half_even (p * u) (d * q * e)"
    if "0 < u" "0 < d" "0 < e" for u d e :: int
    using assms that by (intro round_half_even_nonneg) auto
  note this [where d = 2] this [where d = 1]
  with assms show ?thesis by (auto simp: f64_def Let_def)
qed

lemma frac_ns_nonneg:
  assumes "0 \<le> f" and "0 < unit"
  shows "0 \<le> frac_ns f unit k"
proof -
  obtain a b where ab: "f64 (f, 1) = (a, b)" by (cases "f64 (f, 1)")
  obtain c d where cd: "f64 (unit, 10 ^ k) = (c, d)" by (cases "f64 (unit, 10 ^ k)")
  from assms ab cd have "0 \<le> a * c" "0 < b * d"
    using f64_nonneg [of f 1] f64_nonneg [of unit "10 ^ k"] by auto
  then show ?thesis
    using f64_nonneg [of "a * c" "b * d"]
    by (simp add: frac_ns_def ab cd f64_trunc_def pos_imp_zdiv_nonneg_iff)
qed

lemma unitMap_pos: "map_of unitMap u = Some n \<Longrightarrow> 0 < n"
  by (auto simp: unitMap_def split: if_splits)

lemma duration_group_nonneg: "duration_group s = Some (v, s') \<Longrightarrow> 0 \<le> v"
  by (auto simp: duration_group_def Let_def split: if_splits option.splits prod.splits
      dest!: leadingInt_nonneg unitMap_pos
      intro!: add_nonneg_nonneg mult_nonneg_nonneg frac_ns_nonneg)

lemma duration_groups_nonneg: "duration_groups n d s = Some r \<Longrightarrow> 0 \<le> d \<Longrightarrow> 0 \<le> r"
  by (induction n d s rule: duration_groups.induct)
    (auto split: if_splits option.splits prod.splits dest: duration_group_nonneg)

lemma ParseDuration_int64:
  assumes "ParseDuration s = Some d"
  shows "- (2 ^ 63) \<le> d \<and> d \<le> 2 ^ 63 - 1"
proof -
  have "0 \<le> r \<and> r \<le> 2 ^ 63" if "duration_groups n 0 t = Some r" for n t r
    using duration_groups_bound [OF that] duration_groups_nonneg [OF that] by simp
  with assms show ?thesis
    by (fastforce simp: ParseDuration_def Let_def split: if_splits option.splits)
qed

end
