(* ===== verification/ApiTypes.thy ===== *)
theory ApiTypes
  imports GoTime
begin

text \<open>
  The custom resources of \<^verbatim>\<open>api/v1alpha1\<close>: \<open>BreakglassSession\<close>, \<open>BreakglassEscalation\<close>,
  \<open>ClusterConfig\<close> and \<open>DenyPolicy\<close>, as records with the fields of the Go structs, and the
  admission checks \<^verbatim>\<open>ValidateCreate\<close>/\<^verbatim>\<open>ValidateUpdate\<close> of the first three.  Strings that Go
  leaves empty are empty here, a nil pointer is \<open>None\<close>, and a nil or empty slice is \<open>[]\<close>.
\<close>

subsection \<open>Object metadata\<close>

record ObjectMeta =
  Name :: string
  Namespace :: string
  GenerateName :: string
  UID :: string
  ResourceVersion :: nat
  Labels :: "(string \<times> string) list"
  Annotations :: "(string \<times> string) list"
  ManagedFields :: "string list"

record OwnerReference =
  or_APIVersion :: string
  or_Kind :: string
  or_Name :: string
  or_UID :: string
  or_Controller :: "bool option"

record Condition =
  CondType :: string
  CondStatus :: string
  LastTransitionTime :: instant
  CondReason :: string
  CondMessage :: string

subsection \<open>BreakglassSession\<close>

datatype BreakglassSessionConditionType =
    SessionConditionTypeIdle | SessionConditionTypeApproved | SessionConditionTypeRejected
  | SessionConditionTypeExpired | SessionConditionTypeCanceled

fun condition_type_string :: "BreakglassSessionConditionType \<Rightarrow> string" where
  "condition_type_string SessionConditionTypeIdle = ''Idle''"
| "condition_type_string SessionConditionTypeApproved = ''Approved''"
| "condition_type_string SessionConditionTypeRejected = ''Rejected''"
| "condition_type_string SessionConditionTypeExpired = ''Expired''"
| "condition_type_string SessionConditionTypeCanceled = ''Canceled''"

definition SessionConditionReasonEditedByApprover :: string where
  "SessionConditionReasonEditedByApprover = ''EditedByApprover''"

text \<open>The state is a free-form string in the resource; \<open>SessionStateOther\<close> covers every value
  without a constant, the empty string of a session without status among them.\<close>

datatype BreakglassSessionState =
    SessionStatePending | SessionStateApproved | SessionStateRejected | SessionStateExpired
  | SessionStateWithdrawn | SessionStateTimeout | SessionStateOther string

fun state_string :: "BreakglassSessionState \<Rightarrow> string" where
  "state_string SessionStatePending = ''Pending''"
| "state_string SessionStateApproved = ''Approved''"
| "state_string SessionStateRejected = ''Rejected''"
| "state_string SessionStateExpired = ''Expired''"
| "state_string SessionStateWithdrawn = ''Withdrawn''"
| "state_string SessionStateTimeout = ''ApprovalTimeout''"
| "state_string (SessionStateOther s) = s"

record BreakglassSessionSpec =
  Cluster :: string
  User :: string
  GrantedGroup :: string
  IdleTimeout :: string
  MaxValidFor :: string
  RetainFor :: string
  ClusterConfigRef :: string
  DenyPolicyRefs :: "string list"
  RequestReason :: string

record BreakglassSessionStatus =
  Conditions :: "Condition list"
  ApprovedAt :: instant
  RejectedAt :: instant
  ExpiresAt :: instant
  TimeoutAt :: instant
  RetainedUntil :: instant
  IdleUntil :: instant
  LastUsed :: instant
  State :: BreakglassSessionState
  Approver :: string
  Approvers :: "string list"
  ApprovalReason :: string
  ReasonEnded :: string

record BreakglassSession =
  bs_meta :: ObjectMeta
  bs_spec :: BreakglassSessionSpec
  bs_status :: BreakglassSessionStatus
  bs_OwnerReferences :: "OwnerReference list"

subsection \<open>BreakglassEscalation\<close>

record ReasonConfig =
  Mandatory :: bool
  Description :: string

record BreakglassEscalationAllowed =
  Clusters :: "string list"
  Groups :: "string list"

record BreakglassEscalationApprovers =
  ApproverUsers :: "string list"
  ApproverGroups :: "string list"

record BreakglassEscalationSpec =
  Allowed :: BreakglassEscalationAllowed
  EscApprovers :: BreakglassEscalationApprovers
  EscalatedGroup :: string
  EscMaxValidFor :: string
  EscRetainFor :: string
  EscIdleTimeout :: string
  ClusterConfigRefs :: "string list"
  EscDenyPolicyRefs :: "string list"
  EscRequestReason :: "ReasonConfig option"
  EscApprovalReason :: "ReasonConfig option"
  EscAllowedApproverDomains :: "string list"
  EscBlockSelfApproval :: "bool option"

record BreakglassEscalationStatus =
  ApproverGroupMembers :: "(string \<times> string list) list"
  RequestCount :: int
  ApprovalCount :: int
  GroupResolutionStatus :: "(string \<times> string) list"

record BreakglassEscalation =
  be_meta :: ObjectMeta
  be_spec :: BreakglassEscalationSpec
  be_status :: BreakglassEscalationStatus

subsection \<open>ClusterConfig\<close>

record SecretKeyReference =
  SecretName :: string
  SecretNamespace :: string
  SecretKey :: string

record ClusterConfigSpec =
  ClusterID :: string
  Tenant :: string
  Environment :: string
  Site :: string
  Location :: string
  KubeconfigSecretRef :: SecretKeyReference
  QPS :: "int option"
  Burst :: "int option"
  BlockSelfApproval :: bool
  AllowedApproverDomains :: "string list"

record ClusterConfigStatus =
  Phase :: string
  Message :: string
  LastCheckTime :: instant

record ClusterConfig =
  cc_meta :: ObjectMeta
  cc_spec :: ClusterConfigSpec
  cc_status :: ClusterConfigStatus

subsection \<open>DenyPolicy\<close>

record DenyPolicyScope =
  ScopeClusters :: "string list"
  ScopeTenants :: "string list"
  ScopeSessions :: "string list"

record DenyRule =
  Verbs :: "string list"
  APIGroups :: "string list"
  Resources :: "string list"
  Namespaces :: "string list"
  ResourceNames :: "string list"
  Subresources :: "string list"

record DenyPolicySpec =
  AppliesTo :: "DenyPolicyScope option"
  Rules :: "DenyRule list"
  Precedence :: "int option"

record DenyPolicyStatus =
  RuleCount :: int
  Compiled :: bool
  LastCompile :: instant

record DenyPolicy =
  dp_meta :: ObjectMeta
  dp_spec :: DenyPolicySpec
  dp_status :: DenyPolicyStatus

subsection \<open>Zero values\<close>

text \<open>What a Go composite literal leaves out is the zero value of the field.\<close>

definition zero_meta :: ObjectMeta where
  "zero_meta = \<lparr>Name = [], Namespace = [], GenerateName = [], UID = [], ResourceVersion = 0,
     Labels = [], Annotations = [], ManagedFields = []\<rparr>"

definition zero_status :: BreakglassSessionStatus where
  "zero_status = \<lparr>Conditions = [], ApprovedAt = 0, RejectedAt = 0, ExpiresAt = 0, TimeoutAt = 0,
     RetainedUntil = 0, IdleUntil = 0, LastUsed = 0, State = SessionStateOther [],
     Approver = [], Approvers = [], ApprovalReason = [], ReasonEnded = []\<rparr>"

definition zero_spec :: BreakglassSessionSpec where
  "zero_spec = \<lparr>Cluster = [], User = [], GrantedGroup = [], IdleTimeout = [], MaxValidFor = [],
     RetainFor = [], ClusterConfigRef = [], DenyPolicyRefs = [], RequestReason = []\<rparr>"

definition zero_session :: BreakglassSession where
  "zero_session = \<lparr>bs_meta = zero_meta, bs_spec = zero_spec, bs_status = zero_status,
     bs_OwnerReferences = []\<rparr>"

definition SessionKind :: string where
  "SessionKind = ''BreakglassSession''"

definition EscalationKind :: string where
  "EscalationKind = ''BreakglassEscalation''"

definition GroupVersion :: string where
  "GroupVersion = ''breakglass.t-caas.telekom.com/v1alpha1''"

subsection \<open>Admission checks\<close>

text \<open>
  An admission check collects field errors; no error means the object is admitted, otherwise the
  API answers \<^verbatim>\<open>Invalid\<close> with the collected list.  The cache and the client of the webhook manager
  are optional (\<open>None\<close> is nil) and give the listing they would return.
\<close>

datatype field_error =
    FieldRequired string string
  | FieldDuplicate string string
  | FieldInvalid string string

definition conflicting_namespace :: "ObjectMeta \<Rightarrow> ObjectMeta list \<Rightarrow> string option" where
  "conflicting_namespace m items =
     map_option Namespace (List.find (\<lambda>i. Name i = Name m \<and> Namespace i \<noteq> Namespace m) items)"

definition duplicate_message :: "string \<Rightarrow> string" where
  "duplicate_message ns = ''name must be unique cluster-wide; conflicting namespace='' @ ns"

text \<open>The cache is preferred; the client is used without a cache; a failed listing is ignored.\<close>

definition unique_name_errors ::
  "ObjectMeta list result option \<Rightarrow> ObjectMeta list result option \<Rightarrow> ObjectMeta \<Rightarrow> field_error list" where
  "unique_name_errors cache client m =
     (let listing = (case cache of Some l \<Rightarrow> Some l | None \<Rightarrow> client) in
      case listing of
        Some (Inr items) \<Rightarrow>
          (case conflicting_namespace m items of
             Some ns \<Rightarrow> [FieldDuplicate ''metadata.name'' (duplicate_message ns)]
           | None \<Rightarrow> [])
      | _ \<Rightarrow> [])"

definition session_required_errors :: "BreakglassSessionSpec \<Rightarrow> field_error list" where
  "session_required_errors s =
     (if Cluster s = [] then [FieldRequired ''spec.cluster'' ''cluster is required''] else []) @
     (if User s = [] then [FieldRequired ''spec.user'' ''user is required''] else []) @
     (if GrantedGroup s = [] then [FieldRequired ''spec.grantedGroup'' ''grantedGroup is required''] else [])"

definition session_ValidateCreate ::
  "ObjectMeta list result option \<Rightarrow> ObjectMeta list result option \<Rightarrow> BreakglassSession \<Rightarrow> field_error list" where
  "session_ValidateCreate cache client bs =
     (let errs = session_required_errors (bs_spec bs) in
      if errs = [] then unique_name_errors cache client (bs_meta bs) else errs)"

text \<open>The update check lists through the client only and gives a fixed message.\<close>

definition session_ValidateUpdate ::
  "ObjectMeta list result option \<Rightarrow> BreakglassSession \<Rightarrow> BreakglassSession option \<Rightarrow> field_error list" where
  "session_ValidateUpdate client bs old =
     (case old of
        Some o' \<Rightarrow> if bs_spec bs \<noteq> bs_spec o' then [FieldInvalid ''spec'' ''spec is immutable''] else []
      | None \<Rightarrow> []) @
     (case client of
        Some (Inr items) \<Rightarrow>
          (case conflicting_namespace (bs_meta bs) items of
             Some ns \<Rightarrow> [FieldDuplicate ''metadata.name'' ''name must be unique cluster-wide'']
           | None \<Rightarrow> [])
      | _ \<Rightarrow> [])"

definition escalation_ValidateCreate ::
  "ObjectMeta list result option \<Rightarrow> ObjectMeta list result option \<Rightarrow> BreakglassEscalation \<Rightarrow> field_error list" where
  "escalation_ValidateCreate cache client be =
     (if EscalatedGroup (be_spec be) = []
      then [FieldRequired ''spec.escalatedGroup'' ''escalatedGroup is required''] else []) @
     unique_name_errors cache client (be_meta be)"

definition escalation_ValidateUpdate ::
  "ObjectMeta list result option \<Rightarrow> ObjectMeta list result option \<Rightarrow> BreakglassEscalation \<Rightarrow> field_error list" where
  "escalation_ValidateUpdate cache client be = unique_name_errors cache client (be_meta be)"

definition clusterconfig_ValidateCreate ::
  "ObjectMeta list result option \<Rightarrow> ObjectMeta list result option \<Rightarrow> ClusterConfig \<Rightarrow> field_error list" where
  "clusterconfig_ValidateCreate cache client cc =
     (let ref = KubeconfigSecretRef (cc_spec cc) in
      if SecretName ref = [] \<or> SecretNamespace ref = []
      then [FieldRequired ''spec.kubeconfigSecretRef'' ''kubeconfigSecretRef name and namespace are required'']
      else []) @
     unique_name_errors cache client (cc_meta cc)"

definition clusterconfig_ValidateUpdate ::
  "ObjectMeta list result option \<Rightarrow> ObjectMeta list result option \<Rightarrow> ClusterConfig \<Rightarrow> field_error list" where
  "clusterconfig_ValidateUpdate cache client cc = unique_name_errors cache client (cc_meta cc)"

subsection \<open>Facts about the admission checks\<close>

definition name_unique_in :: "ObjectMeta \<Rightarrow> ObjectMeta list \<Rightarrow> bool" where
  "name_unique_in m items = (\<forall>i \<in> set items. Name i = Name m \<longrightarrow> Namespace i = Namespace m)"

lemma conflicting_namespace_None:
  "conflicting_namespace m items = None \<longleftrightarrow> name_unique_in m items"
  by (auto simp: conflicting_namespace_def name_unique_in_def find_None_iff)

lemma unique_name_errors_cache:
  "unique_name_errors (Some (Inr items)) client m = [] \<longleftrightarrow> name_unique_in m items"
  by (auto simp: unique_name_errors_def conflicting_namespace_None [symmetric] split: option.splits)

lemma unique_name_errors_client:
  "unique_name_errors None (Some (Inr items)) m = [] \<longleftrightarrow> name_unique_in m items"
  by (auto simp: unique_name_errors_def conflicting_namespace_None [symmetric] split: option.splits)

lemma session_required_errors_Nil:
  "session_required_errors s = [] \<longleftrightarrow> Cluster s \<noteq> [] \<and> User s \<noteq> [] \<and> GrantedGroup s \<noteq> []"
  by (auto simp: session_required_errors_def)

lemma state_string_eq_iff:
  assumes "\<And>t. s = SessionStateOther t \<Longrightarrow> t \<notin> state_string ` {SessionStatePending, SessionStateApproved,
      SessionStateRejected, SessionStateExpired, SessionStateWithdrawn, SessionStateTimeout}"
    and "\<And>t. s' = SessionStateOther t \<Longrightarrow> t \<notin> state_string ` {SessionStatePending, SessionStateApproved,
      SessionStateRejected, SessionStateExpired, SessionStateWithdrawn, SessionStateTimeout}"
  shows "state_string s = state_string s' \<longleftrightarrow> s = s'"
  using assms by (cases s; cases s') auto

subsection \<open>Properties\<close>

text \<open>C33. A session is admitted on creation, with a working listing, exactly when cluster, user and granted
  group are set and no session of another namespace has its name.\<close>

theorem session_admission_correct:
  "session_ValidateCreate (Some (Inr items)) client bs = [] \<longleftrightarrow>
     Cluster (bs_spec bs) \<noteq> [] \<and> User (bs_spec bs) \<noteq> [] \<and> GrantedGroup (bs_spec bs) \<noteq> [] \<and>
     name_unique_in (bs_meta bs) items"
  using unique_name_errors_cache [of items client "bs_meta bs"] session_required_errors_Nil [of "bs_spec bs"]
  by (auto simp: session_ValidateCreate_def Let_def)

end
