(* ===== verification/KubeClient.thy ===== *)
theory KubeClient
  imports ApiTypes
begin

text \<open>
  The outside of the program: the Kubernetes API reached through controller-runtime's
  \<^verbatim>\<open>client.Client\<close>.  Its code is not part of the repository, so its operations are a record of
  functions over an opaque API-server state \<open>'w\<close>, an argument of every definition that uses it.
  A write returns the new state and an error, as Go's methods do.  What the callers rely on is
  stated by two locales: \<open>kube_listing\<close> (a listing with a field selector returns exactly the
  stored objects that match) and \<open>kube_sessions\<close> (optimistic concurrency on the status
  subresource, creation, deletion).  An in-memory API server with resource versions shows that
  the contracts can hold; it is also what concrete runs of the handlers are evaluated on.

  The index functions registered with the manager in \<^verbatim>\<open>cmd/main.go\<close> define what a field selector
  compares.
\<close>

type_synonym selector = "(string \<times> string) list"
type_synonym object_key = "string \<times> string"

abbreviation meta_key :: "ObjectMeta \<Rightarrow> object_key" where
  "meta_key m \<equiv> (Namespace m, Name m)"

definition session_key :: "BreakglassSession \<Rightarrow> object_key" where
  "session_key s = meta_key (bs_meta s)"

subsection \<open>The client interface\<close>

record 'w client =
  list_sessions :: "selector \<Rightarrow> 'w \<Rightarrow> BreakglassSession list result"
  get_session :: "object_key \<Rightarrow> 'w \<Rightarrow> BreakglassSession result"
  create_session :: "BreakglassSession \<Rightarrow> 'w \<Rightarrow> 'w \<times> error option"
  update_session :: "BreakglassSession \<Rightarrow> 'w \<Rightarrow> 'w \<times> error option"
  update_session_status :: "BreakglassSession \<Rightarrow> 'w \<Rightarrow> 'w \<times> error option"
  delete_session :: "BreakglassSession \<Rightarrow> 'w \<Rightarrow> 'w \<times> error option"
  list_escalations :: "selector \<Rightarrow> 'w \<Rightarrow> BreakglassEscalation list result"
  update_escalation_status :: "BreakglassEscalation \<Rightarrow> 'w \<Rightarrow> 'w \<times> error option"
  list_clusterconfigs :: "selector \<Rightarrow> 'w \<Rightarrow> ClusterConfig list result"
  get_clusterconfig :: "object_key \<Rightarrow> 'w \<Rightarrow> ClusterConfig result"
  list_denypolicies :: "'w \<Rightarrow> DenyPolicy list result"
  parse_selector :: "string \<Rightarrow> selector result"

subsection \<open>Observable effects besides the API server\<close>

text \<open>One constructor per Prometheus counter, with its label values; incrementing a counter
  appends to the list.\<close>

datatype metric =
    ClusterConfigsChecked string
  | ClusterConfigsFailed string
  | WebhookSARRequests string
  | WebhookSARRequestsByAction string string string string string string
  | WebhookSARAllowed string
  | WebhookSARDenied string
  | WebhookSARDecisionsByAction string string string string string string string string
  | WebhookSessionSARsAllowed string string string
  | WebhookSessionSARsDenied string string string
  | WebhookSessionSARErrors string string string
  | WebhookSessionSARSSkipped string
  | SessionCreated string
  | SessionUpdated string
  | SessionDeleted string
  | SessionExpired string
  | MailSendSuccess string
  | MailSendFailure string

record mail =
  Receivers :: "string list"
  Subject :: string
  Body :: string

record 'w world =
  api :: 'w
  counters :: "metric list"
  outbox :: "mail list"

definition inc_metric :: "metric \<Rightarrow> 'w world \<Rightarrow> 'w world" where
  "inc_metric m w = w\<lparr>counters := counters w @ [m]\<rparr>"

lemma inc_metric_fields [simp]:
  "api (inc_metric m w) = api w"
  "counters (inc_metric m w) = counters w @ [m]"
  "outbox (inc_metric m w) = outbox w"
  by (simp_all add: inc_metric_def)

subsection \<open>Field indices\<close>

definition session_index :: "string \<Rightarrow> BreakglassSession \<Rightarrow> string list option" where
  "session_index f s =
     (if f = ''metadata.name'' then Some [Name (bs_meta s)]
      else if f = ''spec.cluster'' then Some [Cluster (bs_spec s)]
      else if f = ''spec.user'' then Some [User (bs_spec s)]
      else if f = ''spec.grantedGroup'' then Some [GrantedGroup (bs_spec s)]
      else None)"

definition escalation_index :: "string \<Rightarrow> BreakglassEscalation \<Rightarrow> string list option" where
  "escalation_index f e =
     (if f = ''spec.allowed.cluster''
      then Some (Clusters (Allowed (be_spec e)) @ ClusterConfigRefs (be_spec e))
      else if f = ''spec.allowed.group'' then Some (Groups (Allowed (be_spec e)))
      else if f = ''spec.escalatedGroup''
      then Some (if EscalatedGroup (be_spec e) = [] then [] else [EscalatedGroup (be_spec e)])
      else None)"

definition clusterconfig_index :: "string \<Rightarrow> ClusterConfig \<Rightarrow> string list option" where
  "clusterconfig_index f c =
     (if f = ''metadata.name'' then Some [Name (cc_meta c)]
      else if f = ''spec.clusterID''
      then Some (if ClusterID (cc_spec c) = [] then [] else [ClusterID (cc_spec c)])
      else None)"

definition index_matches :: "(string \<Rightarrow> 'a \<Rightarrow> string list option) \<Rightarrow> selector \<Rightarrow> 'a \<Rightarrow> bool" where
  "index_matches idx sel x =
     list_all (\<lambda>(f, v). case idx f x of Some vs \<Rightarrow> List.member vs v | None \<Rightarrow> False) sel"

lemma index_matches_Nil [simp]: "index_matches idx [] x"
  by (simp add: index_matches_def)

subsection \<open>Contracts\<close>

locale kube_listing =
  fixes lst :: "selector \<Rightarrow> 'w \<Rightarrow> 'a list result"
    and stored :: "'w \<Rightarrow> 'a list"
    and idx :: "string \<Rightarrow> 'a \<Rightarrow> string list option"
  assumes lst_Inr: "lst sel w = Inr xs \<Longrightarrow> xs = filter (index_matches idx sel) (stored w)"
begin

lemma lst_all: "lst [] w = Inr xs \<Longrightarrow> xs = stored w"
  using lst_Inr [of "[]"] by simp

lemma lst_mem_iff: "lst sel w = Inr xs \<Longrightarrow> x \<in> set xs \<longleftrightarrow> x \<in> set (stored w) \<and> index_matches idx sel x"
  by (auto dest!: lst_Inr)

lemma lst_subset: "lst sel w = Inr xs \<Longrightarrow> set xs \<subseteq> set (stored w)"
  by (auto simp: lst_mem_iff)

end

text \<open>Instants travel as RFC 3339 text with whole seconds.\<close>

definition wire_time :: "instant \<Rightarrow> instant" where
  "wire_time t = t - t mod Second"

definition wire_condition :: "Condition \<Rightarrow> Condition" where
  "wire_condition c = c\<lparr>LastTransitionTime := wire_time (LastTransitionTime c)\<rparr>"

definition wire_status :: "BreakglassSessionStatus \<Rightarrow> BreakglassSessionStatus" where
  "wire_status st = st\<lparr>Conditions := map wire_condition (Conditions st),
     ApprovedAt := wire_time (ApprovedAt st), RejectedAt := wire_time (RejectedAt st),
     ExpiresAt := wire_time (ExpiresAt st), TimeoutAt := wire_time (TimeoutAt st),
     RetainedUntil := wire_time (RetainedUntil st), IdleUntil := wire_time (IdleUntil st),
     LastUsed := wire_time (LastUsed st)\<rparr>"

text \<open>A name that \<^verbatim>\<open>fields.ParseSelector\<close> reads as one literal value.\<close>

definition plain_name :: "string \<Rightarrow> bool" where
  "plain_name n = list_all (\<lambda>c. c \<noteq> CHR '','' \<and> c \<noteq> CHR ''='' \<and> c \<noteq> CHR ''!'' \<and> c \<noteq> CHR 0x5C) n"

text \<open>What a plain update cannot change: the identity, the immutable spec, and the status, which is a
  subresource.\<close>

definition session_payload ::
  "BreakglassSession \<Rightarrow> object_key \<times> BreakglassSessionSpec \<times> BreakglassSessionStatus" where
  "session_payload s = (session_key s, bs_spec s, bs_status s)"

text \<open>
  Writing the status subresource keeps everything but the status and needs the current resource
  version; a plain update keeps identity, spec and status; creation starts without a status and picks
  a fresh name; sessions are namespaced objects with plain names; a failed write changes nothing that is stored.
\<close>

locale kube_sessions =
  fixes cl :: "'w client"
    and sessions :: "'w \<Rightarrow> BreakglassSession list"
    and wf :: "'w \<Rightarrow> bool"
  assumes list_sessions_Inr:
      "list_sessions cl sel w = Inr xs \<Longrightarrow> xs = filter (index_matches session_index sel) (sessions w)"
    and get_session_Inr:
      "wf w \<Longrightarrow> get_session cl k w = Inr s \<Longrightarrow> s \<in> set (sessions w) \<and> session_key s = k"
    and parse_name:
      "plain_name n \<Longrightarrow> parse_selector cl (''metadata.name='' @ n) = Inr [(''metadata.name'', n)]"
    and keys_distinct: "wf w \<Longrightarrow> distinct (map session_key (sessions w))"
    and status_None:
      "wf w \<Longrightarrow> update_session_status cl s w = (w', None) \<Longrightarrow>
         wf w' \<and> (\<exists>old v. old \<in> set (sessions w) \<and> session_key old = session_key s \<and>
           ResourceVersion (bs_meta old) = ResourceVersion (bs_meta s) \<and>
           v \<noteq> ResourceVersion (bs_meta old) \<and>
           sessions w' = map (\<lambda>x. if session_key x = session_key s
             then x\<lparr>bs_status := wire_status (bs_status s),
                    bs_meta := (bs_meta x)\<lparr>ResourceVersion := v\<rparr>\<rparr> else x) (sessions w))"
    and status_Some:
      "wf w \<Longrightarrow> update_session_status cl s w = (w', Some e) \<Longrightarrow> wf w' \<and> sessions w' = sessions w"
    and stored_names:
      "wf w \<Longrightarrow> s \<in> set (sessions w) \<Longrightarrow> Namespace (bs_meta s) \<noteq> [] \<and> plain_name (Name (bs_meta s))"
    and update_None:
      "wf w \<Longrightarrow> update_session cl s w = (w', None) \<Longrightarrow>
         wf w' \<and> map session_payload (sessions w') = map session_payload (sessions w) \<and>
         (\<forall>t \<in> set (sessions w). session_key t \<noteq> session_key s \<longrightarrow> t \<in> set (sessions w'))"
    and update_Some:
      "wf w \<Longrightarrow> update_session cl s w = (w', Some e) \<Longrightarrow> wf w' \<and> sessions w' = sessions w"
    and create_None:
      "wf w \<Longrightarrow> create_session cl s w = (w', None) \<Longrightarrow>
         wf w' \<and> (\<exists>m. Namespace m = Namespace (bs_meta s) \<and> Labels m = Labels (bs_meta s) \<and>
           sessions w' = sessions w @ [s\<lparr>bs_meta := m, bs_status := zero_status\<rparr>])"
    and create_Some:
      "wf w \<Longrightarrow> create_session cl s w = (w', Some e) \<Longrightarrow> wf w' \<and> sessions w' = sessions w"
    and delete_None:
      "wf w \<Longrightarrow> delete_session cl s w = (w', None) \<Longrightarrow>
         wf w' \<and> sessions w' = filter (\<lambda>x. session_key x \<noteq> session_key s) (sessions w)"
    and delete_Some:
      "wf w \<Longrightarrow> delete_session cl s w = (w', Some e) \<Longrightarrow> wf w' \<and> sessions w' = sessions w"
begin

sublocale listing: kube_listing "list_sessions cl" sessions session_index
  by unfold_locales (rule list_sessions_Inr)

lemma stored_unique:
  assumes "wf w" "s \<in> set (sessions w)" "t \<in> set (sessions w)" "session_key s = session_key t"
  shows "s = t"
  using keys_distinct [OF assms(1)] assms(2-4) by (meson distinct_map inj_onD)

end

text \<open>The effect of a successful status write on the stored sessions, seen from outside.\<close>

definition status_written ::
  "BreakglassSession list \<Rightarrow> BreakglassSession \<Rightarrow> BreakglassSession list \<Rightarrow> bool" where
  "status_written xs s xs' \<longleftrightarrow>
     map session_key xs' = map session_key xs \<and>
     (\<forall>t \<in> set xs'. session_key t \<noteq> session_key s \<longrightarrow> t \<in> set xs) \<and>
     (\<exists>old \<in> set xs. session_key old = session_key s \<and>
        ResourceVersion (bs_meta old) = ResourceVersion (bs_meta s) \<and>
        (\<forall>t \<in> set xs'. session_key t = session_key s \<longrightarrow>
           bs_status t = wire_status (bs_status s) \<and> bs_spec t = bs_spec old \<and>
           bs_OwnerReferences t = bs_OwnerReferences old))"

lemma status_written_keys:
  "status_written xs s xs' \<Longrightarrow> session_key ` set xs' = session_key ` set xs"
  by (metis status_written_def list.set_map)

lemma status_written_target:
  assumes "status_written xs s xs'"
  obtains t where "t \<in> set xs'" "session_key t = session_key s" "bs_status t = wire_status (bs_status s)"
proof -
  obtain old where "old \<in> set xs" "session_key old = session_key s"
    using assms unfolding status_written_def by blast
  then have "session_key s \<in> session_key ` set xs" by (metis imageI)
  then have "session_key s \<in> session_key ` set xs'" by (simp add: status_written_keys [OF assms])
  then obtain t where t: "t \<in> set xs'" "session_key t = session_key s" by auto
  moreover have "bs_status t = wire_status (bs_status s)"
    using assms t unfolding status_written_def by blast
  ultimately show ?thesis using that by blast
qed

subsection \<open>An in-memory API server\<close>

record mem_api =
  m_sessions :: "BreakglassSession list"
  m_escalations :: "BreakglassEscalation list"
  m_clusterconfigs :: "ClusterConfig list"
  m_denypolicies :: "DenyPolicy list"
  m_selectable :: "string list"
  m_next :: nat

definition mem_wf :: "mem_api \<Rightarrow> bool" where
  "mem_wf m = (distinct (map session_key (m_sessions m)) \<and>
     (\<forall>s \<in> set (m_sessions m). ResourceVersion (bs_meta s) < m_next m \<and>
        Namespace (bs_meta s) \<noteq> [] \<and> plain_name (Name (bs_meta s))))"

definition mem_list ::
  "(mem_api \<Rightarrow> 'a list) \<Rightarrow> (string \<Rightarrow> 'a \<Rightarrow> string list option) \<Rightarrow> selector \<Rightarrow> mem_api \<Rightarrow> 'a list result" where
  "mem_list objs idx sel m =
     (if list_all (\<lambda>(f, v). List.member (m_selectable m) f) sel
      then Inr (filter (index_matches idx sel) (objs m))
      else Inl (Err ''field label not supported''))"

definition mem_get :: "('a \<Rightarrow> ObjectMeta) \<Rightarrow> (mem_api \<Rightarrow> 'a list) \<Rightarrow> object_key \<Rightarrow> mem_api \<Rightarrow> 'a result" where
  "mem_get mt objs k m =
     (case List.find (\<lambda>x. meta_key (mt x) = k) (objs m) of
        Some x \<Rightarrow> Inr x | None \<Rightarrow> Inl (Err ''not found''))"

definition mem_write_session ::
  "(BreakglassSession \<Rightarrow> BreakglassSession) \<Rightarrow> BreakglassSession \<Rightarrow> mem_api \<Rightarrow> mem_api \<times> error option" where
  "mem_write_session f s m =
     (case List.find (\<lambda>x. session_key x = session_key s) (m_sessions m) of
        None \<Rightarrow> (m, Some (Err ''not found''))
      | Some old \<Rightarrow>
          if ResourceVersion (bs_meta old) \<noteq> ResourceVersion (bs_meta s)
          then (m, Some (Err ''the object has been modified''))
          else (m\<lparr>m_sessions := map (\<lambda>x. if session_key x = session_key s
                    then let y = f x in y\<lparr>bs_meta := (bs_meta y)\<lparr>ResourceVersion := m_next m\<rparr>\<rparr>
                    else x) (m_sessions m),
                  m_next := Suc (m_next m)\<rparr>, None))"

definition mem_created_meta :: "ObjectMeta \<Rightarrow> nat \<Rightarrow> ObjectMeta" where
  "mem_created_meta mt n =
     mt\<lparr>Name := (if Name mt = [] then GenerateName mt @ Itoa (int n) else Name mt),
        UID := ''uid-'' @ Itoa (int n), ResourceVersion := n\<rparr>"

definition mem_create_session :: "BreakglassSession \<Rightarrow> mem_api \<Rightarrow> mem_api \<times> error option" where
  "mem_create_session s m =
     (let mt = mem_created_meta (bs_meta s) (m_next m)
      in if Namespace mt = [] \<or> \<not> plain_name (Name mt) then (m, Some (Err ''invalid''))
         else if List.member (map session_key (m_sessions m)) (meta_key mt)
         then (m, Some (Err ''already exists''))
         else (m\<lparr>m_sessions := m_sessions m @ [s\<lparr>bs_meta := mt, bs_status := zero_status\<rparr>],
                 m_next := Suc (m_next m)\<rparr>, None))"

definition mem_delete_session :: "BreakglassSession \<Rightarrow> mem_api \<Rightarrow> mem_api \<times> error option" where
  "mem_delete_session s m =
     (if List.member (map session_key (m_sessions m)) (session_key s)
      then (m\<lparr>m_sessions := filter (\<lambda>x. session_key x \<noteq> session_key s) (m_sessions m)\<rparr>, None)
      else (m, Some (Err ''not found'')))"

definition mem_update_escalation_status ::
  "BreakglassEscalation \<Rightarrow> mem_api \<Rightarrow> mem_api \<times> error option" where
  "mem_update_escalation_status e m =
     (m\<lparr>m_escalations := map (\<lambda>x. if meta_key (be_meta x) = meta_key (be_meta e)
          then x\<lparr>be_status := be_status e\<rparr> else x) (m_escalations m)\<rparr>, None)"

definition mem_parse_selector :: "string \<Rightarrow> selector result" where
  "mem_parse_selector s =
     (let f = takeWhile (\<lambda>c. c \<noteq> CHR ''='') s; v = tl (dropWhile (\<lambda>c. c \<noteq> CHR ''='') s) in
      if List.member v (CHR '','') \<or> List.member v (CHR ''='') then Inl (Err ''invalid selector'')
      else Inr [(f, v)])"

definition mem_client :: "mem_api client" where
  "mem_client = \<lparr>
     list_sessions = mem_list m_sessions session_index,
     get_session = mem_get bs_meta m_sessions,
     create_session = mem_create_session,
     update_session = (\<lambda>s. mem_write_session (\<lambda>x. x\<lparr>bs_OwnerReferences := bs_OwnerReferences s,
       bs_meta := (bs_meta x)\<lparr>Labels := Labels (bs_meta s), Annotations := Annotations (bs_meta s)\<rparr>\<rparr>) s),
     update_session_status = (\<lambda>s. mem_write_session (\<lambda>x. x\<lparr>bs_status := wire_status (bs_status s)\<rparr>) s),
     delete_session = mem_delete_session,
     list_escalations = mem_list m_escalations escalation_index,
     update_escalation_status = mem_update_escalation_status,
     list_clusterconfigs = mem_list m_clusterconfigs clusterconfig_index,
     get_clusterconfig = mem_get cc_meta m_clusterconfigs,
     list_denypolicies = (\<lambda>m. Inr (m_denypolicies m)),
     parse_selector = mem_parse_selector\<rparr>"

definition mem_session_fields :: "string list" where
  "mem_session_fields = [''metadata.name'', ''spec.cluster'', ''spec.user'', ''spec.grantedGroup'']"

subsection \<open>The in-memory server keeps the contracts\<close>

lemma mem_list_listing: "kube_listing (mem_list objs idx) objs idx"
  by unfold_locales (auto simp: mem_list_def split: if_splits)

lemma session_key_meta_update [simp]:
  "session_key (x\<lparr>bs_meta := (bs_meta x)\<lparr>ResourceVersion := v\<rparr>\<rparr>) = session_key x"
  "session_key (x\<lparr>bs_status := st\<rparr>) = session_key x"
  by (simp_all add: session_key_def)

lemma find_key_Some:
  "List.find (\<lambda>x. f x = k) xs = Some y \<Longrightarrow> y \<in> set xs \<and> f y = k"
  by (auto simp: find_Some_iff)

text \<open>A write through \<open>f\<close> that keeps names leaves a well-formed server with the same keys.\<close>

lemma mem_write_None:
  assumes wf: "mem_wf m" and wr: "mem_write_session f s m = (m', None)"
    and f: "\<And>x. Name (bs_meta (f x)) = Name (bs_meta x) \<and> Namespace (bs_meta (f x)) = Namespace (bs_meta x)"
  obtains old where "old \<in> set (m_sessions m)" "session_key old = session_key s"
    "ResourceVersion (bs_meta old) = ResourceVersion (bs_meta s)" "m_next m \<noteq> ResourceVersion (bs_meta old)"
    "m_sessions m' = map (\<lambda>x. if session_key x = session_key s
       then (f x)\<lparr>bs_meta := (bs_meta (f x))\<lparr>ResourceVersion := m_next m\<rparr>\<rparr> else x) (m_sessions m)"
    "mem_wf m'"
proof -
  let ?f = "\<lambda>x. if session_key x = session_key s
      then (f x)\<lparr>bs_meta := (bs_meta (f x))\<lparr>ResourceVersion := m_next m\<rparr>\<rparr> else x"
  from wr obtain old where
    find: "List.find (\<lambda>x. session_key x = session_key s) (m_sessions m) = Some old"
    and rv: "ResourceVersion (bs_meta old) = ResourceVersion (bs_meta s)"
    and m': "m' = m\<lparr>m_sessions := map ?f (m_sessions m), m_next := Suc (m_next m)\<rparr>"
    by (auto simp: mem_write_session_def Let_def split: option.splits if_splits)
  have old: "old \<in> set (m_sessions m)" "session_key old = session_key s"
    using find_key_Some [OF find] by auto
  have key: "session_key (?f x) = session_key x" for x
    using f [of x] by (simp add: session_key_def)
  have keys: "map session_key (m_sessions m') = map session_key (m_sessions m)"
    by (simp add: m' key del: if_image_distrib)
  have "ResourceVersion (bs_meta y) < m_next m' \<and> Namespace (bs_meta y) \<noteq> [] \<and> plain_name (Name (bs_meta y))"
    if y: "y \<in> set (m_sessions m')" for y
  proof -
    from y obtain x where x: "x \<in> set (m_sessions m)" "y = ?f x" by (auto simp: m')
    have "ResourceVersion (bs_meta y) < m_next m'" using x wf by (auto simp: m' mem_wf_def less_Suc_eq)
    moreover have "Namespace (bs_meta y) = Namespace (bs_meta x)" "Name (bs_meta y) = Name (bs_meta x)"
      using key [of x] x(2) by (simp_all add: session_key_def)
    ultimately show ?thesis using x(1) wf by (simp add: mem_wf_def)
  qed
  with keys wf have wf': "mem_wf m'" by (auto simp: mem_wf_def)
  have neq: "m_next m \<noteq> ResourceVersion (bs_meta old)" using wf old by (auto simp: mem_wf_def)
  have "m_sessions m' = map ?f (m_sessions m)" by (simp add: m')
  from that [OF old rv neq this wf'] show ?thesis .
qed

lemma mem_status_None:
  assumes wf: "mem_wf m" and upd: "update_session_status mem_client s m = (m', None)"
  shows "mem_wf m' \<and> (\<exists>old v. old \<in> set (m_sessions m) \<and> session_key old = session_key s \<and>
           ResourceVersion (bs_meta old) = ResourceVersion (bs_meta s) \<and>
           v \<noteq> ResourceVersion (bs_meta old) \<and>
           m_sessions m' = map (\<lambda>x. if session_key x = session_key s
             then x\<lparr>bs_status := wire_status (bs_status s),
                    bs_meta := (bs_meta x)\<lparr>ResourceVersion := v\<rparr>\<rparr> else x) (m_sessions m))"
proof -
  have "mem_write_session (\<lambda>x. x\<lparr>bs_status := wire_status (bs_status s)\<rparr>) s m = (m', None)"
    using upd by (simp add: mem_client_def)
  then show ?thesis
  proof (rule mem_write_None [OF wf], goal_cases)
    case (2 old)
    show ?case
      by (intro conjI exI [of _ old] exI [of _ "m_next m"] 2(1,2,3,6) 2(4) [symmetric]) (simp_all add: 2(4,5))
  qed simp
qed

lemma mem_update_None:
  assumes wf: "mem_wf m" and upd: "update_session mem_client s m = (m', None)"
  shows "mem_wf m' \<and> map session_payload (m_sessions m') = map session_payload (m_sessions m) \<and>
    (\<forall>t \<in> set (m_sessions m). session_key t \<noteq> session_key s \<longrightarrow> t \<in> set (m_sessions m'))"
proof -
  let ?g = "\<lambda>x. x\<lparr>bs_OwnerReferences := bs_OwnerReferences s,
       bs_meta := (bs_meta x)\<lparr>Labels := Labels (bs_meta s), Annotations := Annotations (bs_meta s)\<rparr>\<rparr>"
  have wr: "mem_write_session ?g s m = (m', None)" using upd by (simp add: mem_client_def)
  have f: "\<And>x. Name (bs_meta (?g x)) = Name (bs_meta x) \<and> Namespace (bs_meta (?g x)) = Namespace (bs_meta x)" by simp
  show ?thesis
    by (rule mem_write_None [OF wf wr f]) (auto simp: session_payload_def session_key_def)
qed

lemma mem_create_None:
  assumes wf: "mem_wf m" and cr: "create_session mem_client s m = (m', None)"
  shows "mem_wf m' \<and> (\<exists>mt. Namespace mt = Namespace (bs_meta s) \<and> Labels mt = Labels (bs_meta s) \<and>
           m_sessions m' = m_sessions m @ [s\<lparr>bs_meta := mt, bs_status := zero_status\<rparr>])"
proof -
  let ?mt = "mem_created_meta (bs_meta s) (m_next m)"
  have fresh: "meta_key ?mt \<notin> session_key ` set (m_sessions m)"
    and m': "m' = m\<lparr>m_sessions := m_sessions m @ [s\<lparr>bs_meta := ?mt, bs_status := zero_status\<rparr>],
                    m_next := Suc (m_next m)\<rparr>"
    and named: "Namespace ?mt \<noteq> []" "plain_name (Name ?mt)"
    using cr by (auto simp: mem_client_def mem_create_session_def Let_def split: if_splits)
  have mt: "Namespace ?mt = Namespace (bs_meta s)" "Labels ?mt = Labels (bs_meta s)"
    "ResourceVersion ?mt = m_next m"
    by (simp_all add: mem_created_meta_def)
  have "mem_wf m'"
    using wf mt fresh named by (auto simp: m' mem_wf_def session_key_def less_Suc_eq)
  with mt m' show ?thesis by auto
qed

lemma mem_delete_None:
  "mem_wf m \<Longrightarrow> delete_session mem_client s m = (m', None) \<Longrightarrow>
     mem_wf m' \<and> m_sessions m' = filter (\<lambda>x. session_key x \<noteq> session_key s) (m_sessions m)"
  by (auto simp: mem_client_def mem_delete_session_def mem_wf_def distinct_map_filter split: if_splits)

text \<open>Every write of the in-memory server that reports an error returns the state it was given.\<close>

lemma mem_write_Some:
  "update_session_status mem_client s m = (m', Some e) \<Longrightarrow> m' = m"
  "create_session mem_client s m = (m', Some e) \<Longrightarrow> m' = m"
  "delete_session mem_client s m = (m', Some e) \<Longrightarrow> m' = m"
  "update_session mem_client s m = (m', Some e) \<Longrightarrow> m' = m"
  by (simp_all add: mem_client_def mem_write_session_def mem_create_session_def
      mem_delete_session_def Let_def split: option.splits if_splits)

lemma mem_get_Inr: "get_session mem_client k m = Inr s \<Longrightarrow> s \<in> set (m_sessions m) \<and> session_key s = k"
  by (auto simp: mem_client_def mem_get_def session_key_def split: option.splits dest!: find_key_Some)

interpretation mem: kube_sessions mem_client m_sessions mem_wf
proof (unfold_locales, goal_cases)
  case (1 sel w xs)
  then show ?case using kube_listing.lst_Inr [OF mem_list_listing] by (simp add: mem_client_def)
next
  case (2 w k s)
  then show ?case by (intro mem_get_Inr)
next
  case (3 n)
  then have "CHR '','' \<notin> set n" "CHR ''='' \<notin> set n"
    by (auto simp: plain_name_def list_all_iff)
  then show ?case by (simp add: mem_client_def mem_parse_selector_def Let_def)
next
  case (4 w)
  then show ?case by (simp add: mem_wf_def)
next
  case (5 w s w')
  then show ?case by (rule mem_status_None)
next
  case (7 w s)
  then show ?case by (simp add: mem_wf_def)
next
  case (8 w s w')
  then show ?case by (rule mem_update_None)
next
  case (10 w s w')
  then show ?case by (rule mem_create_None)
next
  case (12 w s w')
  then show ?case by (rule mem_delete_None)
qed (auto dest: mem_write_Some)

interpretation mem_esc: kube_listing "list_escalations mem_client" m_escalations escalation_index
  using mem_list_listing by (simp add: mem_client_def)

interpretation mem_cc: kube_listing "list_clusterconfigs mem_client" m_clusterconfigs clusterconfig_index
  using mem_list_listing by (simp add: mem_client_def)

end
