(* ===== verification/SessionManager.thy ===== *)
theory SessionManager
  imports KubeClient
begin

text \<open>
  \<^verbatim>\<open>pkg/breakglass/session_manager.go\<close>: the operations on stored sessions that the controllers
  use.  Each takes the client and the world; the writes also count their metric.  The contract
  \<open>session_repository\<close> is what the controllers rely on; it follows from the contract of the
  client, so it holds for every API server that keeps \<open>kube_sessions\<close>.
\<close>

subsection \<open>Definitions\<close>

definition SessionSelector :: "string \<Rightarrow> string \<Rightarrow> string \<Rightarrow> string \<Rightarrow> string" where
  "SessionSelector name username cluster grp =
     (if name \<noteq> [] then ''metadata.name='' @ name else
      Join ((if username \<noteq> [] then [''spec.user='' @ username] else []) @
            (if cluster \<noteq> [] then [''spec.cluster='' @ cluster] else []) @
            (if grp \<noteq> [] then [''spec.grantedGroup='' @ grp] else [])) '','')"

definition GetAllBreakglassSessions :: "'w client \<Rightarrow> 'w world \<Rightarrow> BreakglassSession list result" where
  "GetAllBreakglassSessions cl w =
     map_error (wrap_error ''failed to get BreakglassSessionList'') (list_sessions cl [] (api w))"

definition GetBreakglassSessionByName ::
  "'w client \<Rightarrow> string \<Rightarrow> 'w world \<Rightarrow> BreakglassSession result" where
  "GetBreakglassSessionByName cl name w =
     (case get_session cl ([], name) (api w) of
        Inr bs \<Rightarrow> Inr bs
      | Inl _ \<Rightarrow>
          let selector = ''metadata.name='' @ name in
          case parse_selector cl selector of
            Inl ferr \<Rightarrow> Inl (wrap_error (''failed to create field selector '' @ Quote selector) ferr)
          | Inr fs \<Rightarrow>
              (case list_sessions cl fs (api w) of
                 Inl e \<Rightarrow> Inl (wrap_error ''failed to list BreakglassSessionList for fallback lookup'' e)
               | Inr items \<Rightarrow>
                   (case items of
                      [] \<Rightarrow> Inl (wrap_error (''failed to get BreakglassSession by name: '' @ name) (Err ''not found''))
                    | [found] \<Rightarrow> Inr found
                    | _ \<Rightarrow> Inl (Err (''multiple BreakglassSessions with name '' @ Quote name @ '' found in namespaces: '' @
                             Join (map (\<lambda>it. Namespace (bs_meta it)) items) '','')))))"

definition GetBreakglassSessionsWithSelector ::
  "'w client \<Rightarrow> selector \<Rightarrow> 'w world \<Rightarrow> BreakglassSession list result" where
  "GetBreakglassSessionsWithSelector cl fs w =
     map_error (wrap_error ''failed to list BreakglassSessionList with selector'') (list_sessions cl fs (api w))"

definition GetBreakglassSessionsWithSelectorString ::
  "'w client \<Rightarrow> string \<Rightarrow> 'w world \<Rightarrow> BreakglassSession list result" where
  "GetBreakglassSessionsWithSelectorString cl selectorString w =
     (case parse_selector cl selectorString of
        Inl e \<Rightarrow> Inl (Err (''failed to create field selector '' @ Quote selectorString @ '' : '' @ error_text e))
      | Inr fs \<Rightarrow>
          map_error (wrap_error ''failed to list BreakglassSessionList with string selector'')
            (list_sessions cl fs (api w)))"

definition GetClusterUserBreakglassSessions ::
  "'w client \<Rightarrow> string \<Rightarrow> string \<Rightarrow> 'w world \<Rightarrow> BreakglassSession list result" where
  "GetClusterUserBreakglassSessions cl cluster user w =
     (case list_sessions cl [(''spec.cluster'', cluster), (''spec.user'', user)] (api w) of
        Inr items \<Rightarrow> Inr items
      | Inl _ \<Rightarrow> GetBreakglassSessionsWithSelectorString cl
                   (''spec.cluster='' @ cluster @ '',spec.user='' @ user) w)"

definition AddBreakglassSession ::
  "'w client \<Rightarrow> BreakglassSession \<Rightarrow> 'w world \<Rightarrow> 'w world \<times> error option" where
  "AddBreakglassSession cl bs w =
     (case create_session cl bs (api w) of
        (a, Some e) \<Rightarrow> (w\<lparr>api := a\<rparr>, Some (wrap_error ''failed to create new BreakglassSession'' e))
      | (a, None) \<Rightarrow> (inc_metric (SessionCreated (Cluster (bs_spec bs))) (w\<lparr>api := a\<rparr>), None))"

definition UpdateBreakglassSession ::
  "'w client \<Rightarrow> BreakglassSession \<Rightarrow> 'w world \<Rightarrow> 'w world \<times> error option" where
  "UpdateBreakglassSession cl bs w =
     (case update_session cl bs (api w) of
        (a, Some e) \<Rightarrow> (w\<lparr>api := a\<rparr>, Some (wrap_error ''failed to update new BreakglassSession'' e))
      | (a, None) \<Rightarrow> (inc_metric (SessionUpdated (Cluster (bs_spec bs))) (w\<lparr>api := a\<rparr>), None))"

definition UpdateBreakglassSessionStatus ::
  "'w client \<Rightarrow> BreakglassSession \<Rightarrow> 'w world \<Rightarrow> 'w world \<times> error option" where
  "UpdateBreakglassSessionStatus cl bs w =
     (case update_session_status cl bs (api w) of
        (a, Some e) \<Rightarrow> (w\<lparr>api := a\<rparr>, Some (wrap_error ''failed to update new BreakglassSession'' e))
      | (a, None) \<Rightarrow> (w\<lparr>api := a\<rparr>, None))"

definition DeleteBreakglassSession ::
  "'w client \<Rightarrow> BreakglassSession \<Rightarrow> 'w world \<Rightarrow> 'w world \<times> error option" where
  "DeleteBreakglassSession cl bs w =
     (case delete_session cl bs (api w) of
        (a, Some e) \<Rightarrow> (w\<lparr>api := a\<rparr>, Some (wrap_error ''failed to delete breakglass session'' e))
      | (a, None) \<Rightarrow> (inc_metric (SessionDeleted (Cluster (bs_spec bs))) (w\<lparr>api := a\<rparr>), None))"

subsection \<open>The contract of the repository\<close>

locale session_repository =
  fixes all_sessions :: "'w world \<Rightarrow> BreakglassSession list result"
    and by_name :: "string \<Rightarrow> 'w world \<Rightarrow> BreakglassSession result"
    and put_status :: "BreakglassSession \<Rightarrow> 'w world \<Rightarrow> 'w world \<times> error option"
    and remove :: "BreakglassSession \<Rightarrow> 'w world \<Rightarrow> 'w world \<times> error option"
    and stored :: "'w world \<Rightarrow> BreakglassSession list"
    and ok :: "'w world \<Rightarrow> bool"
  assumes all_sessions_Inr: "all_sessions w = Inr xs \<Longrightarrow> xs = stored w"
    and by_name_Inr: "ok w \<Longrightarrow> by_name n w = Inr s \<Longrightarrow> s \<in> set (stored w)"
    and by_name_plain: "ok w \<Longrightarrow> plain_name n \<Longrightarrow> by_name n w = Inr s \<Longrightarrow> Name (bs_meta s) = n"
    and keys: "ok w \<Longrightarrow> distinct (map session_key (stored w))"
    and put_None: "ok w \<Longrightarrow> put_status s w = (w', None) \<Longrightarrow>
          ok w' \<and> status_written (stored w) s (stored w')"
    and put_Some: "ok w \<Longrightarrow> put_status s w = (w', Some e) \<Longrightarrow> ok w' \<and> stored w' = stored w"
    and put_counters: "put_status s w = (w', r) \<Longrightarrow> counters w' = counters w \<and> outbox w' = outbox w"
    and remove_None: "ok w \<Longrightarrow> remove s w = (w', None) \<Longrightarrow>
          ok w' \<and> stored w' = filter (\<lambda>x. session_key x \<noteq> session_key s) (stored w)"
    and remove_Some: "ok w \<Longrightarrow> remove s w = (w', Some e) \<Longrightarrow> ok w' \<and> stored w' = stored w"
    and ok_frame: "api w = api w' \<Longrightarrow> ok w = ok w' \<and> stored w = stored w'"
begin

lemma ok_inc_metric [simp]: "ok (inc_metric m w) = ok w" "stored (inc_metric m w) = stored w"
  using ok_frame [of "inc_metric m w" w] by auto

lemma unique_by_key:
  assumes "ok w" "s \<in> set (stored w)" "t \<in> set (stored w)" "session_key s = session_key t"
  shows "s = t"
  using keys [OF assms(1)] assms(2-4) by (meson distinct_map inj_onD)

text \<open>A status write changes nothing but the status and version of the one session it names.\<close>

lemma put_other:
  assumes "ok w" "put_status s w = (w', r)" "t \<in> set (stored w)" "session_key t \<noteq> session_key s"
  shows "t \<in> set (stored w')"
proof (cases r)
  case (Some e)
  with assms(2) put_Some [OF assms(1)] have "stored w' = stored w" by blast
  with assms(3) show ?thesis by simp
next
  case None
  have sw: "status_written (stored w) s (stored w')"
    using put_None [OF assms(1)] assms(2) None by simp
  have "session_key t \<in> session_key ` set (stored w')"
    using status_written_keys [OF sw] assms(3) by simp
  then obtain u where u: "u \<in> set (stored w')" "session_key u = session_key t" by auto
  have "\<forall>t \<in> set (stored w'). session_key t \<noteq> session_key s \<longrightarrow> t \<in> set (stored w)"
    using sw by (simp add: status_written_def)
  then have "u \<in> set (stored w)" using u assms(4) by simp
  then have "u = t" using unique_by_key [OF assms(1) _ assms(3) u(2)] by simp
  with u show ?thesis by simp
qed

end

subsection \<open>The session manager keeps the contract\<close>

context kube_sessions
begin

lemma by_name_stored:
  assumes "wf (api w)" and "GetBreakglassSessionByName cl n w = Inr s"
  shows "s \<in> set (sessions (api w))"
proof (cases "get_session cl ([], n) (api w)")
  case (Inr b)
  with assms get_session_Inr [OF assms(1)] show ?thesis by (auto simp: GetBreakglassSessionByName_def)
next
  case (Inl e)
  with assms obtain fs where "list_sessions cl fs (api w) = Inr [s]"
    by (auto simp: GetBreakglassSessionByName_def Let_def split: sum.splits list.splits)
  from listing.lst_subset [OF this] show ?thesis by simp
qed

lemma by_name_named:
  assumes "wf (api w)" and "plain_name n" and "GetBreakglassSessionByName cl n w = Inr s"
  shows "Name (bs_meta s) = n"
proof (cases "get_session cl ([], n) (api w)")
  case (Inr b)
  with assms have "s = b" by (simp add: GetBreakglassSessionByName_def)
  with Inr get_session_Inr [OF assms(1)] show ?thesis by (auto simp: session_key_def)
next
  case (Inl e)
  with assms parse_name [OF assms(2)] obtain items where l: "list_sessions cl [(''metadata.name'', n)] (api w) = Inr items"
    and items: "items = [s]"
    by (auto simp: GetBreakglassSessionByName_def Let_def split: sum.splits list.splits)
  have "index_matches session_index [(''metadata.name'', n)] s"
    using listing.lst_mem_iff [OF l, of s] items by simp
  then show ?thesis by (simp add: index_matches_def session_index_def)
qed

lemma status_write_shape:
  assumes "wf (api w)" and "UpdateBreakglassSessionStatus cl s w = (w', None)"
  shows "wf (api w') \<and> status_written (sessions (api w)) s (sessions (api w'))"
proof -
  from assms(2) have upd: "update_session_status cl s (api w) = (api w', None)"
    by (auto simp: UpdateBreakglassSessionStatus_def split: prod.splits option.splits)
  from status_None [OF assms(1) upd] obtain old v where
    wf': "wf (api w')" and old: "old \<in> set (sessions (api w))" "session_key old = session_key s"
      "ResourceVersion (bs_meta old) = ResourceVersion (bs_meta s)"
    and w': "sessions (api w') = map (\<lambda>x. if session_key x = session_key s
             then x\<lparr>bs_status := wire_status (bs_status s),
                    bs_meta := (bs_meta x)\<lparr>ResourceVersion := v\<rparr>\<rparr> else x) (sessions (api w))"
    (is "_ = map ?f _")
    by blast
  have key: "session_key (?f x) = session_key x" for x by (simp add: session_key_def)
  have same: "x = old" if "x \<in> set (sessions (api w))" "session_key x = session_key s" for x
    using stored_unique [OF assms(1) that(1) old(1)] that(2) old(2) by simp
  have "map session_key (sessions (api w')) = map session_key (sessions (api w))"
    by (simp add: w' key del: session_key_meta_update)
  moreover have "t \<in> set (sessions (api w))"
    if "t \<in> set (sessions (api w'))" "session_key t \<noteq> session_key s" for t
  proof -
    from that(1) obtain x where x: "x \<in> set (sessions (api w))" "t = ?f x" unfolding w' set_map by blast
    with key [of x] that(2) have "session_key x \<noteq> session_key s" by simp
    with x show ?thesis by simp
  qed
  moreover have "bs_status t = wire_status (bs_status s) \<and> bs_spec t = bs_spec old \<and>
      bs_OwnerReferences t = bs_OwnerReferences old"
    if "t \<in> set (sessions (api w'))" "session_key t = session_key s" for t
  proof -
    from that(1) obtain x where x: "x \<in> set (sessions (api w))" "t = ?f x" unfolding w' set_map by blast
    with key [of x] that(2) have "session_key x = session_key s" by simp
    with x same show ?thesis by auto
  qed
  ultimately show ?thesis using wf' old unfolding status_written_def by blast
qed

sublocale repo: session_repository "GetAllBreakglassSessions cl" "GetBreakglassSessionByName cl"
  "UpdateBreakglassSessionStatus cl" "DeleteBreakglassSession cl" "\<lambda>w. sessions (api w)" "\<lambda>w. wf (api w)"
proof (unfold_locales, goal_cases)
  case (1 w xs)
  then show ?case using listing.lst_all by (simp add: GetAllBreakglassSessions_def)
next
  case (2 w n s)
  then show ?case by (rule by_name_stored)
next
  case (3 w n s)
  then show ?case by (rule by_name_named)
next
  case (4 w)
  then show ?case by (rule keys_distinct)
next
  case (5 w s w')
  then show ?case by (rule status_write_shape)
next
  case (6 w s w' e)
  then show ?case using status_Some
    by (auto simp: UpdateBreakglassSessionStatus_def split: prod.splits option.splits)
next
  case (7 s w w' r)
  then show ?case by (auto simp: UpdateBreakglassSessionStatus_def split: prod.splits option.splits)
next
  case (8 w s w')
  then show ?case using delete_None
    by (auto simp: DeleteBreakglassSession_def split: prod.splits option.splits)
next
  case (9 w s w' e)
  then show ?case using delete_Some
    by (auto simp: DeleteBreakglassSession_def split: prod.splits option.splits)
next
  case (10 w w')
  then show ?case by simp
qed

end

end
