(* ===== verification/Config.thy ===== *)
theory Config
  imports KubeClient
begin

text \<open>
  \<^verbatim>\<open>pkg/config/config.go\<close> and \<^verbatim>\<open>pkg/mail\<close>: the configuration file with its loader, and the mail
  sender that is built from it.  The environment, the file system, the YAML decoder, the HTML
  template engine and the SMTP dialer are parameters.  \<^verbatim>\<open>Load\<close> returns the configuration and an
  error side by side as in Go: one caller uses the configuration even when there was an error.
\<close>

subsection \<open>Configuration\<close>

record AuthorizationServerConfig =
  as_URL :: string
  JWKSEndpoint :: string
  as_InsecureSkipVerify :: bool
  CertificateAuthority :: string

record FrontendConfig =
  OIDCAuthority :: string
  OIDCClientID :: string
  BaseURL :: string
  BrandingName :: string

record MailConfig =
  Host :: string
  Port :: int
  MailUser :: string
  Password :: string
  ml_InsecureSkipVerify :: bool
  SenderAddress :: string
  SenderName :: string

record ServerConfig =
  ListenAddress :: string
  TLSCertFile :: string
  TLSKeyFile :: string

record KubernetesConfig =
  KubeContext :: string
  OIDCPrefixes :: "string list"
  ClusterConfigCheckInterval :: string

record KeycloakConfig =
  kc_BaseURL :: string
  Realm :: string
  ClientID :: string
  ClientSecret :: string
  CacheTTL :: string
  RequestTimeout :: string
  Disable :: bool

record Config =
  cfg_Server :: ServerConfig
  cfg_AuthorizationServer :: AuthorizationServerConfig
  cfg_Mail :: MailConfig
  cfg_Frontend :: FrontendConfig
  cfg_Kubernetes :: KubernetesConfig
  cfg_Keycloak :: KeycloakConfig

definition zero_Config :: Config where
  "zero_Config = \<lparr>
     cfg_Server = \<lparr>ListenAddress = [], TLSCertFile = [], TLSKeyFile = []\<rparr>,
     cfg_AuthorizationServer = \<lparr>as_URL = [], JWKSEndpoint = [], as_InsecureSkipVerify = False,
       CertificateAuthority = []\<rparr>,
     cfg_Mail = \<lparr>Host = [], Port = 0, MailUser = [], Password = [], ml_InsecureSkipVerify = False,
       SenderAddress = [], SenderName = []\<rparr>,
     cfg_Frontend = \<lparr>OIDCAuthority = [], OIDCClientID = [], BaseURL = [], BrandingName = []\<rparr>,
     cfg_Kubernetes = \<lparr>KubeContext = [], OIDCPrefixes = [], ClusterConfigCheckInterval = []\<rparr>,
     cfg_Keycloak = \<lparr>kc_BaseURL = [], Realm = [], ClientID = [], ClientSecret = [], CacheTTL = [],
       RequestTimeout = [], Disable = False\<rparr>\<rparr>"

text \<open>\<open>unmarshal\<close> fills the given configuration and reports an error, as \<^verbatim>\<open>yaml.Unmarshal\<close> does
  through its pointer.\<close>

definition Load ::
  "(string \<Rightarrow> string) \<Rightarrow> (string \<Rightarrow> string result) \<Rightarrow> (string \<Rightarrow> Config \<Rightarrow> Config \<times> error option) \<Rightarrow>
   Config \<times> error option" where
  "Load getenv read_file unmarshal =
     (let p = getenv ''BREAKGLASS_CONFIG_PATH'';
          configPath = (if length p = 0 then ''./config.yaml'' else p) in
      case read_file configPath of
        Inl e \<Rightarrow> (zero_Config, Some (Err (''trying to open breakglass config file '' @ configPath @ '': '' @ error_text e)))
      | Inr content \<Rightarrow>
          (case unmarshal content zero_Config of
             (cfg, Some e) \<Rightarrow> (cfg, Some (Err (''error unmarshaling YAML '' @ configPath @ '': '' @ error_text e)))
           | (cfg, None) \<Rightarrow> (cfg, None)))"

text \<open>The idiom \<^verbatim>\<open>if cfg, err := config.Load(); err == nil && len(cfg.Kubernetes.OIDCPrefixes) > 0\<close>:
  the prefixes in effect for a call, none after a failed load.\<close>

definition loaded_prefixes :: "Config \<times> error option \<Rightarrow> string list" where
  "loaded_prefixes r = (case r of (cfg, None) \<Rightarrow> OIDCPrefixes (cfg_Kubernetes cfg) | (cfg, Some _) \<Rightarrow> [])"

lemma loaded_prefixes_error [simp]: "loaded_prefixes (cfg, Some e) = []"
  by (simp add: loaded_prefixes_def)

lemma Load_read_error:
  "read_file (if getenv ''BREAKGLASS_CONFIG_PATH'' = [] then ''./config.yaml''
              else getenv ''BREAKGLASS_CONFIG_PATH'') = Inl e \<Longrightarrow>
   loaded_prefixes (Load getenv read_file unmarshal) = []"
  by (auto simp: Load_def Let_def)

subsection \<open>Mail\<close>

record sender =
  sn_host :: string
  sn_port :: int
  sn_skip_verify :: bool
  senderAddress :: string
  senderName :: string

record mail_message =
  msg_From :: "string \<times> string"
  msg_Bcc :: "string list"
  msg_Subject :: string
  msg_Body :: string

definition NewSender :: "Config \<Rightarrow> sender" where
  "NewSender cfg =
     (let senderAddr = (if SenderAddress (cfg_Mail cfg) = [] then ''noreply@schiff.telekom.de''
                        else SenderAddress (cfg_Mail cfg));
          n0 = SenderName (cfg_Mail cfg);
          n1 = (if n0 = [] \<and> BrandingName (cfg_Frontend cfg) \<noteq> [] then BrandingName (cfg_Frontend cfg) else n0);
          n2 = (if n1 = [] then ''Breakglass'' else n1)
      in \<lparr>sn_host = Host (cfg_Mail cfg), sn_port = Port (cfg_Mail cfg),
          sn_skip_verify = ml_InsecureSkipVerify (cfg_Mail cfg),
          senderAddress = senderAddr, senderName = n2\<rparr>)"

text \<open>Sending counts the outcome and reports the dialer's error; a delivered mail is in the outbox.\<close>

definition Send ::
  "(mail_message \<Rightarrow> error option) \<Rightarrow> sender \<Rightarrow> string list \<Rightarrow> string \<Rightarrow> string \<Rightarrow>
   'w world \<Rightarrow> 'w world \<times> error option" where
  "Send dial s receivers subj body w =
     (let msg = \<lparr>msg_From = (senderAddress s, senderName s), msg_Bcc = receivers,
                 msg_Subject = subj, msg_Body = body\<rparr>
      in case dial msg of
           Some e \<Rightarrow> (inc_metric (MailSendFailure (sn_host s)) w, Some e)
         | None \<Rightarrow> (inc_metric (MailSendSuccess (sn_host s))
                      (w\<lparr>outbox := outbox w @ [\<lparr>Receivers = receivers, Subject = subj, Body = body\<rparr>]\<rparr>), None))"

lemma NewSender_named: "senderName (NewSender cfg) \<noteq> [] \<and> senderAddress (NewSender cfg) \<noteq> []"
  by (simp add: NewSender_def Let_def)

lemma Send_api [frame_simps]: "Send dial s rs subj body w = (w', r) \<Longrightarrow> api w' = api w"
  by (auto simp: Send_def Let_def split: option.splits)

end
