(* ===== verification/GroupLists.thy ===== *)
theory GroupLists
  imports Prelude "HOL-Library.Multiset"
begin

text \<open>
  Group and member lists: OIDC prefix stripping (\<^verbatim>\<open>group_checker.go\<close>), order-preserving
  deduplication (\<^verbatim>\<open>webhook/controller.go\<close>), member normalisation and slice comparison
  (\<^verbatim>\<open>escalation_status_updater.go\<close>) and set intersection (\<^verbatim>\<open>escalation.go\<close>).  Each loop is
  related to a reference definition on lists, sets or multisets.
\<close>

subsection \<open>Definitions\<close>

text \<open>The inner loop: the first configured prefix that fits is removed, once.\<close>

fun strip_first_prefix :: "string \<Rightarrow> string list \<Rightarrow> string" where
  "strip_first_prefix g [] = g"
| "strip_first_prefix g (p # ps) =
     (if HasPrefix g p then TrimPrefix g p else strip_first_prefix g ps)"

definition stripOIDCPrefixes :: "string list \<Rightarrow> string list \<Rightarrow> string list" where
  "stripOIDCPrefixes groups oidcPrefixes =
     (if oidcPrefixes = [] then groups else map (\<lambda>g. strip_first_prefix g oidcPrefixes) groups)"

fun dedupe_loop :: "string list \<Rightarrow> string list \<Rightarrow> string list \<Rightarrow> string list" where
  "dedupe_loop out seen [] = out"
| "dedupe_loop out seen (v # vs) =
     (if \<not> List.member seen v then dedupe_loop (out @ [v]) (v # seen) vs
      else dedupe_loop out seen vs)"

definition dedupeStrings :: "string list \<Rightarrow> string list" where
  "dedupeStrings xs = dedupe_loop [] [] xs"

fun normalize_loop :: "string list \<Rightarrow> string list \<Rightarrow> string list \<Rightarrow> string list" where
  "normalize_loop out seen [] = out"
| "normalize_loop out seen (m # ms) =
     (let m' = TrimSpace (ToLower m) in
      if m' = [] then normalize_loop out seen ms
      else if List.member seen m' then normalize_loop out seen ms
      else normalize_loop (out @ [m']) (m' # seen) ms)"

definition normalizeMembers :: "string list \<Rightarrow> string list" where
  "normalizeMembers xs = normalize_loop [] [] xs"

text \<open>A \<^verbatim>\<open>map[string]int\<close>: a missing key reads as zero.\<close>

definition count_of :: "(string \<times> int) list \<Rightarrow> string \<Rightarrow> int" where
  "count_of m v = (case map_of m v of None \<Rightarrow> 0 | Some n \<Rightarrow> n)"

fun count_up :: "(string \<times> int) list \<Rightarrow> string list \<Rightarrow> (string \<times> int) list" where
  "count_up m [] = m"
| "count_up m (v # vs) = count_up (map_set v (count_of m v + 1) m) vs"

fun count_down :: "(string \<times> int) list \<Rightarrow> string list \<Rightarrow> (string \<times> int) list option" where
  "count_down m [] = Some m"
| "count_down m (v # vs) =
     (if count_of m v = 0 then None else count_down (map_set v (count_of m v - 1) m) vs)"

definition equalStringSlices :: "string list \<Rightarrow> string list \<Rightarrow> bool" where
  "equalStringSlices a b =
     (if length a \<noteq> length b then False
      else case count_down (count_up [] a) b of
             None \<Rightarrow> False
           | Some m \<Rightarrow> list_all (\<lambda>(k, c). c = 0) m)"

definition intersects :: "string list \<Rightarrow> string list \<Rightarrow> bool" where
  "intersects amap b = list_ex (\<lambda>v. List.member amap v) b"

subsection \<open>Prefix stripping\<close>

lemma strip_first_prefix_cases:
  "(\<exists>p \<in> set ps. g = p @ strip_first_prefix g ps) \<or>
   ((\<forall>p \<in> set ps. \<not> HasPrefix g p) \<and> strip_first_prefix g ps = g)"
proof (induction g ps rule: strip_first_prefix.induct)
  case (2 g p ps)
  show ?case
  proof (cases "HasPrefix g p")
    case True
    then have "g = p @ strip_first_prefix g (p # ps)" by (auto simp: TrimPrefix_def prefix_def)
    then show ?thesis by auto
  next
    case False
    with 2 show ?thesis by auto
  qed
qed simp

lemma strip_first_prefix_plain: "(\<forall>p \<in> set ps. \<not> HasPrefix g p) \<Longrightarrow> strip_first_prefix g ps = g"
  by (induction g ps rule: strip_first_prefix.induct) auto

lemma length_stripOIDCPrefixes: "length (stripOIDCPrefixes gs ps) = length gs"
  by (simp add: stripOIDCPrefixes_def)

lemma stripOIDCPrefixes_member:
  "g \<in> set (stripOIDCPrefixes gs ps) \<Longrightarrow> g \<in> set gs \<or> (\<exists>p \<in> set ps. p @ g \<in> set gs)"
proof -
  assume "g \<in> set (stripOIDCPrefixes gs ps)"
  then obtain h where "h \<in> set gs" "g = h \<or> g = strip_first_prefix h ps"
    by (auto simp: stripOIDCPrefixes_def split: if_splits)
  with strip_first_prefix_cases [of ps h] show ?thesis by metis
qed

subsection \<open>Deduplication\<close>

definition first_occurrences :: "'a list \<Rightarrow> 'a list" where
  "first_occurrences xs = rev (remdups (rev xs))"

lemma first_occurrences_snoc:
  "first_occurrences (xs @ [x]) = (if x \<in> set xs then first_occurrences xs else first_occurrences xs @ [x])"
  by (simp add: first_occurrences_def)

lemma distinct_first_occurrences [simp]: "distinct (first_occurrences xs)"
  by (simp add: first_occurrences_def)

lemma set_first_occurrences [simp]: "set (first_occurrences xs) = set xs"
  by (simp add: first_occurrences_def)

lemma first_occurrences_distinct: "distinct xs \<Longrightarrow> first_occurrences xs = xs"
  by (simp add: first_occurrences_def distinct_remdups_id)

lemma first_occurrences_Cons:
  "first_occurrences (x # xs) = x # filter (\<lambda>y. y \<noteq> x) (first_occurrences xs)"
proof (induction xs rule: rev_induct)
  case Nil
  then show ?case by (simp add: first_occurrences_def)
next
  case (snoc y ys)
  have "first_occurrences (x # ys @ [y]) = first_occurrences ((x # ys) @ [y])" by simp
  then show ?case using snoc by (simp only: first_occurrences_snoc) auto
qed

lemma subseq_first_occurrences: "subseq (first_occurrences xs) xs"
proof (induction xs)
  case Nil
  then show ?case by (simp add: first_occurrences_def)
next
  case (Cons x xs)
  then have "subseq (filter (\<lambda>y. y \<noteq> x) (first_occurrences xs)) xs"
    using subseq_filter_left [of "\<lambda>y. y \<noteq> x" "first_occurrences xs"] subseq_order.order_trans by blast
  then show ?case by (simp add: first_occurrences_Cons)
qed

lemma dedupe_loop_eq:
  assumes "set seen = set out"
  shows "dedupe_loop out seen xs = out @ filter (\<lambda>v. v \<notin> set out) (first_occurrences xs)"
  using assms
proof (induction xs arbitrary: out seen)
  case Nil
  then show ?case by (simp add: first_occurrences_def)
next
  case (Cons v vs)
  have *: "filter (\<lambda>x. x \<noteq> v \<and> x \<notin> set out) zs = filter (\<lambda>x. x \<notin> set out) zs"
    if "v \<in> set out" for zs
    using that by (intro filter_cong) auto
  show ?case
  proof (cases "v \<in> set out")
    case True
    with Cons show ?thesis by (simp add: first_occurrences_Cons * conj_commute)
  next
    case False
    with Cons.prems Cons.IH [of "v # seen" "out @ [v]"] show ?thesis
      by (simp add: first_occurrences_Cons conj_commute)
  qed
qed

lemma dedupeStrings_eq: "dedupeStrings xs = first_occurrences xs"
  by (simp add: dedupeStrings_def dedupe_loop_eq)

subsection \<open>Member normalisation\<close>

definition normal_member :: "string \<Rightarrow> string" where
  "normal_member m = TrimSpace (ToLower m)"

lemma normalize_loop_eq:
  "normalize_loop out seen xs = dedupe_loop out seen (filter (\<lambda>m. m \<noteq> []) (map normal_member xs))"
  by (induction out seen xs rule: normalize_loop.induct) (auto simp: normal_member_def Let_def)

lemma normalizeMembers_eq:
  "normalizeMembers xs = first_occurrences (filter (\<lambda>m. m \<noteq> []) (map normal_member xs))"
  by (simp add: normalizeMembers_def normalize_loop_eq dedupe_loop_eq)

lemma lower_char_range: "\<not> (65 \<le> (of_char (lower_char c) :: int) \<and> (of_char (lower_char c) :: int) \<le> 90)"
proof -
  have "(of_char (char_of n :: char) :: int) = n" if "0 \<le> n" "n < 256" for n :: int
    using that by (simp add: of_char_of)
  then show ?thesis by (auto simp: lower_char_def Let_def)
qed

lemma lower_char_idem [simp]: "lower_char (lower_char c) = lower_char c"
proof -
  have "\<not> (65 \<le> (of_char (lower_char c) :: int) \<and> (of_char (lower_char c) :: int) \<le> 90)"
    by (rule lower_char_range)
  then show ?thesis by (subst lower_char_def) (simp only: Let_def if_False)
qed

lemma dropWhile_id_hd: "(xs \<noteq> [] \<Longrightarrow> \<not> P (hd xs)) \<Longrightarrow> dropWhile P xs = xs"
  by (cases xs) auto

lemma dropWhile_trim_idem:
  "dropWhile P (rev (dropWhile P (rev (dropWhile P s)))) = rev (dropWhile P (rev (dropWhile P s)))"
proof -
  let ?d = "dropWhile P s"
  have "\<not> P (hd (rev (dropWhile P (rev ?d))))" if "rev (dropWhile P (rev ?d)) \<noteq> []"
  proof -
    have "?d \<noteq> []" using that by (cases ?d) auto
    then show ?thesis using hd_rev_dropWhile_rev [OF that] hd_dropWhile [of P s] by simp
  qed
  then show ?thesis by (rule dropWhile_id_hd)
qed

lemma TrimSpace_idem [simp]: "TrimSpace (TrimSpace s) = TrimSpace s"
  by (simp add: TrimSpace_def dropWhile_trim_idem)

lemma ToLower_TrimSpace_lower: "ToLower (TrimSpace (ToLower s)) = TrimSpace (ToLower s)"
proof -
  have "set (TrimSpace (ToLower s)) \<subseteq> lower_char ` set s"
    by (auto simp: TrimSpace_def ToLower_def dest!: set_dropWhileD)
  then show ?thesis by (auto simp: ToLower_def intro!: map_idI)
qed

lemma normal_member_idem [simp]: "normal_member (normal_member m) = normal_member m"
  by (simp add: normal_member_def ToLower_TrimSpace_lower)

lemma normalizeMembers_normal:
  "m \<in> set (normalizeMembers xs) \<longleftrightarrow> m \<noteq> [] \<and> m \<in> normal_member ` set xs"
  by (auto simp: normalizeMembers_eq)

lemma normalizeMembers_fixpoint: "normalizeMembers (normalizeMembers xs) = normalizeMembers xs"
proof -
  let ?r = "normalizeMembers xs"
  have "map normal_member ?r = ?r"
    by (rule map_idI) (auto simp: normalizeMembers_normal)
  moreover have "filter (\<lambda>m. m \<noteq> []) ?r = ?r"
    by (simp add: filter_id_conv normalizeMembers_normal)
  ultimately show ?thesis
    by (simp add: normalizeMembers_eq [of ?r] first_occurrences_distinct)
      (simp add: normalizeMembers_eq first_occurrences_distinct)
qed

subsection \<open>Slice comparison\<close>

lemma count_of_map_set: "count_of (map_set v n m) x = (if x = v then n else count_of m x)"
  by (simp add: count_of_def)

lemma distinct_map_set: "distinct (map fst m) \<Longrightarrow> distinct (map fst (map_set k v m))"
proof (induction k v m rule: map_set.induct)
  case (2 k v k' v' m)
  have "fst ` set (map_set k v m) \<subseteq> insert k (fst ` set m)" for k v and m :: "('a \<times> 'b) list"
    by (induction k v m rule: map_set.induct) auto
  with 2 show ?case by fastforce
qed simp

lemma count_up_count: "count_of (count_up m xs) x = count_of m x + int (count (mset xs) x)"
  by (induction m xs rule: count_up.induct) (auto simp: count_of_map_set)

lemma count_up_distinct: "distinct (map fst m) \<Longrightarrow> distinct (map fst (count_up m xs))"
  by (induction m xs rule: count_up.induct) (auto simp: distinct_map_set)

lemma count_down_spec:
  assumes "\<And>x. 0 \<le> count_of m x"
  shows "(count_down m xs = None \<longleftrightarrow> (\<exists>x. count_of m x < int (count (mset xs) x))) \<and>
    (\<forall>m'. count_down m xs = Some m' \<longrightarrow> (\<forall>x. count_of m' x = count_of m x - int (count (mset xs) x)))"
  using assms
proof (induction m xs rule: count_down.induct)
  case (1 m)
  then show ?case by (auto simp: not_less)
next
  case (2 m v vs)
  show ?case
  proof (cases "count_of m v = 0")
    case True
    then show ?thesis by (auto intro!: exI [of _ v])
  next
    case False
    let ?m = "map_set v (count_of m v - 1) m"
    have nn: "0 \<le> count_of ?m x" for x
      using "2.prems" [of x] "2.prems" [of v] False by (auto simp: count_of_map_set)
    have shift: "count_of ?m x - int (count (mset vs) x) =
        count_of m x - int (count (mset (v # vs)) x)" for x
      by (simp add: count_of_map_set)
    have "count_of ?m x < int (count (mset vs) x) \<longleftrightarrow>
        count_of m x < int (count (mset (v # vs)) x)" for x
      using shift [of x] by linarith
    with 2 False nn shift show ?thesis by simp
  qed
qed

lemma count_down_distinct:
  "count_down m xs = Some m' \<Longrightarrow> distinct (map fst m) \<Longrightarrow> distinct (map fst m')"
  by (induction m xs rule: count_down.induct) (auto simp: distinct_map_set split: if_splits)

lemma all_zero_iff:
  "distinct (map fst m) \<Longrightarrow> list_all (\<lambda>(k, c). c = 0) m \<longleftrightarrow> (\<forall>x. count_of m x = 0)"
proof
  assume d: "distinct (map fst m)" and z: "\<forall>x. count_of m x = 0"
  have "c = 0" if "(k, c) \<in> set m" for k c
    using z [rule_format, of k] map_of_is_SomeI [OF d that] by (simp add: count_of_def)
  then show "list_all (\<lambda>(k, c). c = 0) m" by (auto simp: list_all_iff)
next
  assume "list_all (\<lambda>(k, c). c = 0) m"
  then show "\<forall>x. count_of m x = 0"
    by (auto simp: list_all_iff count_of_def split: option.splits dest!: map_of_SomeD)
qed

lemma equalStringSlices_mset: "equalStringSlices a b \<longleftrightarrow> mset a = mset b"
proof -
  let ?m = "count_up [] a"
  have cnt: "count_of ?m x = int (count (mset a) x)" for x
    using count_up_count [of "[]" a x] by (simp add: count_of_def [of "[]"])
  have dist: "distinct (map fst ?m)" by (simp add: count_up_distinct)
  note spec = count_down_spec [of ?m b, unfolded cnt]
  show ?thesis
  proof (cases "count_down ?m b")
    case None
    with spec obtain x where "int (count (mset a) x) < int (count (mset b) x)" by auto
    then have "mset a \<noteq> mset b" by force
    with None show ?thesis by (simp add: equalStringSlices_def)
  next
    case (Some m')
    then have m': "count_of m' x = int (count (mset a) x) - int (count (mset b) x)" for x
      using spec by auto
    have "list_all (\<lambda>(k, c). c = 0) m' \<longleftrightarrow> mset a = mset b"
      using all_zero_iff [OF count_down_distinct [OF Some dist]]
      by (auto simp: m' multiset_eq_iff)
    moreover have "mset a = mset b \<Longrightarrow> length a = length b" by (metis size_mset)
    ultimately show ?thesis using Some by (auto simp: equalStringSlices_def)
  qed
qed

lemma intersects_iff: "intersects amap b \<longleftrightarrow> set amap \<inter> set b \<noteq> {}"
  by (auto simp: intersects_def list_ex_iff)

subsection \<open>Properties\<close>

text \<open>The deduplication loop returns the first occurrence of every string in the original order; the
  result has the same elements and no duplicates.\<close>

theorem dedupeStrings_correct:
  "dedupeStrings xs = first_occurrences xs \<and> distinct (dedupeStrings xs) \<and> set (dedupeStrings xs) = set xs"
  by (simp add: dedupeStrings_eq)

text \<open>The slice comparison by counting is equality of multisets: order does not matter, multiplicity
  does.\<close>

theorem equalStringSlices_correct: "equalStringSlices a b \<longleftrightarrow> mset a = mset b"
  by (rule equalStringSlices_mset)

text \<open>Member normalisation: exactly the trimmed, lower-cased, non-empty members remain, each once, and
  normalising again changes nothing.\<close>

theorem normalizeMembers_correct:
  "(m \<in> set (normalizeMembers xs) \<longleftrightarrow> m \<noteq> [] \<and> (\<exists>x \<in> set xs. m = TrimSpace (ToLower x))) \<and>
   distinct (normalizeMembers xs) \<and> normalizeMembers (normalizeMembers xs) = normalizeMembers xs"
proof -
  have "distinct (normalizeMembers xs)" by (simp add: normalizeMembers_eq)
  then show ?thesis by (auto simp: normalizeMembers_normal normalizeMembers_fixpoint normal_member_def)
qed

text \<open>Prefix stripping works group by group: every resulting group is an original group without the
  first configured prefix it starts with, or an original group that starts with none.\<close>

theorem stripOIDCPrefixes_correct:
  "length (stripOIDCPrefixes gs ps) = length gs \<and>
   (\<forall>i < length gs. (\<exists>p \<in> set ps. gs ! i = p @ stripOIDCPrefixes gs ps ! i) \<or>
      ((\<forall>p \<in> set ps. \<not> HasPrefix (gs ! i) p) \<and> stripOIDCPrefixes gs ps ! i = gs ! i))"
  using strip_first_prefix_cases by (auto simp: stripOIDCPrefixes_def)

theorem stripOIDCPrefixes_correct_witness:
  "\<exists>p \<in> set [''oidc:'']. ''oidc:dev'' = p @ stripOIDCPrefixes [''oidc:dev''] [''oidc:''] ! 0"
proof -
  have "HasPrefix ''oidc:dev'' ''oidc:''" by simp
  then show ?thesis using stripOIDCPrefixes_correct [of "[''oidc:dev'']" "[''oidc:'']"] by auto
qed

end
