(* ===== verification/EscalationManager.thy ===== *)
theory EscalationManager
  imports Config GroupLists
begin

text \<open>
  \<^verbatim>\<open>pkg/breakglass/escalation_manager.go\<close>, \<^verbatim>\<open>escalation.go\<close>, \<^verbatim>\<open>cluster_config_manager.go\<close> and
  \<^verbatim>\<open>escalation_controller.go\<close>: which escalations apply to a cluster, to a user's groups and to a
  target group.  \<open>ld\<close> is what \<^verbatim>\<open>config.Load()\<close> returns during the call.  The laws of the field
  index are the locale \<open>escalation_listing\<close>.
\<close>

subsection \<open>Definitions\<close>

record ClusterUserGroup =
  cug_Clustername :: string
  cug_Username :: string
  cug_GroupName :: string

definition GetAllBreakglassEscalations :: "'w client \<Rightarrow> 'w world \<Rightarrow> BreakglassEscalation list result" where
  "GetAllBreakglassEscalations cl w =
     map_error (wrap_error ''failed to get BreakglassEscalationList'') (list_escalations cl [] (api w))"

definition GetBreakglassEscalationsWithFilter ::
  "'w client \<Rightarrow> (BreakglassEscalation \<Rightarrow> bool) \<Rightarrow> 'w world \<Rightarrow> BreakglassEscalation list result" where
  "GetBreakglassEscalationsWithFilter cl flt w =
     (case list_escalations cl [] (api w) of
        Inl e \<Rightarrow> Inl (wrap_error ''failed to list BreakglassEscalation for filtered get'' e)
      | Inr items \<Rightarrow> Inr (filter flt items))"

definition GetBreakglassEscalationsWithSelector ::
  "'w client \<Rightarrow> selector \<Rightarrow> 'w world \<Rightarrow> BreakglassEscalation list result" where
  "GetBreakglassEscalationsWithSelector cl fs w =
     map_error (wrap_error ''failed to list BreakglassEscalation with selector'') (list_escalations cl fs (api w))"

text \<open>The allowed groups of an escalation after prefix stripping, and the loop over the caller's
  groups.\<close>

definition normalized_allowed :: "string list \<Rightarrow> BreakglassEscalation \<Rightarrow> string list" where
  "normalized_allowed oidcPrefixes be =
     (if oidcPrefixes \<noteq> [] then stripOIDCPrefixes (Groups (Allowed (be_spec be))) oidcPrefixes
      else Groups (Allowed (be_spec be)))"

definition group_match :: "string list \<Rightarrow> string list \<Rightarrow> BreakglassEscalation \<Rightarrow> bool" where
  "group_match oidcPrefixes groups be =
     list_ex (\<lambda>g. SlicesContains (normalized_allowed oidcPrefixes be) g) groups"

text \<open>A cluster config reference matches when it equals or contains the cluster name.\<close>

definition cluster_match :: "string \<Rightarrow> BreakglassEscalation \<Rightarrow> bool" where
  "cluster_match cluster be =
     (SlicesContains (Clusters (Allowed (be_spec be))) cluster \<or>
      list_ex (\<lambda>ref. ref = cluster \<or> StrContains ref cluster) (ClusterConfigRefs (be_spec be)))"

text \<open>Results are collected in a Go map keyed by namespace and name, whose iteration order is not
  specified; the model keeps insertion order.\<close>

fun collect_index_hits ::
  "'w client \<Rightarrow> string list \<Rightarrow> string list \<Rightarrow> (string \<times> BreakglassEscalation) list \<Rightarrow> 'w world \<Rightarrow>
   (string \<times> BreakglassEscalation) list" where
  "collect_index_hits cl oidc [] acc w = acc"
| "collect_index_hits cl oidc (g # gs) acc w =
     (let acc' = (case list_escalations cl [(''spec.allowed.group'', g)] (api w) of
                    Inl _ \<Rightarrow> acc
                  | Inr items \<Rightarrow>
                      fold (\<lambda>it m. if SlicesContains (normalized_allowed oidc it) g
                                  then map_set (Namespace (be_meta it) @ ''/'' @ Name (be_meta it)) it m else m)
                        items acc)
      in collect_index_hits cl oidc gs acc' w)"

definition GetGroupBreakglassEscalations ::
  "'w client \<Rightarrow> Config \<times> error option \<Rightarrow> string list \<Rightarrow> 'w world \<Rightarrow> BreakglassEscalation list result" where
  "GetGroupBreakglassEscalations cl ld groups w =
     (let collectedMap = collect_index_hits cl (loaded_prefixes ld) groups [] w in
      if collectedMap \<noteq> [] then Inr (map snd collectedMap)
      else GetBreakglassEscalationsWithFilter cl (group_match (loaded_prefixes ld) groups) w)"

definition GetClusterBreakglassEscalations ::
  "'w client \<Rightarrow> string \<Rightarrow> 'w world \<Rightarrow> BreakglassEscalation list result" where
  "GetClusterBreakglassEscalations cl cluster w =
     (let hits = (case list_escalations cl [(''spec.allowed.cluster'', cluster)] (api w) of
                    Inr items \<Rightarrow> filter (cluster_match cluster) items
                  | Inl _ \<Rightarrow> [])
      in if length hits > 0 then Inr hits
         else GetBreakglassEscalationsWithFilter cl (cluster_match cluster) w)"

text \<open>The common start of the two lookups below: the index hits, or every escalation when the index
  gives nothing.\<close>

definition collect_or_all :: "'w client \<Rightarrow> selector \<Rightarrow> 'w world \<Rightarrow> BreakglassEscalation list result" where
  "collect_or_all cl sel w =
     (let collected = (case list_escalations cl sel (api w) of Inr items \<Rightarrow> items | Inl _ \<Rightarrow> [])
      in if collected = [] then GetAllBreakglassEscalations cl w else Inr collected)"

definition GetClusterGroupBreakglassEscalations ::
  "'w client \<Rightarrow> Config \<times> error option \<Rightarrow> string \<Rightarrow> string list \<Rightarrow> 'w world \<Rightarrow> BreakglassEscalation list result" where
  "GetClusterGroupBreakglassEscalations cl ld cluster groups w =
     (case collect_or_all cl [(''spec.allowed.cluster'', cluster)] w of
        Inl e \<Rightarrow> Inl e
      | Inr collected \<Rightarrow>
          Inr (filter (\<lambda>be. cluster_match cluster be \<and> group_match (loaded_prefixes ld) groups be) collected))"

definition GetClusterGroupTargetBreakglassEscalation ::
  "'w client \<Rightarrow> Config \<times> error option \<Rightarrow> string \<Rightarrow> string list \<Rightarrow> string \<Rightarrow> 'w world \<Rightarrow>
   BreakglassEscalation list result" where
  "GetClusterGroupTargetBreakglassEscalation cl ld cluster userGroups targetGroup w =
     (case collect_or_all cl [(''spec.escalatedGroup'', targetGroup)] w of
        Inl e \<Rightarrow> Inl e
      | Inr collected \<Rightarrow>
          Inr (filter (\<lambda>be. EscalatedGroup (be_spec be) = targetGroup \<and> cluster_match cluster be \<and>
                            group_match (loaded_prefixes ld) userGroups be) collected))"

definition UpdateBreakglassEscalationStatus ::
  "'w client \<Rightarrow> BreakglassEscalation \<Rightarrow> 'w world \<Rightarrow> 'w world \<times> error option" where
  "UpdateBreakglassEscalationStatus cl esc w =
     (case update_escalation_status cl esc (api w) of
        (a, Some e) \<Rightarrow> (w\<lparr>api := a\<rparr>,
           Some (wrap_error (''failed to update BreakglassEscalation status '' @ Name (be_meta esc)) e))
      | (a, None) \<Rightarrow> (w\<lparr>api := a\<rparr>, None))"

definition last_applied_annotation :: string where
  "last_applied_annotation = ''kubectl.kubernetes.io/last-applied-configuration''"

definition drop_internal_meta :: "ObjectMeta \<Rightarrow> ObjectMeta" where
  "drop_internal_meta m =
     m\<lparr>ManagedFields := [], Annotations := map_delete last_applied_annotation (Annotations m)\<rparr>"

definition dropK8sInternalFieldsEscalation :: "BreakglassEscalation \<Rightarrow> BreakglassEscalation" where
  "dropK8sInternalFieldsEscalation e = e\<lparr>be_meta := drop_internal_meta (be_meta e)\<rparr>"

text \<open>The filters of \<^verbatim>\<open>escalation.go\<close>; \<open>extract\<close> is the injected group lookup.\<close>

definition FilterForUserPossibleEscalations ::
  "(ClusterUserGroup \<Rightarrow> string list result) \<Rightarrow> Config \<times> error option \<Rightarrow> ClusterUserGroup \<Rightarrow>
   BreakglassEscalation list \<Rightarrow> BreakglassEscalation list result" where
  "FilterForUserPossibleEscalations extract ld cug escalations =
     (case extract cug of
        Inl e \<Rightarrow> Inl (wrap_error ''failed to get user groups'' e)
      | Inr userGroups0 \<Rightarrow>
          let oidc = loaded_prefixes ld;
              userGroups = (if oidc \<noteq> [] then stripOIDCPrefixes userGroups0 oidc else userGroups0)
          in Inr (filter (\<lambda>esc. SlicesContains (Clusters (Allowed (be_spec esc))) (cug_Clustername cug) \<and>
                                intersects userGroups (normalized_allowed oidc esc)) escalations))"

definition session_approvable ::
  "string list \<Rightarrow> ClusterUserGroup \<Rightarrow> BreakglassEscalation list \<Rightarrow> BreakglassSession \<Rightarrow> bool" where
  "session_approvable userGroups cug escalations ses =
     list_ex (\<lambda>esc. GrantedGroup (bs_spec ses) = EscalatedGroup (be_spec esc) \<and>
        SlicesContains (Clusters (Allowed (be_spec esc))) (Cluster (bs_spec ses)) \<and>
        (SlicesContains (ApproverUsers (EscApprovers (be_spec esc))) (cug_Username cug) \<or>
         intersects userGroups (ApproverGroups (EscApprovers (be_spec esc))))) escalations"

definition FilterSessionsForUserApprovable ::
  "(ClusterUserGroup \<Rightarrow> string list result) \<Rightarrow> ClusterUserGroup \<Rightarrow> BreakglassSession list \<Rightarrow>
   BreakglassEscalation list \<Rightarrow> BreakglassSession list result" where
  "FilterSessionsForUserApprovable extract cug sessions escalations =
     (case extract cug of
        Inl e \<Rightarrow> Inl (wrap_error ''failed to get user rbac cluster groups'' e)
      | Inr userGroups \<Rightarrow> Inr (filter (session_approvable userGroups cug escalations) sessions))"

subsection \<open>Cluster configurations\<close>

definition GetClusterConfigByName :: "'w client \<Rightarrow> string \<Rightarrow> 'w world \<Rightarrow> ClusterConfig result" where
  "GetClusterConfigByName cl name w =
     (let named = List.find (\<lambda>c. Name (cc_meta c) = name);
          indexed = (case list_clusterconfigs cl [(''metadata.name'', name)] (api w) of
                       Inr items \<Rightarrow> named items | Inl _ \<Rightarrow> None)
      in case indexed of
           Some c \<Rightarrow> Inr c
         | None \<Rightarrow>
             (case list_clusterconfigs cl [] (api w) of
                Inl e \<Rightarrow> Inl (wrap_error ''failed to list ClusterConfig resources'' e)
              | Inr items \<Rightarrow>
                  (case named items of
                     Some c \<Rightarrow> Inr c
                   | None \<Rightarrow> Inl (Err (''failed to get ClusterConfig by name '' @ Quote name @ '': not found'')))))"

definition GetClusterConfigInNamespace :: "'w client \<Rightarrow> string \<Rightarrow> string \<Rightarrow> 'w world \<Rightarrow> ClusterConfig result" where
  "GetClusterConfigInNamespace cl ns name w = get_clusterconfig cl (ns, name) (api w)"

subsection \<open>Group and cluster matching\<close>

lemma group_match_Nil [simp]: "\<not> group_match oidc [] be"
  by (simp add: group_match_def)

lemma group_match_iff:
  "group_match oidc groups be \<longleftrightarrow> set groups \<inter> set (normalized_allowed oidc be) \<noteq> {}"
  by (auto simp: group_match_def list_ex_iff)

text \<open>Listing an allowed cluster or referring to its config by the exact name.\<close>

definition names_cluster :: "string \<Rightarrow> BreakglassEscalation \<Rightarrow> bool" where
  "names_cluster cluster be =
     (cluster \<in> set (Clusters (Allowed (be_spec be))) \<union> set (ClusterConfigRefs (be_spec be)))"

lemma index_cluster:
  "index_matches escalation_index [(''spec.allowed.cluster'', c)] be \<longleftrightarrow> names_cluster c be"
  by (auto simp: index_matches_def escalation_index_def names_cluster_def)

lemma index_group:
  "index_matches escalation_index [(''spec.allowed.group'', g)] be \<longleftrightarrow> g \<in> set (Groups (Allowed (be_spec be)))"
  by (auto simp: index_matches_def escalation_index_def)

lemma index_escalated:
  "index_matches escalation_index [(''spec.escalatedGroup'', g)] be \<longleftrightarrow>
   EscalatedGroup (be_spec be) = g \<and> g \<noteq> []"
  by (auto simp: index_matches_def escalation_index_def)

lemma names_cluster_match: "names_cluster c be \<Longrightarrow> cluster_match c be"
  by (auto simp: names_cluster_def cluster_match_def list_ex_iff)

lemma cluster_match_iff:
  "cluster_match c be \<longleftrightarrow> c \<in> set (Clusters (Allowed (be_spec be))) \<or>
     (\<exists>ref \<in> set (ClusterConfigRefs (be_spec be)). StrContains ref c)"
  by (auto simp: cluster_match_def list_ex_iff)

subsection \<open>What the lookups return\<close>

lemma fold_map_set_source:
  "(k, x) \<in> set (fold (\<lambda>it m. if P it then map_set (f it) it m else m) items acc) \<Longrightarrow>
   (k, x) \<in> set acc \<or> (x \<in> set items \<and> P x)"
  by (induction items arbitrary: acc) (auto split: if_splits dest: set_map_set [THEN subsetD])

locale escalation_listing = kube_listing "list_escalations cl" stored escalation_index
  for cl :: "'w client" and stored :: "'w \<Rightarrow> BreakglassEscalation list" +
  assumes list_plain: "\<exists>xs. list_escalations cl [] w = Inr xs"
begin

lemma list_plain_Inr: "list_escalations cl [] w = Inr (stored w)"
  using list_plain lst_all by metis

lemma with_filter: "GetBreakglassEscalationsWithFilter cl P w = Inr (filter P (stored (api w)))"
  by (simp add: GetBreakglassEscalationsWithFilter_def list_plain_Inr)

text \<open>When the index knows the cluster, only the escalations naming it exactly are returned;
  otherwise every escalation whose reference merely contains the name is.\<close>

lemma cluster_lookup:
  assumes "list_escalations cl [(''spec.allowed.cluster'', c)] (api w) = Inr items"
  shows "GetClusterBreakglassEscalations cl c w =
    Inr (filter (if list_ex (names_cluster c) (stored (api w)) then names_cluster c else cluster_match c)
           (stored (api w)))"
proof -
  have "items = filter (names_cluster c) (stored (api w))"
    using lst_Inr [OF assms] by (simp add: index_cluster cong: filter_cong)
  then have hits: "filter (cluster_match c) items = filter (names_cluster c) (stored (api w))"
    by (auto simp: names_cluster_match intro!: filter_cong)
  then show ?thesis
    using assms by (auto simp: GetClusterBreakglassEscalations_def Let_def with_filter list_ex_iff filter_empty_conv)
qed

lemma cluster_lookup_no_index:
  assumes "list_escalations cl [(''spec.allowed.cluster'', c)] (api w) = Inl e"
  shows "GetClusterBreakglassEscalations cl c w = Inr (filter (cluster_match c) (stored (api w)))"
  using assms by (simp add: GetClusterBreakglassEscalations_def Let_def with_filter)

lemma cluster_lookup_sound:
  assumes "GetClusterBreakglassEscalations cl c w = Inr out"
  shows "set out \<subseteq> {be \<in> set (stored (api w)). cluster_match c be}"
proof (cases "list_escalations cl [(''spec.allowed.cluster'', c)] (api w)")
  case (Inl e)
  with assms cluster_lookup_no_index show ?thesis by auto
next
  case (Inr items)
  with assms cluster_lookup show ?thesis by (auto simp: names_cluster_match split: if_splits)
qed

lemma collect_or_all_subset:
  assumes "collect_or_all cl sel w = Inr xs" shows "set xs \<subseteq> set (stored (api w))"
proof (cases "list_escalations cl sel (api w)")
  case (Inr items)
  with assms lst_subset [OF Inr] show ?thesis
    by (auto simp: collect_or_all_def GetAllBreakglassEscalations_def list_plain_Inr split: if_splits)
qed (use assms in \<open>auto simp: collect_or_all_def GetAllBreakglassEscalations_def list_plain_Inr\<close>)

lemma cluster_group_sound:
  assumes "GetClusterGroupBreakglassEscalations cl ld c gs w = Inr out" "be \<in> set out"
  shows "be \<in> set (stored (api w)) \<and> cluster_match c be \<and> group_match (loaded_prefixes ld) gs be"
  using assms
  by (auto simp: GetClusterGroupBreakglassEscalations_def split: sum.splits
      dest!: collect_or_all_subset [THEN subsetD])

lemma target_sound:
  assumes "GetClusterGroupTargetBreakglassEscalation cl ld c gs tg w = Inr out" "be \<in> set out"
  shows "be \<in> set (stored (api w)) \<and> EscalatedGroup (be_spec be) = tg \<and> cluster_match c be \<and>
         group_match (loaded_prefixes ld) gs be"
  using assms
  by (auto simp: GetClusterGroupTargetBreakglassEscalation_def split: sum.splits
      dest!: collect_or_all_subset [THEN subsetD])

text \<open>The target lookup is complete: the index on the escalated group loses nothing.\<close>

lemma target_complete:
  assumes "list_escalations cl [(''spec.escalatedGroup'', tg)] (api w) = Inr items"
  shows "GetClusterGroupTargetBreakglassEscalation cl ld c gs tg w =
    Inr (filter (\<lambda>be. EscalatedGroup (be_spec be) = tg \<and> cluster_match c be \<and>
                     group_match (loaded_prefixes ld) gs be) (stored (api w)))"
proof (cases "items = []")
  case True
  with assms show ?thesis
    by (simp add: GetClusterGroupTargetBreakglassEscalation_def collect_or_all_def
        GetAllBreakglassEscalations_def list_plain_Inr)
next
  case False
  have "items = filter (\<lambda>be. EscalatedGroup (be_spec be) = tg \<and> tg \<noteq> []) (stored (api w))"
    using lst_Inr [OF assms] by (simp add: index_escalated cong: filter_cong)
  with False assms show ?thesis
    by (auto simp: GetClusterGroupTargetBreakglassEscalation_def collect_or_all_def filter_empty_conv
        intro!: filter_cong)
qed

lemma collect_index_hits_sound:
  "(k, be) \<in> set (collect_index_hits cl oidc gs acc w) \<Longrightarrow>
   (k, be) \<in> set acc \<or> (be \<in> set (stored (api w)) \<and> group_match oidc gs be)"
proof (induction gs arbitrary: acc)
  case (Cons g gs)
  define acc' where "acc' = (case list_escalations cl [(''spec.allowed.group'', g)] (api w) of
      Inl _ \<Rightarrow> acc
    | Inr items \<Rightarrow> fold (\<lambda>it m. if SlicesContains (normalized_allowed oidc it) g
        then map_set (Namespace (be_meta it) @ ''/'' @ Name (be_meta it)) it m else m) items acc)"
  have "(k, be) \<in> set (collect_index_hits cl oidc gs acc' w)"
    using Cons.prems by (simp add: acc'_def)
  then consider "(k, be) \<in> set acc'" | "be \<in> set (stored (api w)) \<and> group_match oidc gs be"
    using Cons.IH by blast
  then show ?case
  proof cases
    case 1
    show ?thesis
    proof (cases "list_escalations cl [(''spec.allowed.group'', g)] (api w)")
      case (Inr items)
      with 1 have "(k, be) \<in> set acc \<or> (be \<in> set items \<and> SlicesContains (normalized_allowed oidc be) g)"
        by (auto simp: acc'_def dest!: fold_map_set_source)
      with lst_subset [OF Inr] show ?thesis by (auto simp: group_match_def)
    qed (use 1 in \<open>auto simp: acc'_def\<close>)
  next
    case 2
    then show ?thesis by (auto simp: group_match_def)
  qed
qed simp

lemma group_lookup_sound:
  assumes "GetGroupBreakglassEscalations cl ld gs w = Inr out" "be \<in> set out"
  shows "be \<in> set (stored (api w)) \<and> group_match (loaded_prefixes ld) gs be"
  using assms
  by (auto simp: GetGroupBreakglassEscalations_def Let_def with_filter split: if_splits
      dest!: collect_index_hits_sound)

end

interpretation mem_escalations: escalation_listing mem_client m_escalations
proof (rule escalation_listing.intro)
  show "kube_listing (list_escalations mem_client) m_escalations escalation_index"
    using mem_list_listing by (simp add: mem_client_def)
  show "escalation_listing_axioms mem_client"
    by unfold_locales (simp add: mem_client_def mem_list_def)
qed

subsection \<open>Properties\<close>

text \<open>C27. The escalations of a cluster: with a working index, if some stored escalation names the cluster
  exactly, exactly those naming it are returned; otherwise every escalation is returned that lists the
  cluster or has a cluster config reference merely containing the cluster's name.\<close>

theorem cluster_escalations_correct:
  assumes "escalation_listing cl stored"
    and "list_escalations cl [(''spec.allowed.cluster'', c)] (api w) = Inr items"
  shows "GetClusterBreakglassEscalations cl c w =
    Inr (filter (if list_ex (names_cluster c) (stored (api w)) then names_cluster c else cluster_match c) (stored (api w)))"
  using escalation_listing.cluster_lookup [OF assms] .

definition ref_escalation :: "string \<Rightarrow> string list \<Rightarrow> BreakglassEscalation" where
  "ref_escalation n refs = \<lparr>be_meta = zero_meta\<lparr>Name := n\<rparr>,
     be_spec = \<lparr>Allowed = \<lparr>Clusters = [], Groups = []\<rparr>, EscApprovers = \<lparr>ApproverUsers = [], ApproverGroups = []\<rparr>,
       EscalatedGroup = ''g'', EscMaxValidFor = [], EscRetainFor = [], EscIdleTimeout = [], ClusterConfigRefs = refs,
       EscDenyPolicyRefs = [], EscRequestReason = None, EscApprovalReason = None, EscAllowedApproverDomains = [],
       EscBlockSelfApproval = None\<rparr>,
     be_status = \<lparr>ApproverGroupMembers = [], RequestCount = 0, ApprovalCount = 0, GroupResolutionStatus = []\<rparr>\<rparr>"

definition ref_world :: "BreakglassEscalation list \<Rightarrow> mem_api world" where
  "ref_world es = \<lparr>api = \<lparr>m_sessions = [], m_escalations = es, m_clusterconfigs = [], m_denypolicies = [],
     m_selectable = [''spec.allowed.cluster'', ''spec.escalatedGroup''], m_next = 0\<rparr>, counters = [], outbox = []\<rparr>"

theorem cluster_escalations_correct_witness:
  "GetClusterBreakglassEscalations mem_client ''prod'' (ref_world [ref_escalation ''e'' [''prod-2'']]) =
     Inr [ref_escalation ''e'' [''prod-2'']]"
proof -
  let ?w = "ref_world [ref_escalation ''e'' [''prod-2'']]"
  have l: "list_escalations mem_client [(''spec.allowed.cluster'', ''prod'')] (api ?w) = Inr []" by code_simp
  have n: "\<not> names_cluster ''prod'' (ref_escalation ''e'' [''prod-2''])"
    and m: "cluster_match ''prod'' (ref_escalation ''e'' [''prod-2''])" by code_simp+
  show ?thesis
    using cluster_escalations_correct [OF mem_escalations.escalation_listing_axioms l] n m
    by (simp add: ref_world_def)
qed

text \<open>The target lookup returns exactly the stored escalations to the target group that match the cluster
  and one of the user's groups, whether or not the index finds any.\<close>

theorem target_escalations_correct:
  assumes "escalation_listing cl stored"
    and "list_escalations cl [(''spec.escalatedGroup'', tg)] (api w) = Inr items"
  shows "GetClusterGroupTargetBreakglassEscalation cl ld c gs tg w =
    Inr (filter (\<lambda>be. EscalatedGroup (be_spec be) = tg \<and> cluster_match c be \<and>
                     set gs \<inter> set (normalized_allowed (loaded_prefixes ld) be) \<noteq> {}) (stored (api w)))"
  using escalation_listing.target_complete [OF assms, of ld c gs] by (simp add: group_match_iff)

theorem target_escalations_correct_witness:
  "GetClusterGroupTargetBreakglassEscalation mem_client (zero_Config, None) ''prod'' [] ''g''
     (ref_world [ref_escalation ''e'' [''prod'']]) = Inr []"
proof -
  have l: "list_escalations mem_client [(''spec.escalatedGroup'', ''g'')] (api (ref_world [ref_escalation ''e'' [''prod'']])) =
      Inr [ref_escalation ''e'' [''prod'']]" by code_simp
  show ?thesis
    using target_escalations_correct [OF mem_escalations.escalation_listing_axioms l] by simp
qed

end
