(* ===== verification/SessionState.thy ===== *)
theory SessionState
  imports SessionManager EscalationManager
begin

text \<open>
  The time predicates on sessions (\<^verbatim>\<open>session_controller.go\<close>, \<^verbatim>\<open>session_approval_timeout.go\<close>), the
  identity that the authentication middleware leaves in the request context
  (\<^verbatim>\<open>identity_provider.go\<close>), and the controller's dependencies.  A handler reads the clock several
  times within one call; the model gives it one reading \<open>now\<close>.
\<close>

subsection \<open>Durations\<close>

definition MonthDuration :: duration where
  "MonthDuration = Hour * 24 * 30"

definition WeekDuration :: duration where
  "WeekDuration = Hour * 24 * 7"

definition DefaultValidForDuration :: duration where
  "DefaultValidForDuration = Hour"

definition DefaultRetainForDuration :: duration where
  "DefaultRetainForDuration = MonthDuration"

text \<open>The optional duration fields of a session: the parsed value when it is positive, the default
  for an empty, malformed or non-positive one.\<close>

definition duration_or_default :: "string \<Rightarrow> duration \<Rightarrow> duration" where
  "duration_or_default s dflt =
     (if s \<noteq> [] then
        (case ParseDuration s of
           Some d \<Rightarrow> if d > 0 then d else dflt
         | None \<Rightarrow> dflt)
      else dflt)"

subsection \<open>Predicates\<close>

definition IsSessionPendingApproval :: "BreakglassSession \<Rightarrow> bool" where
  "IsSessionPendingApproval s = (IsZero (ApprovedAt (bs_status s)) \<and> IsZero (RejectedAt (bs_status s)))"

definition IsSessionRetained :: "instant \<Rightarrow> BreakglassSession \<Rightarrow> bool" where
  "IsSessionRetained now s = After now (RetainedUntil (bs_status s))"

definition IsSessionExpired :: "instant \<Rightarrow> BreakglassSession \<Rightarrow> bool" where
  "IsSessionExpired now s = (\<not> IsZero (ExpiresAt (bs_status s)) \<and> After now (ExpiresAt (bs_status s)))"

definition IsSessionValid :: "instant \<Rightarrow> BreakglassSession \<Rightarrow> bool" where
  "IsSessionValid now s = (\<not> IsSessionExpired now s)"

definition IsSessionActive :: "instant \<Rightarrow> BreakglassSession \<Rightarrow> bool" where
  "IsSessionActive now s = (IsSessionValid now s \<and> IsZero (RejectedAt (bs_status s)))"

definition IsSessionApprovalTimedOut :: "instant \<Rightarrow> BreakglassSession \<Rightarrow> bool" where
  "IsSessionApprovalTimedOut now s =
     (IsSessionPendingApproval s \<and> \<not> IsZero (TimeoutAt (bs_status s)) \<and> After now (TimeoutAt (bs_status s)))"

lemmas session_predicate_defs =
  IsSessionPendingApproval_def IsSessionRetained_def IsSessionExpired_def IsSessionValid_def
  IsSessionActive_def IsSessionApprovalTimedOut_def

definition dropK8sInternalFieldsSession :: "BreakglassSession \<Rightarrow> BreakglassSession" where
  "dropK8sInternalFieldsSession s = s\<lparr>bs_meta := drop_internal_meta (bs_meta s)\<rparr>"

definition dropK8sInternalFieldsSessionList :: "BreakglassSession list \<Rightarrow> BreakglassSession list" where
  "dropK8sInternalFieldsSessionList xs = map dropK8sInternalFieldsSession xs"

subsection \<open>The caller\<close>

text \<open>What \<^verbatim>\<open>c.Get\<close> finds in the gin context; \<open>None\<close> for a missing group list.\<close>

record request_context =
  ctx_email :: string
  ctx_username :: string
  ctx_user_id :: string
  ctx_groups :: "string list option"

definition GetEmail :: "request_context \<Rightarrow> string result" where
  "GetEmail c = (if ctx_email c = [] then Inl (Err ''keycloak provider failed to retrieve email identity'')
                 else Inr (ctx_email c))"

definition GetUsername :: "request_context \<Rightarrow> string" where
  "GetUsername c = ctx_username c"

definition GetIdentity :: "request_context \<Rightarrow> string" where
  "GetIdentity c = ctx_user_id c"

subsection \<open>The controller's dependencies\<close>

record RequestBreakglassSessionMailParams =
  SubjectEmail :: string
  SubjectFullName :: string
  RequestedCluster :: string
  RequestedUsername :: string
  RequestedGroup :: string
  MailURL :: string
  MailBrandingName :: string

text \<open>The managers share one client.  \<open>wc_load\<close> is the outcome of \<^verbatim>\<open>config.Load()\<close> during the call,
  \<open>wc_render\<close> the HTML template, \<open>wc_dial\<close> the SMTP dialer, \<open>wc_disable_email\<close> the value of the
  environment variable \<^verbatim>\<open>BREAKGLASS_DISABLE_EMAIL\<close>.\<close>

record 'w BreakglassSessionController =
  wc_client :: "'w client"
  wc_config :: Config
  wc_load :: "Config \<times> error option"
  wc_getUserGroupsFn :: "ClusterUserGroup \<Rightarrow> string list result"
  wc_render :: "RequestBreakglassSessionMailParams \<Rightarrow> string result"
  wc_dial :: "mail_message \<Rightarrow> error option"
  wc_disable_email :: string

subsection \<open>Facts\<close>

lemma Hour_pos [simp]: "0 < Hour"
  by (simp add: Hour_def Minute_def Second_def Millisecond_def Microsecond_def)

lemma DefaultDurations_pos [simp]: "0 < DefaultValidForDuration" "0 < DefaultRetainForDuration"
  by (simp_all add: DefaultValidForDuration_def DefaultRetainForDuration_def MonthDuration_def)

lemma duration_or_default_pos [simp]: "0 < dflt \<Longrightarrow> 0 < duration_or_default s dflt"
  by (simp add: duration_or_default_def split: option.splits)

lemma duration_or_default_int64:
  "dflt < 2 ^ 63 \<Longrightarrow> duration_or_default s dflt < 2 ^ 63"
  using ParseDuration_int64 [of s] by (auto simp: duration_or_default_def split: option.splits)

lemma GetEmail_Inr [simp]: "GetEmail c = Inr e \<longleftrightarrow> e = ctx_email c \<and> e \<noteq> []"
  by (auto simp: GetEmail_def)

lemma GetEmail_cases: "GetEmail c = Inr (ctx_email c) \<or> (ctx_email c = [] \<and> (\<exists>e. GetEmail c = Inl e))"
  by (auto simp: GetEmail_def)

lemma timed_out_pending: "IsSessionApprovalTimedOut now s \<Longrightarrow> IsSessionPendingApproval s"
  by (simp add: IsSessionApprovalTimedOut_def)

lemma drop_internal_idem: "dropK8sInternalFieldsSession (dropK8sInternalFieldsSession s) = dropK8sInternalFieldsSession s"
  by (simp add: dropK8sInternalFieldsSession_def drop_internal_meta_def map_delete_def)

lemma drop_internal_fields [simp]:
  "bs_spec (dropK8sInternalFieldsSession s) = bs_spec s"
  "bs_status (dropK8sInternalFieldsSession s) = bs_status s"
  "session_key (dropK8sInternalFieldsSession s) = session_key s"
  by (simp_all add: dropK8sInternalFieldsSession_def drop_internal_meta_def session_key_def)

end
