(* ===== verification/ExampleData.thy ===== *)
theory ExampleData
  imports SessionState
begin

text \<open>
  A small concrete installation on the in-memory API server: one escalation on cluster
  \<^verbatim>\<open>prod\<close>, a pending session of a developer, an approver, and a controller whose mail goes
  nowhere.  The witnesses of the theorems with hypotheses are evaluated on it.
\<close>

definition ex_now :: instant where
  "ex_now = 63900000000 * Second"

definition ex_escalation :: BreakglassEscalation where
  "ex_escalation = \<lparr>
     be_meta = zero_meta\<lparr>Name := ''prod-admin'', Namespace := ''bg'', UID := ''u1'', ResourceVersion := 1\<rparr>,
     be_spec = \<lparr>Allowed = \<lparr>Clusters = [''prod''], Groups = [''dev'']\<rparr>,
       EscApprovers = \<lparr>ApproverUsers = [''lead@ex.org'', ''dev@ex.org''], ApproverGroups = [''sre'']\<rparr>,
       EscalatedGroup = ''admin'', EscMaxValidFor = ''2h'', EscRetainFor = [], EscIdleTimeout = [],
       ClusterConfigRefs = [], EscDenyPolicyRefs = [], EscRequestReason = None, EscApprovalReason = None,
       EscAllowedApproverDomains = [''ex.org''], EscBlockSelfApproval = Some True\<rparr>,
     be_status = \<lparr>ApproverGroupMembers = [], RequestCount = 0, ApprovalCount = 0, GroupResolutionStatus = []\<rparr>\<rparr>"

definition ex_pending :: BreakglassSession where
  "ex_pending = \<lparr>
     bs_meta = zero_meta\<lparr>Name := ''s1'', Namespace := ''bg'', ResourceVersion := 3\<rparr>,
     bs_spec = zero_spec\<lparr>Cluster := ''prod'', User := ''dev@ex.org'', GrantedGroup := ''admin'', MaxValidFor := ''2h''\<rparr>,
     bs_status = zero_status\<lparr>State := SessionStatePending, TimeoutAt := ex_now + Hour,
       RetainedUntil := ex_now + MonthDuration\<rparr>,
     bs_OwnerReferences = [\<lparr>or_APIVersion = GroupVersion, or_Kind = ''BreakglassEscalation'',
       or_Name = ''prod-admin'', or_UID = ''u1'', or_Controller = Some True\<rparr>]\<rparr>"

definition ex_approved :: BreakglassSession where
  "ex_approved = ex_pending\<lparr>bs_status := zero_status\<lparr>State := SessionStateApproved, ApprovedAt := ex_now - Hour,
     ExpiresAt := ex_now + Hour, RetainedUntil := ex_now + MonthDuration\<rparr>\<rparr>"

definition ex_fields :: "string list" where
  "ex_fields = [''metadata.name'', ''spec.cluster'', ''spec.user'', ''spec.grantedGroup'',
     ''spec.allowed.cluster'', ''spec.allowed.group'', ''spec.escalatedGroup'', ''spec.clusterID'']"

definition ex_api :: "BreakglassSession list \<Rightarrow> DenyPolicy list \<Rightarrow> mem_api" where
  "ex_api ss ps = \<lparr>m_sessions = ss, m_escalations = [ex_escalation], m_clusterconfigs = [],
     m_denypolicies = ps, m_selectable = ex_fields, m_next = 10\<rparr>"

definition ex_world :: "BreakglassSession list \<Rightarrow> mem_api world" where
  "ex_world ss = \<lparr>api = ex_api ss [], counters = [], outbox = []\<rparr>"

definition ex_wc :: "mem_api BreakglassSessionController" where
  "ex_wc = \<lparr>wc_client = mem_client, wc_config = zero_Config,
     wc_load = (zero_Config, Some (Err ''no config'')),
     wc_getUserGroupsFn = (\<lambda>cug. Inr [''dev'']), wc_render = (\<lambda>p. Inr ''mail''), wc_dial = (\<lambda>m. None),
     wc_disable_email = ''1''\<rparr>"

definition ex_lead :: request_context where
  "ex_lead = \<lparr>ctx_email = ''lead@ex.org'', ctx_username = ''lead'', ctx_user_id = ''2'', ctx_groups = Some []\<rparr>"

definition ex_dev :: request_context where
  "ex_dev = \<lparr>ctx_email = ''dev@ex.org'', ctx_username = ''dev'', ctx_user_id = ''1'', ctx_groups = Some [''dev'']\<rparr>"

lemma ex_api_wf: "mem_wf (api (ex_world [ex_pending]))" "mem_wf (api (ex_world [ex_approved]))" "mem_wf (api (ex_world []))"
  by code_simp+

end
