(* ===== verification/GlobMatch.thy ===== *)
theory GlobMatch
  imports Prelude
begin

text \<open>
  Go's \<^verbatim>\<open>filepath.Match\<close> on Unix, which the deny policies use for namespace and name patterns.
  The algorithm is the library's: the pattern is cut into chunks that follow a run of stars, a
  chunk is matched at the leftmost position a star allows, and a star never crosses a slash.
  The malformed-pattern error counts as no match, which is how the caller reads it.
\<close>

definition bslash :: char where "bslash = CHR 0x5C"

fun scan_split :: "bool \<Rightarrow> string \<Rightarrow> string \<times> string" where
  "scan_split inrange [] = ([], [])"
| "scan_split inrange [c] = (if c = CHR ''*'' \<and> \<not> inrange then ([], [c]) else ([c], []))"
| "scan_split inrange (c # d # cs) =
     (if c = bslash then (case scan_split inrange cs of (a, b) \<Rightarrow> (c # d # a, b))
      else if c = CHR ''*'' \<and> \<not> inrange then ([], c # d # cs)
      else case scan_split (if c = CHR ''['' then True else if c = CHR '']'' then False else inrange)
                  (d # cs) of (a, b) \<Rightarrow> (c # a, b))"

definition scanChunk :: "string \<Rightarrow> bool \<times> string \<times> string" where
  "scanChunk pattern =
     (let star = (pattern \<noteq> [] \<and> hd pattern = CHR ''*'') in
      (star, scan_split False (dropWhile (\<lambda>c. c = CHR ''*'') pattern)))"

text \<open>A possibly escaped character of a class and the rest of the chunk; \<open>None\<close> is \<^verbatim>\<open>ErrBadPattern\<close>.\<close>

definition getEsc :: "string \<Rightarrow> (char \<times> string) option" where
  "getEsc chunk =
     (if chunk = [] \<or> hd chunk = CHR ''-'' \<or> hd chunk = CHR '']'' then None else
      let chunk' = (if hd chunk = bslash then tl chunk else chunk) in
      if chunk' = [] then None else if tl chunk' = [] then None else Some (hd chunk', tl chunk'))"

lemma getEsc_shorter: "getEsc s = Some (c, t) \<Longrightarrow> length t < length s"
  by (cases s) (auto simp: getEsc_def Let_def split: if_splits)

definition in_range :: "char \<Rightarrow> char \<Rightarrow> char \<Rightarrow> bool" where
  "in_range lo r hi = ((of_char lo :: int) \<le> of_char r \<and> (of_char r :: int) \<le> of_char hi)"

text \<open>The ranges of a class up to its closing bracket: did one contain \<open>r\<close>, and what follows.\<close>

function class_ranges :: "char \<Rightarrow> bool \<Rightarrow> bool \<Rightarrow> string \<Rightarrow> (bool \<times> string) option" where
  "class_ranges r nonempty matched chunk =
     (if chunk \<noteq> [] \<and> hd chunk = CHR '']'' \<and> nonempty then Some (matched, tl chunk) else
      case getEsc chunk of None \<Rightarrow> None | Some (lo, ch1) \<Rightarrow>
      if hd ch1 = CHR ''-''
      then (case getEsc (tl ch1) of None \<Rightarrow> None
            | Some (hi, ch2) \<Rightarrow> class_ranges r True (matched \<or> in_range lo r hi) ch2)
      else class_ranges r True (matched \<or> in_range lo r lo) ch1)"
  by pat_completeness auto
termination
  by (relation "measure (\<lambda>(r, n, m, chunk). length chunk)")
    (auto dest!: getEsc_shorter)

declare class_ranges.simps [simp del]

lemma class_ranges_shorter: "class_ranges r n m s = Some (b, t) \<Longrightarrow> length t < length s"
proof (induction r n m s rule: class_ranges.induct)
  case (1 r n m s)
  show ?case
  proof (cases "s \<noteq> [] \<and> hd s = CHR '']'' \<and> n")
    case True
    then have "class_ranges r n m s = Some (m, tl s)" by (subst class_ranges.simps) simp
    with "1.prems" True show ?thesis by simp
  next
    case False
    with "1.prems" obtain lo ch1 where e: "getEsc s = Some (lo, ch1)"
      by (auto simp: class_ranges.simps [of r n m s] split: option.splits)
    have "length t < length ch1"
    proof (cases "hd ch1 = CHR ''-''")
      case True
      with "1.prems" False e obtain hi ch2 where e2: "getEsc (tl ch1) = Some (hi, ch2)"
        and rec: "class_ranges r True (m \<or> in_range lo r hi) ch2 = Some (b, t)"
        by (auto simp: class_ranges.simps [of r n m s] split: option.splits)
      have "length t < length ch2" by (rule "1.IH"(1) [OF False e refl True e2 refl rec])
      also have "length ch2 < length ch1" using getEsc_shorter [OF e2] by simp
      finally show ?thesis .
    next
      case dash: False
      with "1.prems" False e have "class_ranges r True (m \<or> in_range lo r lo) ch1 = Some (b, t)"
        by (auto simp: class_ranges.simps [of r n m s])
      then show ?thesis by (rule "1.IH"(2) [OF False e refl dash])
    qed
    with getEsc_shorter [OF e] show ?thesis by simp
  qed
qed

text \<open>
  \<^verbatim>\<open>matchChunk\<close>: the second argument is the unread name, \<open>None\<close> once the match has failed (the
  chunk is still parsed to its end).  The result is \<open>None\<close> for a malformed chunk.
\<close>

definition literal_step :: "char \<Rightarrow> string option \<Rightarrow> string option" where
  "literal_step c st = (case st of None \<Rightarrow> None | Some s \<Rightarrow> if s \<noteq> [] \<and> hd s = c then Some (tl s) else None)"

definition class_step :: "bool \<Rightarrow> bool \<Rightarrow> string option \<Rightarrow> string option" where
  "class_step negated matched st =
     (case st of None \<Rightarrow> None | Some s \<Rightarrow> if s = [] \<or> matched = negated then None else Some (tl s))"

function matchChunk :: "string \<Rightarrow> string option \<Rightarrow> string option option" where
  "matchChunk [] st = Some st"
| "matchChunk (c # chunk) st0 =
     (let st = (if st0 = Some [] then None else st0) in
      if c = CHR ''['' then
        (let r = (case st of Some s \<Rightarrow> hd s | None \<Rightarrow> CHR 0x00);
             negated = (chunk \<noteq> [] \<and> hd chunk = CHR ''^'');
             body = (if negated then tl chunk else chunk)
         in case class_ranges r False False body of
              None \<Rightarrow> None
            | Some (matched, rest) \<Rightarrow> matchChunk rest (class_step negated matched st))
      else if c = CHR ''?'' then
        matchChunk chunk (case st of None \<Rightarrow> None | Some s \<Rightarrow> if hd s = CHR ''/'' then None else Some (tl s))
      else if c = bslash then
        (case chunk of [] \<Rightarrow> None | d # chunk' \<Rightarrow> matchChunk chunk' (literal_step d st))
      else matchChunk chunk (literal_step c st))"
  by pat_completeness auto
termination
  by (relation "measure (\<lambda>(chunk, st). length chunk)")
    (auto dest!: class_ranges_shorter intro: less_trans split: if_splits)

text \<open>Skip one more byte of the name under a star, never a slash.\<close>

fun star_search :: "string \<Rightarrow> bool \<Rightarrow> string \<Rightarrow> string option" where
  "star_search chunk lastChunk [] = None"
| "star_search chunk lastChunk (c # name) =
     (if c = CHR ''/'' then None else
      case matchChunk chunk (Some name) of
        None \<Rightarrow> None
      | Some None \<Rightarrow> star_search chunk lastChunk name
      | Some (Some t) \<Rightarrow> if lastChunk \<and> t \<noteq> [] then star_search chunk lastChunk name else Some t)"

lemma scan_split_append: "scan_split b s = (x, y) \<Longrightarrow> s = x @ y"
  by (induction b s arbitrary: x y rule: scan_split.induct) (auto split: prod.splits if_splits)

lemma scan_split_nonempty: "s \<noteq> [] \<Longrightarrow> hd s \<noteq> CHR ''*'' \<Longrightarrow> fst (scan_split b s) \<noteq> []"
  by (induction b s rule: scan_split.induct) (auto split: prod.splits)

lemma scanChunk_shorter:
  assumes "pattern \<noteq> []" and "scanChunk pattern = (star, chunk, rest)"
  shows "length rest < length pattern"
proof -
  let ?d = "dropWhile (\<lambda>c. c = CHR ''*'') pattern"
  from assms(2) have star: "star = (hd pattern = CHR ''*'')" and d: "scan_split False ?d = (chunk, rest)"
    using assms(1) by (auto simp: scanChunk_def Let_def)
  have len: "length ?d \<le> length pattern" by (rule length_dropWhile_le)
  show ?thesis
  proof (cases star)
    case True
    then have "length ?d < length pattern"
      using star assms(1) by (cases pattern) (auto intro: le_imp_less_Suc length_dropWhile_le)
    with scan_split_append [OF d] show ?thesis by simp
  next
    case False
    then have "?d = pattern" using star assms(1) by (cases pattern) auto
    with scan_split_nonempty [of ?d False] d False star assms(1) have "chunk \<noteq> []" by auto
    with scan_split_append [OF d] len show ?thesis by (cases chunk) auto
  qed
qed

lemma scanChunk_shorter':
  "(star, chunk, rest) = scanChunk pattern \<Longrightarrow> pattern \<noteq> [] \<Longrightarrow> length rest < length pattern"
  using scanChunk_shorter [of pattern star chunk rest] by simp

function Match :: "string \<Rightarrow> string \<Rightarrow> bool" where
  "Match pattern name =
     (if pattern = [] then name = [] else
      case scanChunk pattern of (star, chunk, rest) \<Rightarrow>
      if star \<and> chunk = [] then \<not> List.member name (CHR ''/'') else
      case matchChunk chunk (Some name) of
        None \<Rightarrow> False
      | Some st \<Rightarrow>
          (case (case st of Some t \<Rightarrow> if t = [] \<or> rest \<noteq> [] then Some t else None | None \<Rightarrow> None) of
             Some t \<Rightarrow> Match rest t
           | None \<Rightarrow>
               if star
               then (case star_search chunk (rest = []) name of Some t \<Rightarrow> Match rest t | None \<Rightarrow> False)
               else False))"
  by pat_completeness auto
termination
  by (relation "measure (\<lambda>(pattern, name). length pattern)")
    (auto dest: scanChunk_shorter')

declare Match.simps [simp del]

subsection \<open>Literal and prefix patterns\<close>

definition meta_free :: "string \<Rightarrow> bool" where
  "meta_free p = list_all (\<lambda>c. c \<noteq> CHR ''*'' \<and> c \<noteq> CHR ''?'' \<and> c \<noteq> CHR ''['' \<and> c \<noteq> bslash) p"

lemma scan_split_meta_free_end: "meta_free p \<Longrightarrow> scan_split False p = (p, [])"
  by (induction False p rule: scan_split.induct) (auto simp: meta_free_def)

lemma scan_split_meta_free_star:
  "meta_free p \<Longrightarrow> scan_split False (p @ CHR ''*'' # q) = (p, CHR ''*'' # q)"
proof (induction p)
  case Nil
  then show ?case by (cases q) (auto simp: bslash_def)
next
  case (Cons a p)
  then show ?case by (cases p; cases q) (auto simp: meta_free_def bslash_def)
qed

lemma matchChunk_failed: "meta_free p \<Longrightarrow> matchChunk p None = Some None"
  by (induction p) (auto simp: meta_free_def literal_step_def Let_def)

lemma matchChunk_meta_free:
  "meta_free p \<Longrightarrow> matchChunk p (Some s) = Some (if prefix p s then Some (drop (length p) s) else None)"
proof (induction p arbitrary: s)
  case (Cons c p)
  then have "meta_free p" by (simp add: meta_free_def)
  with Cons show ?case
    by (cases s) (auto simp: meta_free_def literal_step_def Let_def matchChunk_failed)
qed simp

lemma hd_meta_free: "meta_free p \<Longrightarrow> p \<noteq> [] \<Longrightarrow> hd p \<noteq> CHR ''*''"
  by (cases p) (auto simp: meta_free_def)

lemma Match_literal:
  assumes "meta_free p"
  shows "Match p name \<longleftrightarrow> name = p"
proof (cases "p = []")
  case True
  then show ?thesis by (simp add: Match.simps [of "[]"])
next
  case False
  then have "dropWhile (\<lambda>c. c = CHR ''*'') p = p"
    using hd_meta_free [OF assms] by (cases p) auto
  then have "scanChunk p = (False, p, [])"
    using False hd_meta_free [OF assms] scan_split_meta_free_end [OF assms]
    by (simp add: scanChunk_def)
  then show ?thesis
    using False assms matchChunk_meta_free [OF assms, of name]
    by (subst Match.simps) (auto simp: Match.simps [of "[]"] prefix_def)
qed

lemma Match_prefix_star:
  assumes "meta_free p" and "p \<noteq> []"
  shows "Match (p @ ''*'') name \<longleftrightarrow> (\<exists>t. name = p @ t \<and> CHR ''/'' \<notin> set t)"
proof -
  have "dropWhile (\<lambda>c. c = CHR ''*'') (p @ ''*'') = p @ ''*''"
    using hd_meta_free [OF assms] assms(2) by (cases p) auto
  then have "scanChunk (p @ ''*'') = (False, p, ''*'')"
    using assms hd_meta_free [OF assms] scan_split_meta_free_star [OF assms(1), of "[]"]
    by (cases p) (auto simp: scanChunk_def)
  then have "Match (p @ ''*'') name = (prefix p name \<and> Match ''*'' (drop (length p) name))"
    using assms(2) by (subst Match.simps) (simp add: matchChunk_meta_free [OF assms(1)])
  moreover have "Match ''*'' t \<longleftrightarrow> CHR ''/'' \<notin> set t" for t
    by (subst Match.simps) (simp add: scanChunk_def)
  ultimately have "Match (p @ ''*'') name \<longleftrightarrow> prefix p name \<and> CHR ''/'' \<notin> set (drop (length p) name)"
    by (simp only:)
  also have "\<dots> \<longleftrightarrow> (\<exists>t. name = p @ t \<and> CHR ''/'' \<notin> set t)"
    by (auto simp: prefix_def)
  finally show ?thesis .
qed

end
