(* ===== verification/Policy.thy ===== *)
theory Policy
  imports KubeClient GlobMatch
begin

text \<open>
  Deny policies (\<^verbatim>\<open>pkg/policy/deny.go\<close>): the action of a request, scope and rule matching, and
  the evaluator that walks the policies in listing order.
\<close>

subsection \<open>Definitions\<close>

record Action =
  act_Verb :: string
  act_APIGroup :: string
  act_Resource :: string
  act_Namespace :: string
  act_Name :: string
  act_Subresource :: string
  act_ClusterID :: string
  act_Tenant :: string
  act_Session :: string

fun contains :: "string list \<Rightarrow> string \<Rightarrow> bool" where
  "contains [] v = False"
| "contains (s # sl) v = (if s = v \<or> s = ''*'' then True else contains sl v)"

fun matchAny :: "string list \<Rightarrow> string \<Rightarrow> bool" where
  "matchAny [] value = False"
| "matchAny (p # patterns) value =
     (if p = ''*'' then True else if Match p value then True else matchAny patterns value)"

definition scopeMatches :: "DenyPolicyScope option \<Rightarrow> Action \<Rightarrow> bool" where
  "scopeMatches scope act =
     (case scope of
        None \<Rightarrow> True
      | Some s \<Rightarrow>
          if ScopeClusters s \<noteq> [] \<and> \<not> contains (ScopeClusters s) (act_ClusterID act) then False
          else if ScopeTenants s \<noteq> [] \<and> \<not> contains (ScopeTenants s) (act_Tenant act) then False
          else if ScopeSessions s \<noteq> [] \<and> \<not> contains (ScopeSessions s) (act_Session act) then False
          else True)"

definition ruleMatches :: "DenyRule \<Rightarrow> Action \<Rightarrow> bool" where
  "ruleMatches r act =
     (if \<not> contains (Verbs r) (act_Verb act) then False
      else if \<not> contains (APIGroups r) (act_APIGroup act) then False
      else if \<not> contains (Resources r) (act_Resource act) then False
      else if Subresources r \<noteq> [] \<and> \<not> contains (Subresources r) (act_Subresource act)
              \<and> \<not> contains (Subresources r) ''*'' then False
      else if Namespaces r \<noteq> [] \<and> \<not> matchAny (Namespaces r) (act_Namespace act) then False
      else if ResourceNames r \<noteq> [] \<and> \<not> matchAny (ResourceNames r) (act_Name act) then False
      else True)"

text \<open>The two nested loops of the evaluator: the name of the first policy with a matching rule.\<close>

fun match_policies :: "DenyPolicy list \<Rightarrow> Action \<Rightarrow> string option" where
  "match_policies [] act = None"
| "match_policies (pol # ps) act =
     (if \<not> scopeMatches (AppliesTo (dp_spec pol)) act then match_policies ps act
      else if list_ex (\<lambda>r. ruleMatches r act) (Rules (dp_spec pol)) then Some (Name (dp_meta pol))
      else match_policies ps act)"

definition Evaluator_Match :: "'w client \<Rightarrow> Action \<Rightarrow> 'w \<Rightarrow> (bool \<times> string) result" where
  "Evaluator_Match c act w =
     (case list_denypolicies c w of
        Inl e \<Rightarrow> Inl e
      | Inr items \<Rightarrow>
          (case match_policies items act of
             Some name \<Rightarrow> Inr (True, name)
           | None \<Rightarrow> Inr (False, [])))"

subsection \<open>Declarative reading\<close>

definition policy_denies :: "Action \<Rightarrow> DenyPolicy \<Rightarrow> bool" where
  "policy_denies act pol \<longleftrightarrow> scopeMatches (AppliesTo (dp_spec pol)) act \<and>
     (\<exists>r \<in> set (Rules (dp_spec pol)). ruleMatches r act)"

lemma contains_iff: "contains sl v \<longleftrightarrow> v \<in> set sl \<or> ''*'' \<in> set sl"
  by (induction sl) auto

lemma matchAny_iff: "matchAny ps v \<longleftrightarrow> (\<exists>p \<in> set ps. p = ''*'' \<or> Match p v)"
  by (induction ps) auto

lemma scopeMatches_Some:
  "scopeMatches (Some s) act \<longleftrightarrow>
     (ScopeClusters s = [] \<or> contains (ScopeClusters s) (act_ClusterID act)) \<and>
     (ScopeTenants s = [] \<or> contains (ScopeTenants s) (act_Tenant act)) \<and>
     (ScopeSessions s = [] \<or> contains (ScopeSessions s) (act_Session act))"
  by (auto simp: scopeMatches_def)

lemma ruleMatches_iff:
  "ruleMatches r act \<longleftrightarrow>
     contains (Verbs r) (act_Verb act) \<and> contains (APIGroups r) (act_APIGroup act) \<and>
     contains (Resources r) (act_Resource act) \<and>
     (Subresources r = [] \<or> contains (Subresources r) (act_Subresource act)) \<and>
     (Namespaces r = [] \<or> matchAny (Namespaces r) (act_Namespace act)) \<and>
     (ResourceNames r = [] \<or> matchAny (ResourceNames r) (act_Name act))"
  by (auto simp: ruleMatches_def contains_iff)

lemma match_policies_find:
  "match_policies ps act = map_option (\<lambda>p. Name (dp_meta p)) (List.find (policy_denies act) ps)"
  by (induction ps) (auto simp: policy_denies_def list_ex_iff)

lemma match_policies_Some_iff:
  "(\<exists>n. match_policies ps act = Some n) \<longleftrightarrow> (\<exists>p \<in> set ps. policy_denies act p)"
proof (cases "List.find (policy_denies act) ps")
  case None
  then show ?thesis by (auto simp: match_policies_find find_None_iff)
next
  case (Some p)
  then have "p \<in> set ps \<and> policy_denies act p" by (auto simp: find_Some_iff)
  with Some show ?thesis by (auto simp: match_policies_find)
qed

lemma match_policies_permute:
  "set ps = set qs \<Longrightarrow> (match_policies ps act = None) = (match_policies qs act = None)"
  using match_policies_Some_iff [of ps act] match_policies_Some_iff [of qs act]
  by (metis not_Some_eq)

lemma Evaluator_Match_denied_iff:
  "(\<exists>n. Evaluator_Match c act w = Inr (True, n)) \<longleftrightarrow>
     (\<exists>ps. list_denypolicies c w = Inr ps \<and> (\<exists>p \<in> set ps. policy_denies act p))"
  using match_policies_Some_iff
  by (fastforce simp: Evaluator_Match_def split: sum.splits option.splits)

text \<open>Setting the session of an action only matters to policies scoped to sessions.\<close>

lemma policy_denies_other_session:
  assumes "policy_denies act pol"
    and "AppliesTo (dp_spec pol) = None \<or> (\<exists>s. AppliesTo (dp_spec pol) = Some s \<and> ScopeSessions s = [])"
  shows "policy_denies (act\<lparr>act_Session := n\<rparr>) pol"
  using assms by (auto simp: policy_denies_def ruleMatches_iff scopeMatches_Some scopeMatches_def [of None])

subsection \<open>Properties\<close>


definition ex_action :: Action where
  "ex_action = \<lparr>act_Verb = ''get'', act_APIGroup = [], act_Resource = ''pods'', act_Namespace = ''kube-system'',
     act_Name = ''p'', act_Subresource = ''exec'', act_ClusterID = ''c'', act_Tenant = [], act_Session = []\<rparr>"

definition ex_policy_api :: mem_api where
  "ex_policy_api = \<lparr>m_sessions = [], m_escalations = [], m_clusterconfigs = [],
     m_denypolicies = [\<lparr>dp_meta = zero_meta\<lparr>Name := ''deny-pods''\<rparr>,
       dp_spec = \<lparr>AppliesTo = None, Rules = [\<lparr>Verbs = [''*''], APIGroups = [[]], Resources = [''pods''],
         Namespaces = [''kube-*''], ResourceNames = [], Subresources = []\<rparr>], Precedence = None\<rparr>,
       dp_status = \<lparr>RuleCount = 1, Compiled = True, LastCompile = 0\<rparr>\<rparr>],
     m_selectable = [], m_next = 0\<rparr>"


text \<open>The precedence field has no effect: changing the precedence of any policies changes no decision
  and no reported policy.\<close>

theorem deny_precedence_ignored:
  "match_policies (map (\<lambda>p. p\<lparr>dp_spec := (dp_spec p)\<lparr>Precedence := prec p\<rparr>\<rparr>) ps) act = match_policies ps act"
  by (induction ps) simp_all

text \<open>A rule that lists no subresources also matches requests for any subresource, and one that lists
  no namespaces also matches every namespace.\<close>

theorem deny_rule_empty_lists_match_all:
  assumes "Subresources r = []" "Namespaces r = []"
  shows "ruleMatches r act = ruleMatches r (act\<lparr>act_Subresource := sub, act_Namespace := ns\<rparr>)"
  using assms by (simp add: ruleMatches_iff)

theorem deny_rule_empty_lists_match_all_witness:
  "ruleMatches \<lparr>Verbs = [''get''], APIGroups = [[]], Resources = [''pods''], Namespaces = [], ResourceNames = [], Subresources = []\<rparr>
     \<lparr>act_Verb = ''get'', act_APIGroup = [], act_Resource = ''pods'', act_Namespace = ''kube-system'', act_Name = ''p'',
      act_Subresource = ''exec'', act_ClusterID = ''c'', act_Tenant = [], act_Session = []\<rparr>"
  (is "ruleMatches ?r ?a")
proof -
  have "ruleMatches ?r (?a\<lparr>act_Subresource := [], act_Namespace := []\<rparr>)" by (simp add: ruleMatches_iff contains_iff)
  then show ?thesis
    using deny_rule_empty_lists_match_all [of ?r "?a\<lparr>act_Subresource := [], act_Namespace := []\<rparr>"
      "''kube-system''" "''exec''"]
    by simp
qed

end
