(* ===== verification/ClusterCache.thy ===== *)
theory ClusterCache
  imports KubeClient
begin

text \<open>
  \<^verbatim>\<open>pkg/cluster/cache.go\<close>: the provider of cluster configurations and REST configurations with its
  two caches.  The state of the provider is a record; the lock is not modelled, every operation is
  one step.  Fetching a secret and parsing a kubeconfig are parameters.
\<close>

subsection \<open>Definitions\<close>

record RestConfig =
  rest_Host :: string
  rest_QPS :: "int option"
  rest_Burst :: "int option"
  rest_Credentials :: string

record ClientProvider =
  cp_data :: "(string \<times> ClusterConfig) list"
  cp_rest :: "(string \<times> RestConfig) list"

record 'w provider_deps =
  pd_client :: "'w client"
  pd_get_secret :: "object_key \<Rightarrow> 'w \<Rightarrow> (string \<times> string) list result"
  pd_parse_kubeconfig :: "string \<Rightarrow> RestConfig result"

definition NewClientProvider :: ClientProvider where
  "NewClientProvider = \<lparr>cp_data = [], cp_rest = []\<rparr>"

definition cacheKey :: "string \<Rightarrow> string \<Rightarrow> string" where
  "cacheKey ns name = ns @ ''/'' @ name"

definition GetAcrossAllNamespaces ::
  "'w provider_deps \<Rightarrow> string \<Rightarrow> 'w world \<Rightarrow> ClientProvider \<Rightarrow> ClusterConfig result \<times> ClientProvider" where
  "GetAcrossAllNamespaces d name w p =
     (case map_of (cp_data p) (cacheKey [] name) of
        Some cfg \<Rightarrow> (Inr cfg, p)
      | None \<Rightarrow>
          (case list_clusterconfigs (pd_client d) [] (api w) of
             Inl e \<Rightarrow> (Inl (wrap_error ''list clusterconfigs'' e), p)
           | Inr items \<Rightarrow>
               (case List.find (\<lambda>i. Name (cc_meta i) = name) items of
                  Some cp \<Rightarrow> (Inr cp,
                    p\<lparr>cp_data := map_set (cacheKey (Namespace (cc_meta cp)) (Name (cc_meta cp))) cp (cp_data p)\<rparr>)
                | None \<Rightarrow> (Inl (Err (''clusterconfig '' @ name @ '' not found'')), p))))"

definition GetInNamespace ::
  "'w provider_deps \<Rightarrow> string \<Rightarrow> string \<Rightarrow> 'w world \<Rightarrow> ClientProvider \<Rightarrow> ClusterConfig result \<times> ClientProvider" where
  "GetInNamespace d ns name w p =
     (let key = cacheKey ns name in
      case map_of (cp_data p) key of
        Some cfg \<Rightarrow> (Inr cfg, p)
      | None \<Rightarrow>
          (case get_clusterconfig (pd_client d) (ns, name) (api w) of
             Inl e \<Rightarrow> (Inl (wrap_error (''get clusterconfig '' @ ns @ ''/'' @ name) e), p)
           | Inr got \<Rightarrow> (Inr got, p\<lparr>cp_data := map_set key got (cp_data p)\<rparr>)))"

text \<open>\<^verbatim>\<open>float32(n)\<close> of a 32-bit integer: 24 significant bits, ties to even.\<close>

definition float32 :: "int \<Rightarrow> int" where
  "float32 n = (let k = bit_length \<bar>n\<bar> - 24 in
     if k \<le> 0 then n else sgn n * (round_half_even \<bar>n\<bar> (2 ^ nat k) * 2 ^ nat k))"

text \<open>What is done with the parsed kubeconfig of a cluster.\<close>

definition adapt_rest_config :: "ClusterConfig \<Rightarrow> RestConfig \<Rightarrow> RestConfig" where
  "adapt_rest_config cc cfg0 =
     (let cfg1 = (if StrContains (rest_Host cfg0) ''127.0.0.1'' \<or> StrContains (rest_Host cfg0) ''localhost''
                  then cfg0\<lparr>rest_Host := ''https://kubernetes.default.svc''\<rparr> else cfg0);
          cfg2 = (case QPS (cc_spec cc) of Some q \<Rightarrow> cfg1\<lparr>rest_QPS := Some (float32 q)\<rparr> | None \<Rightarrow> cfg1)
      in case Burst (cc_spec cc) of Some b \<Rightarrow> cfg2\<lparr>rest_Burst := Some b\<rparr> | None \<Rightarrow> cfg2)"

definition load_rest_config :: "'w provider_deps \<Rightarrow> ClusterConfig \<Rightarrow> 'w world \<Rightarrow> RestConfig result" where
  "load_rest_config d cc w =
     (let ref = KubeconfigSecretRef (cc_spec cc);
          secretKey = (if SecretKey ref = [] then ''value'' else SecretKey ref)
      in case pd_get_secret d (SecretNamespace ref, SecretName ref) (api w) of
           Inl e \<Rightarrow> Inl (wrap_error ''fetch kubeconfig secret'' e)
         | Inr data \<Rightarrow>
             (case map_of data secretKey of
                None \<Rightarrow> Inl (Err (''secret '' @ SecretNamespace ref @ ''/'' @ SecretName ref @ '' missing key '' @ secretKey))
              | Some raw \<Rightarrow>
                  (case pd_parse_kubeconfig d raw of
                     Inl e \<Rightarrow> Inl (wrap_error ''parse kubeconfig'' e)
                   | Inr cfg \<Rightarrow> Inr (adapt_rest_config cc cfg))))"

definition GetRESTConfig ::
  "'w provider_deps \<Rightarrow> string \<Rightarrow> 'w world \<Rightarrow> ClientProvider \<Rightarrow> RestConfig result \<times> ClientProvider" where
  "GetRESTConfig d name w p =
     (case map_of (cp_rest p) name of
        Some rc \<Rightarrow> (Inr rc, p)
      | None \<Rightarrow>
          (case GetAcrossAllNamespaces d name w p of
             (Inl e, p') \<Rightarrow> (Inl e, p')
           | (Inr cc, p') \<Rightarrow>
               (case load_rest_config d cc w of
                  Inl e \<Rightarrow> (Inl e, p')
                | Inr cfg \<Rightarrow> (Inr cfg, p'\<lparr>cp_rest := map_set name cfg (cp_rest p')\<rparr>))))"

definition Invalidate :: "string \<Rightarrow> ClientProvider \<Rightarrow> ClientProvider" where
  "Invalidate name p =
     p\<lparr>cp_data := filter (\<lambda>e. \<not> (HasSuffix (fst e) (''/'' @ name) \<or> fst e = name)) (cp_data p),
       cp_rest := map_delete name (cp_rest p)\<rparr>"

subsection \<open>What the caches hold\<close>

text \<open>Object names and namespaces have no slash; the namespace of a stored object is not empty.\<close>

definition name_ok :: "string \<Rightarrow> bool" where
  "name_ok s = (CHR ''/'' \<notin> set s)"

definition provider_wf :: "ClientProvider \<Rightarrow> bool" where
  "provider_wf p = (\<forall>k cc. (k, cc) \<in> set (cp_data p) \<longrightarrow>
     k = cacheKey (Namespace (cc_meta cc)) (Name (cc_meta cc)) \<and>
     Namespace (cc_meta cc) \<noteq> [] \<and> name_ok (Namespace (cc_meta cc)))"

locale clusterconfig_listing = kube_listing "list_clusterconfigs cl" stored clusterconfig_index
  for cl :: "'w client" and stored :: "'w \<Rightarrow> ClusterConfig list" +
  fixes namespaced :: "'w \<Rightarrow> bool"
  assumes stored_namespaced: "namespaced a \<Longrightarrow> cc \<in> set (stored a) \<Longrightarrow>
        Namespace (cc_meta cc) \<noteq> [] \<and> name_ok (Namespace (cc_meta cc))"
    and get_stored: "get_clusterconfig cl (ns, name) a = Inr cc \<Longrightarrow>
          cc \<in> set (stored a) \<and> Namespace (cc_meta cc) = ns \<and> Name (cc_meta cc) = name"

lemma NewClientProvider_wf [simp]: "provider_wf NewClientProvider"
  by (simp add: provider_wf_def NewClientProvider_def)

lemma map_set_wf:
  assumes "provider_wf p" "Namespace (cc_meta cc) \<noteq> []" "name_ok (Namespace (cc_meta cc))"
    "k = cacheKey (Namespace (cc_meta cc)) (Name (cc_meta cc))"
  shows "provider_wf (p\<lparr>cp_data := map_set k cc (cp_data p)\<rparr>)"
  using assms set_map_set [of k cc "cp_data p"] by (auto simp: provider_wf_def)

lemma Invalidate_wf: "provider_wf p \<Longrightarrow> provider_wf (Invalidate name p)"
  by (auto simp: provider_wf_def Invalidate_def)

text \<open>The cross-namespace lookup asks for a key with an empty namespace, which no entry has.\<close>

lemma across_key_miss:
  assumes "provider_wf p"
  shows "map_of (cp_data p) (cacheKey [] name) = None"
proof (rule ccontr)
  assume "map_of (cp_data p) (cacheKey [] name) \<noteq> None"
  then obtain cc where "(cacheKey [] name, cc) \<in> set (cp_data p)"
    by (auto dest: map_of_SomeD)
  with assms have "cacheKey [] name = cacheKey (Namespace (cc_meta cc)) (Name (cc_meta cc))"
    and "Namespace (cc_meta cc) \<noteq> []" "name_ok (Namespace (cc_meta cc))"
    by (auto simp: provider_wf_def)
  then show False by (cases "Namespace (cc_meta cc)") (auto simp: cacheKey_def name_ok_def)
qed

lemma across_reads_through:
  assumes "provider_wf p"
  shows "fst (GetAcrossAllNamespaces d name w p) = fst (GetAcrossAllNamespaces d name w NewClientProvider)"
  using across_key_miss [OF assms] across_key_miss [OF NewClientProvider_wf]
  by (auto simp: GetAcrossAllNamespaces_def split: sum.splits option.splits)

lemma across_rest [simp]: "cp_rest (snd (GetAcrossAllNamespaces d name w p)) = cp_rest p"
  by (auto simp: GetAcrossAllNamespaces_def split: sum.splits option.splits)

lemma rest_miss:
  assumes "map_of (cp_rest p) name = None"
  shows "fst (GetRESTConfig d name w p) =
    bind_result (fst (GetAcrossAllNamespaces d name w p)) (\<lambda>cc. load_rest_config d cc w)"
  using assms by (auto simp: GetRESTConfig_def split: prod.splits sum.splits)

lemma rest_miss_fresh:
  assumes "provider_wf p" "map_of (cp_rest p) name = None"
  shows "fst (GetRESTConfig d name w p) = fst (GetRESTConfig d name w NewClientProvider)"
proof -
  have "map_of (cp_rest NewClientProvider) name = None" by (simp add: NewClientProvider_def)
  then show ?thesis by (simp add: rest_miss assms across_reads_through [OF assms(1)])
qed

text \<open>A built configuration is returned unchanged, whatever happens to the cluster config or secret.\<close>

lemma rest_hit:
  assumes "GetRESTConfig d name w p = (Inr rc, p')"
  shows "GetRESTConfig d name w' p' = (Inr rc, p')"
  using assms by (auto simp: GetRESTConfig_def split: option.splits prod.splits sum.splits)

context clusterconfig_listing
begin

lemma across_wf:
  assumes "pd_client d = cl" "namespaced (api w)" "provider_wf p"
  shows "provider_wf (snd (GetAcrossAllNamespaces d name w p))"
proof (cases "list_clusterconfigs cl [] (api w)")
  case (Inr items)
  have cc: "Namespace (cc_meta cc) \<noteq> [] \<and> name_ok (Namespace (cc_meta cc))"
    if "List.find (\<lambda>i. Name (cc_meta i) = name) items = Some cc" for cc
  proof -
    from that have "cc \<in> set items" by (auto simp: find_Some_iff)
    with lst_subset [OF Inr] show ?thesis using stored_namespaced [OF assms(2)] by blast
  qed
  with Inr assms show ?thesis
    by (auto simp: GetAcrossAllNamespaces_def intro!: map_set_wf split: option.splits)
qed (use assms in \<open>auto simp: GetAcrossAllNamespaces_def split: option.splits\<close>)

lemma in_namespace_wf:
  assumes "pd_client d = cl" "namespaced (api w)" "provider_wf p"
  shows "provider_wf (snd (GetInNamespace d ns name w p))"
proof -
  have "provider_wf (p\<lparr>cp_data := map_set (cacheKey ns name) cc (cp_data p)\<rparr>)"
    if "get_clusterconfig cl (ns, name) (api w) = Inr cc" for cc
    using get_stored [OF that] stored_namespaced [OF assms(2), of cc] assms(3) by (intro map_set_wf) auto
  with assms show ?thesis
    by (auto simp: GetInNamespace_def Let_def split: option.splits sum.splits)
qed

lemma rest_wf:
  assumes "pd_client d = cl" "namespaced (api w)" "provider_wf p"
  shows "provider_wf (snd (GetRESTConfig d name w p))"
proof -
  obtain r p' where a: "GetAcrossAllNamespaces d name w p = (r, p')" by force
  with across_wf [OF assms, of name] have "provider_wf p'" by simp
  then have "provider_wf (p'\<lparr>cp_rest := x\<rparr>)" for x by (simp add: provider_wf_def)
  with \<open>provider_wf p'\<close> a assms(3) show ?thesis
    by (auto simp: GetRESTConfig_def split: prod.splits sum.splits option.splits)
qed

end

definition mem_namespaced :: "mem_api \<Rightarrow> bool" where
  "mem_namespaced m = list_all (\<lambda>cc. Namespace (cc_meta cc) \<noteq> [] \<and> name_ok (Namespace (cc_meta cc))) (m_clusterconfigs m)"

interpretation mem_configs: clusterconfig_listing mem_client m_clusterconfigs mem_namespaced
proof (rule clusterconfig_listing.intro)
  show "kube_listing (list_clusterconfigs mem_client) m_clusterconfigs clusterconfig_index"
    using mem_list_listing by (simp add: mem_client_def)
  show "clusterconfig_listing_axioms mem_client m_clusterconfigs mem_namespaced"
    by unfold_locales
      (auto simp: mem_namespaced_def list_all_iff mem_client_def mem_get_def find_Some_iff split: option.splits)
qed

subsection \<open>A concrete provider\<close>

definition ex_cluster_config :: ClusterConfig where
  "ex_cluster_config = \<lparr>cc_meta = zero_meta\<lparr>Name := ''prod'', Namespace := ''bg''\<rparr>,
     cc_spec = \<lparr>ClusterID = ''prod'', Tenant = ''t1'', Environment = [], Site = [], Location = [],
       KubeconfigSecretRef = \<lparr>SecretName = ''kc'', SecretNamespace = ''bg'', SecretKey = []\<rparr>,
       QPS = None, Burst = None, BlockSelfApproval = False, AllowedApproverDomains = []\<rparr>,
     cc_status = \<lparr>Phase = [], Message = [], LastCheckTime = 0\<rparr>\<rparr>"

definition ex_deps :: "mem_api provider_deps" where
  "ex_deps = \<lparr>pd_client = mem_client, pd_get_secret = (\<lambda>k a. Inr [(''value'', ''kubeconfig'')]),
     pd_parse_kubeconfig = (\<lambda>raw. Inr \<lparr>rest_Host = ''https://prod'', rest_QPS = None, rest_Burst = None,
       rest_Credentials = raw\<rparr>)\<rparr>"

definition ex_cc_world :: "ClusterConfig list \<Rightarrow> mem_api world" where
  "ex_cc_world ccs = \<lparr>api = \<lparr>m_sessions = [], m_escalations = [], m_clusterconfigs = ccs, m_denypolicies = [],
     m_selectable = [], m_next = 0\<rparr>, counters = [], outbox = []\<rparr>"

lemma ex_across_wf:
  "provider_wf (snd (GetAcrossAllNamespaces ex_deps ''prod'' (ex_cc_world [ex_cluster_config]) NewClientProvider))"
  by (rule mem_configs.across_wf)
    (simp_all add: ex_deps_def ex_cc_world_def mem_namespaced_def ex_cluster_config_def zero_meta_def name_ok_def)

lemma ex_rest_wf:
  "provider_wf (snd (GetRESTConfig ex_deps ''prod'' (ex_cc_world [ex_cluster_config]) NewClientProvider))"
  by (rule mem_configs.rest_wf)
    (simp_all add: ex_deps_def ex_cc_world_def mem_namespaced_def ex_cluster_config_def zero_meta_def name_ok_def)

subsection \<open>Properties\<close>

text \<open>The cluster config cache is never hit by the lookup across namespaces: with well-formed entries
  (keyed by a non-empty namespace) it answers as a provider with empty caches does.\<close>

theorem across_lookup_not_cached:
  assumes "provider_wf p"
  shows "fst (GetAcrossAllNamespaces d name w p) = fst (GetAcrossAllNamespaces d name w NewClientProvider)"
  using assms by (rule across_reads_through)

theorem across_lookup_not_cached_witness:
  "fst (GetAcrossAllNamespaces ex_deps ''prod'' (ex_cc_world [])
      (snd (GetAcrossAllNamespaces ex_deps ''prod'' (ex_cc_world [ex_cluster_config]) NewClientProvider))) =
   Inl (Err ''clusterconfig prod not found'')"
proof -
  have "fst (GetAcrossAllNamespaces ex_deps ''prod'' (ex_cc_world []) NewClientProvider) =
      Inl (Err ''clusterconfig prod not found'')" by code_simp
  with across_lookup_not_cached [OF ex_across_wf, of ex_deps "''prod''" "ex_cc_world []"] show ?thesis
    by (rule trans)
qed

text \<open>C37. A built REST configuration is kept: after a successful lookup the same value is returned for
  every later state of the API server, and after invalidating the cluster the lookup again answers as a
  provider with empty caches does.\<close>

theorem rest_config_cached_until_invalidated:
  assumes "provider_wf p'" "GetRESTConfig d name w p = (Inr rc, p')"
  shows "GetRESTConfig d name w1 p' = (Inr rc, p') \<and>
    fst (GetRESTConfig d name w1 (Invalidate name p')) = fst (GetRESTConfig d name w1 NewClientProvider)"
proof
  show "GetRESTConfig d name w1 p' = (Inr rc, p')" using assms(2) by (rule rest_hit)
  have "map_of (cp_rest (Invalidate name p')) name = None" by (simp add: Invalidate_def)
  with Invalidate_wf [OF assms(1)] show "fst (GetRESTConfig d name w1 (Invalidate name p')) = fst (GetRESTConfig d name w1 NewClientProvider)"
    by (rule rest_miss_fresh)
qed

theorem rest_config_cached_until_invalidated_witness:
  "\<exists>rc p'. GetRESTConfig ex_deps ''prod'' (ex_cc_world []) p' = (Inr rc, p') \<and>
     fst (GetRESTConfig ex_deps ''prod'' (ex_cc_world []) (Invalidate ''prod'' p')) =
       Inl (Err ''clusterconfig prod not found'')"
proof -
  let ?run = "GetRESTConfig ex_deps ''prod'' (ex_cc_world [ex_cluster_config]) NewClientProvider"
  have "(case fst ?run of Inr rc \<Rightarrow> True | Inl _ \<Rightarrow> False)" by code_simp
  then obtain rc where "fst ?run = Inr rc" by (cases "fst ?run") auto
  then have run: "?run = (Inr rc, snd ?run)" by (metis prod.collapse)
  have "fst (GetRESTConfig ex_deps ''prod'' (ex_cc_world []) NewClientProvider) =
      Inl (Err ''clusterconfig prod not found'')" by code_simp
  with rest_config_cached_until_invalidated [OF ex_rest_wf run, of "ex_cc_world []"] show ?thesis by auto
qed

end
