(* ===== verification/Webhook.thy ===== *)
theory Webhook
  imports ExampleData Policy ClusterCache
begin

text \<open>
  \<^verbatim>\<open>pkg/webhook/controller.go\<close> and \<^verbatim>\<open>CanGroupsDo\<close> of \<^verbatim>\<open>group_checker.go\<close>: the authorization webhook
  that a cluster's API server asks with a SubjectAccessReview.  The decision is cut into the
  phases of the handler: metrics, the live sessions of the user, deny policies, RBAC on the
  target cluster, session SARs, available escalations, the final answer.

  The reviews created on the target cluster are parameters of the controller; the body argument
  is \<open>None\<close> when it cannot be read or decoded.
\<close>

subsection \<open>Reviews\<close>

record ResourceAttributes =
  ra_Namespace :: string
  ra_Verb :: string
  ra_Group :: string
  ra_Resource :: string
  ra_Subresource :: string
  ra_Name :: string

record NonResourceAttributes =
  nra_Path :: string
  nra_Verb :: string

record SubjectAccessReview =
  sar_APIVersion :: string
  sar_Kind :: string
  sar_User :: string
  sar_Groups :: "string list"
  sar_ResourceAttributes :: "ResourceAttributes option"
  sar_NonResourceAttributes :: "NonResourceAttributes option"

datatype sar_response =
    SARStatus int
  | SARDecision string string bool string
  | SARPanic string

fun sar_allowed :: "sar_response \<Rightarrow> bool" where
  "sar_allowed (SARDecision a k allowed r) = allowed"
| "sar_allowed _ = False"

fun sar_reason :: "sar_response \<Rightarrow> string" where
  "sar_reason (SARDecision a k allowed r) = r"
| "sar_reason _ = []"

fun is_decision :: "sar_response \<Rightarrow> bool" where
  "is_decision (SARDecision a k allowed r) = True"
| "is_decision _ = False"

text \<open>\<open>wh_provider\<close> is \<open>None\<close> for a controller without cluster provider.  \<open>wh_sar_create rc sar\<close> is the
  review created with the target cluster's credentials, \<open>wh_new_clientset\<close> the client construction.\<close>

record 'w WebhookController =
  wh_client :: "'w client"
  wh_config :: Config
  wh_load :: "Config \<times> error option"
  wh_canDoFn :: "RestConfig option \<Rightarrow> string list \<Rightarrow> SubjectAccessReview \<Rightarrow> string \<Rightarrow> bool result"
  wh_provider :: "'w provider_deps option"
  wh_new_clientset :: "RestConfig \<Rightarrow> error option"
  wh_sar_create :: "RestConfig \<Rightarrow> SubjectAccessReview \<Rightarrow> bool result"

subsection \<open>The RBAC check\<close>

text \<open>\<open>new_client\<close> and \<open>create_ssar\<close> act with the given impersonated groups.\<close>

definition CanGroupsDo ::
  "(RestConfig \<Rightarrow> string list \<Rightarrow> error option) \<Rightarrow> (RestConfig \<Rightarrow> string list \<Rightarrow> ResourceAttributes \<Rightarrow> bool result) \<Rightarrow>
   RestConfig option \<Rightarrow> string list \<Rightarrow> SubjectAccessReview \<Rightarrow> string \<Rightarrow> bool result" where
  "CanGroupsDo new_client create_ssar rc groups sar clustername =
     (case rc of
        None \<Rightarrow> Inl (Err ''rest config is nil'')
      | Some cfg \<Rightarrow>
          (case new_client cfg groups of
             Some e \<Rightarrow> Inl (wrap_error ''failed to create client'' e)
           | None \<Rightarrow>
               (case sar_ResourceAttributes sar of
                  None \<Rightarrow> Inl (Err ''sar spec.resourceAttributes is nil'')
                | Some ra \<Rightarrow>
                    create_ssar cfg groups \<lparr>ra_Namespace = ra_Namespace ra, ra_Verb = ra_Verb ra,
                      ra_Group = ra_Group ra, ra_Resource = ra_Resource ra,
                      ra_Subresource = ra_Subresource ra, ra_Name = ra_Resource ra\<rparr>)))"

subsection \<open>Reasons\<close>

definition denyReasonMessage :: "string \<Rightarrow> string \<Rightarrow> string" where
  "denyReasonMessage base cluster =
     ''Access denied. To request temporary access via Breakglass, visit '' @ base @ ''?search='' @ cluster @
     '' and open a new request. Include the reason for access, the target cluster, and the requested group(s). If you need help, contact your platform admins.''"

definition urlQueryEscape :: "string \<Rightarrow> string" where
  "urlQueryEscape v = ReplaceAll (ReplaceAll v '' '' ''+'') ''#'' ''%23''"

definition buildBreakglassLink :: "Config \<Rightarrow> string \<Rightarrow> string" where
  "buildBreakglassLink cfg cluster =
     (let base = TrimRight (BaseURL (cfg_Frontend cfg)) ''/'' in
      if base = [] then [] else base @ ''?search='' @ urlQueryEscape cluster)"

definition finalizeReason :: "Config \<Rightarrow> string \<Rightarrow> bool \<Rightarrow> string \<Rightarrow> string" where
  "finalizeReason cfg reason allowed cluster =
     (let link = buildBreakglassLink cfg cluster in
      if link = [] then reason
      else if StrContains reason link then reason
      else if reason = []
      then if allowed then ''Allowed; view details or sessions at '' @ link
           else denyReasonMessage (BaseURL (cfg_Frontend cfg)) cluster
      else reason @ ''; see '' @ link)"

text \<open>The \<^verbatim>\<open>%v\<close> rendering of a string slice.\<close>

definition Sprint_slice :: "string list \<Rightarrow> string" where
  "Sprint_slice xs = ''['' @ Join xs '' '' @ '']''"

subsection \<open>Sessions of the user\<close>

definition getSessions ::
  "instant \<Rightarrow> 'w client \<Rightarrow> string \<Rightarrow> string \<Rightarrow> 'w world \<Rightarrow> BreakglassSession list result" where
  "getSessions now cl username clustername w =
     (case GetBreakglassSessionsWithSelector cl [(''spec.cluster'', clustername), (''spec.user'', username)] w of
        Inl e \<Rightarrow> Inl e
      | Inr xs \<Rightarrow>
          Inr (filter (\<lambda>s. \<not> IsSessionRetained now s \<and> IsZero (RejectedAt (bs_status s)) \<and>
                  \<not> IsZero (ExpiresAt (bs_status s)) \<and> After (ExpiresAt (bs_status s)) now) xs))"

definition lookup_tenant ::
  "'w WebhookController \<Rightarrow> string \<Rightarrow> 'w world \<Rightarrow> ClientProvider \<Rightarrow> string \<times> ClientProvider" where
  "lookup_tenant wh clustername w p =
     (case wh_provider wh of
        None \<Rightarrow> ([], p)
      | Some d \<Rightarrow>
          (case GetAcrossAllNamespaces d clustername w p of
             (Inr cfg, p') \<Rightarrow> (Tenant (cc_spec cfg), p')
           | (Inl _, p') \<Rightarrow> ([], p')))"

definition getUserGroupsAndSessions ::
  "instant \<Rightarrow> 'w WebhookController \<Rightarrow> string \<Rightarrow> string \<Rightarrow> 'w world \<Rightarrow> ClientProvider \<Rightarrow>
   (string list \<times> BreakglassSession list \<times> string) result \<times> ClientProvider" where
  "getUserGroupsAndSessions now wh username clustername w p =
     (case getSessions now (wh_client wh) username clustername w of
        Inl e \<Rightarrow> (Inl e, p)
      | Inr sessions \<Rightarrow>
          (case lookup_tenant wh clustername w p of
             (tenant, p') \<Rightarrow> (Inr (map (\<lambda>s. GrantedGroup (bs_spec s)) sessions, sessions, tenant), p')))"

subsection \<open>Deny policies\<close>

definition action_of :: "ResourceAttributes \<Rightarrow> string \<Rightarrow> string \<Rightarrow> string \<Rightarrow> Action" where
  "action_of ra clusterName tenant session =
     \<lparr>act_Verb = ra_Verb ra, act_APIGroup = ra_Group ra, act_Resource = ra_Resource ra,
      act_Namespace = ra_Namespace ra, act_Name = ra_Name ra, act_Subresource = ra_Subresource ra,
      act_ClusterID = clusterName, act_Tenant = tenant, act_Session = session\<rparr>"

definition decision_metric :: "string \<Rightarrow> ResourceAttributes \<Rightarrow> string \<Rightarrow> string \<Rightarrow> metric" where
  "decision_metric clusterName ra decision source =
     WebhookSARDecisionsByAction clusterName (ra_Verb ra) (ra_Group ra) (ra_Resource ra) (ra_Namespace ra)
       (ra_Subresource ra) decision source"

text \<open>The answer of a matched deny policy names the policy and counts the escalations open to the
  user; a failed count is reported as none.\<close>

definition deny_answer ::
  "'w WebhookController \<Rightarrow> string \<Rightarrow> SubjectAccessReview \<Rightarrow> ResourceAttributes \<Rightarrow> string list \<Rightarrow> string \<Rightarrow> string \<Rightarrow>
   'w world \<Rightarrow> sar_response \<times> 'w world" where
  "deny_answer wh clusterName sar ra groups pol source w =
     (let ug = dedupeStrings (groups @ [''system:authenticated'']);
          count = (case GetClusterGroupBreakglassEscalations (wh_client wh) (wh_load wh) clusterName ug w of
                     Inl _ \<Rightarrow> 0 | Inr escals \<Rightarrow> int (length escals));
          reason = (if count > 0
                    then ''Denied by policy '' @ pol @ ''; '' @ Itoa count @ '' breakglass escalation(s) available''
                    else ''Denied by policy '' @ pol @ ''; No breakglass flow available for your user'')
      in (SARDecision (sar_APIVersion sar) (sar_Kind sar) False (finalizeReason (wh_config wh) reason False clusterName),
          inc_metric (decision_metric clusterName ra ''denied'' source) (inc_metric (WebhookSARDenied clusterName) w)))"

fun session_policy :: "'w client \<Rightarrow> ResourceAttributes \<Rightarrow> string \<Rightarrow> string \<Rightarrow> 'w \<Rightarrow> BreakglassSession list \<Rightarrow> string option" where
  "session_policy cl ra clusterName tenant a [] = None"
| "session_policy cl ra clusterName tenant a (s # ss) =
     (case Evaluator_Match cl (action_of ra clusterName tenant (Name (bs_meta s))) a of
        Inl _ \<Rightarrow> session_policy cl ra clusterName tenant a ss
      | Inr (denied, pol) \<Rightarrow>
          if denied then Some pol else session_policy cl ra clusterName tenant a ss)"

definition deny_phase ::
  "'w WebhookController \<Rightarrow> string \<Rightarrow> SubjectAccessReview \<Rightarrow> string list \<Rightarrow> BreakglassSession list \<Rightarrow> string \<Rightarrow>
   'w world \<Rightarrow> (sar_response \<times> 'w world) option" where
  "deny_phase wh clusterName sar groups sessions tenant w =
     (case sar_ResourceAttributes sar of
        None \<Rightarrow> None
      | Some ra \<Rightarrow>
          (case Evaluator_Match (wh_client wh) (action_of ra clusterName tenant []) (api w) of
             Inr (True, pol) \<Rightarrow> Some (deny_answer wh clusterName sar ra groups pol ''global'' w)
           | _ \<Rightarrow>
               (case session_policy (wh_client wh) ra clusterName tenant (api w) sessions of
                  Some pol \<Rightarrow> Some (deny_answer wh clusterName sar ra groups pol ''session'' w)
                | None \<Rightarrow> None)))"

subsection \<open>RBAC and session reviews\<close>

definition tolerated_error :: "string \<Rightarrow> bool" where
  "tolerated_error msg = (msg = ''rest config is nil'' \<or> StrContains msg ''does not exist'' \<or>
     StrContains msg ''no such file'')"

text \<open>The answer of the RBAC check (an error outside the tolerated ones ends the request), the error
  that made session checks impossible, and the provider.\<close>

definition rbac_phase ::
  "'w WebhookController \<Rightarrow> string \<Rightarrow> SubjectAccessReview \<Rightarrow> string list \<Rightarrow> 'w world \<Rightarrow> ClientProvider \<Rightarrow>
   bool result \<times> error option \<times> ClientProvider" where
  "rbac_phase wh clusterName sar groups w p =
     (let (outcome, skipped, p') =
            (case wh_provider wh of
               None \<Rightarrow> (wh_canDoFn wh None groups sar clusterName, None, p)
             | Some d \<Rightarrow>
                 (case GetRESTConfig d clusterName w p of
                    (Inr rc, p1) \<Rightarrow> (wh_canDoFn wh (Some rc) groups sar clusterName, None, p1)
                  | (Inl rerr, p1) \<Rightarrow> (wh_canDoFn wh None groups sar clusterName, Some rerr, p1)))
      in (case outcome of
            Inr can \<Rightarrow> (Inr can, skipped, p')
          | Inl e \<Rightarrow> if tolerated_error (error_text e) then (Inr False, skipped, p') else (Inl e, skipped, p')))"

definition owner_allowed_groups :: "'w client \<Rightarrow> BreakglassSession \<Rightarrow> 'w world \<Rightarrow> OwnerReference list \<Rightarrow> string list" where
  "owner_allowed_groups cl s w ors =
     (let found = List.find (\<lambda>r. case GetBreakglassEscalationsWithFilter cl (\<lambda>be. Name (be_meta be) = or_Name r) w of
                              Inr escs \<Rightarrow> length escs > 0 | Inl _ \<Rightarrow> False) ors
      in case found of
           None \<Rightarrow> []
         | Some r \<Rightarrow>
             (case GetBreakglassEscalationsWithFilter cl (\<lambda>be. Name (be_meta be) = or_Name r) w of
                Inr (e # _) \<Rightarrow> Groups (Allowed (be_spec e)) | _ \<Rightarrow> []))"

text \<open>The three nested loops: the first prefix that an incoming group carries in front of an allowed
  group; an empty prefix does not stop the search.\<close>

definition primary_prefix :: "string list \<Rightarrow> string list \<Rightarrow> string list \<Rightarrow> string" where
  "primary_prefix incoming alloweds oidcs =
     (let hits = concat (map (\<lambda>ig. concat (map (\<lambda>al.
                   (case List.find (\<lambda>p. HasPrefix ig p \<and> HasSuffix ig al) oidcs of
                      Some p \<Rightarrow> if p \<noteq> [] then [p] else [] | None \<Rightarrow> [])) alloweds)) incoming)
      in case hits of p # _ \<Rightarrow> p | [] \<Rightarrow> [])"

definition groups_to_try :: "string list \<Rightarrow> string \<Rightarrow> string \<Rightarrow> string list" where
  "groups_to_try oidcs primaryPrefix granted =
     (if primaryPrefix \<noteq> []
      then [primaryPrefix @ granted, granted] @ map (\<lambda>p. p @ granted) (filter (\<lambda>p. p \<noteq> primaryPrefix) oidcs)
      else granted # map (\<lambda>p. p @ granted) oidcs)"

definition session_sar :: "string \<Rightarrow> ResourceAttributes \<Rightarrow> SubjectAccessReview" where
  "session_sar g ra =
     \<lparr>sar_APIVersion = [], sar_Kind = [], sar_User = ''system:breakglass-session'', sar_Groups = [g],
      sar_ResourceAttributes = Some ra, sar_NonResourceAttributes = None\<rparr>"

text \<open>The reviews for one session: the group that was allowed, and the metrics of the attempts.\<close>

fun try_groups ::
  "(SubjectAccessReview \<Rightarrow> bool result) \<Rightarrow> string \<Rightarrow> string \<Rightarrow> ResourceAttributes \<Rightarrow> string list \<Rightarrow> 'w world \<Rightarrow>
   string option \<times> 'w world" where
  "try_groups create clusterName sname ra [] w = (None, w)"
| "try_groups create clusterName sname ra (g # gs) w =
     (case create (session_sar g ra) of
        Inl _ \<Rightarrow> try_groups create clusterName sname ra gs (inc_metric (WebhookSessionSARErrors clusterName sname g) w)
      | Inr True \<Rightarrow> (Some g, inc_metric (WebhookSessionSARsAllowed clusterName sname g) w)
      | Inr False \<Rightarrow> try_groups create clusterName sname ra gs (inc_metric (WebhookSessionSARsDenied clusterName sname g) w))"

definition session_groups_to_try ::
  "'w WebhookController \<Rightarrow> SubjectAccessReview \<Rightarrow> 'w world \<Rightarrow> BreakglassSession \<Rightarrow> string list" where
  "session_groups_to_try wh incoming w s =
     (let owned = owner_allowed_groups (wh_client wh) s w (bs_OwnerReferences s);
          alloweds = (if length owned = 0 then [GrantedGroup (bs_spec s)] else owned);
          oidcs = OIDCPrefixes (cfg_Kubernetes (wh_config wh));
          primary = primary_prefix (sar_Groups incoming) alloweds oidcs
      in groups_to_try oidcs primary (GrantedGroup (bs_spec s)))"

fun try_sessions ::
  "'w WebhookController \<Rightarrow> RestConfig \<Rightarrow> string \<Rightarrow> SubjectAccessReview \<Rightarrow> ResourceAttributes \<Rightarrow>
   BreakglassSession list \<Rightarrow> 'w world \<Rightarrow> (BreakglassSession \<times> string) option \<times> 'w world" where
  "try_sessions wh rc clusterName incoming ra [] w = (None, w)"
| "try_sessions wh rc clusterName incoming ra (s # ss) w =
     (case try_groups (wh_sar_create wh rc) clusterName (Name (bs_meta s)) ra (session_groups_to_try wh incoming w s) w of
        (Some g, w') \<Rightarrow> (Some (s, g), w')
      | (None, w') \<Rightarrow> try_sessions wh rc clusterName incoming ra ss w')"

definition authorizeViaSessions ::
  "'w WebhookController \<Rightarrow> RestConfig \<Rightarrow> BreakglassSession list \<Rightarrow> SubjectAccessReview \<Rightarrow> string \<Rightarrow>
   'w world \<Rightarrow> (BreakglassSession \<times> string) option \<times> 'w world" where
  "authorizeViaSessions wh rc sessions incoming clusterName w =
     (if length sessions = 0 then (None, w)
      else case sar_ResourceAttributes incoming of
             None \<Rightarrow> (None, w)
           | Some ra \<Rightarrow>
               (case wh_new_clientset wh rc of
                  Some _ \<Rightarrow> (None, w)
                | None \<Rightarrow> try_sessions wh rc clusterName incoming ra sessions w))"

subsection \<open>The branch without RBAC permission\<close>

text \<open>Session checks need a provider and resource attributes; a failed REST config is recorded.\<close>

definition session_phase ::
  "'w WebhookController \<Rightarrow> string \<Rightarrow> SubjectAccessReview \<Rightarrow> BreakglassSession list \<Rightarrow> error option \<Rightarrow>
   'w world \<Rightarrow> ClientProvider \<Rightarrow>
   (BreakglassSession \<times> string) option \<times> error option \<times> 'w world \<times> ClientProvider" where
  "session_phase wh clusterName sar sessions skipped w p =
     (case (wh_provider wh, sar_ResourceAttributes sar) of
        (Some d, Some _) \<Rightarrow>
          (case GetRESTConfig d clusterName w p of
             (Inl err, p') \<Rightarrow> (None, Some err, w, p')
           | (Inr rc, p') \<Rightarrow>
               (case authorizeViaSessions wh rc sessions sar clusterName w of
                  (hit, w') \<Rightarrow> (hit, skipped, w', p')))
      | _ \<Rightarrow> (None, skipped, w, p))"

text \<open>The escalations open to the user, for the reason text.  Reading the group of missing resource
  attributes is a nil dereference.\<close>

definition escalation_phase ::
  "instant \<Rightarrow> 'w WebhookController \<Rightarrow> string \<Rightarrow> SubjectAccessReview \<Rightarrow> 'w world \<Rightarrow> ClientProvider \<Rightarrow>
   (sar_response + BreakglassEscalation list) \<times> ClientProvider" where
  "escalation_phase now wh clusterName sar w p =
     (case getUserGroupsAndSessions now wh (sar_User sar) clusterName w p of
        (Inl _, p') \<Rightarrow> (Inl (SARStatus 500), p')
      | (Inr (activeUserGroups, _, _), p') \<Rightarrow>
          let uniqueGroups = dedupeStrings (activeUserGroups @ [''system:authenticated'']) in
          (case GetClusterGroupBreakglassEscalations (wh_client wh) (wh_load wh) clusterName uniqueGroups w of
             Inl _ \<Rightarrow> (Inl (SARStatus 500), p')
           | Inr escals \<Rightarrow>
               (case sar_ResourceAttributes sar of
                  None \<Rightarrow> (Inl (SARPanic ''invalid memory address or nil pointer dereference''), p')
                | Some ra \<Rightarrow>
                    if ra_Group ra \<noteq> [] then
                      (case GetClusterGroupTargetBreakglassEscalation (wh_client wh) (wh_load wh) clusterName
                              uniqueGroups (ra_Group ra) w of
                         Inl _ \<Rightarrow> (Inl (SARStatus 500), p')
                       | Inr groupescals \<Rightarrow> (Inr (escals @ groupescals), p'))
                    else (Inr escals, p'))))"

subsection \<open>The answer\<close>

definition skipped_note :: "BreakglassSession list \<Rightarrow> error \<Rightarrow> string" where
  "skipped_note sessions e =
     '' Note: '' @ Itoa (int (length sessions)) @ '' active breakglass session(s) found: '' @
     Sprint_slice (map (\<lambda>s. Name (bs_meta s) @ ''('' @ GrantedGroup (bs_spec s) @ '')'') sessions) @
     ''. Session-level authorization checks were skipped due to cluster validation error: '' @ error_text e @
     ''. If you believe you have valid access, ensure the platform has the cluster kubeconfig configured.''"

definition final_answer ::
  "'w WebhookController \<Rightarrow> string \<Rightarrow> SubjectAccessReview \<Rightarrow> BreakglassSession list \<Rightarrow> bool \<Rightarrow> string \<Rightarrow> error option \<Rightarrow>
   'w world \<Rightarrow> sar_response \<times> 'w world" where
  "final_answer wh clusterName sar sessions allowed reason0 skipped w =
     (let (reason1, w1) =
            (if \<not> allowed \<and> length sessions > 0
             then case skipped of
                    Some e \<Rightarrow> (reason0 @ skipped_note sessions e, inc_metric (WebhookSessionSARSSkipped clusterName) w)
                  | None \<Rightarrow> (reason0, w)
             else (reason0, w));
          reason = finalizeReason (wh_config wh) reason1 allowed clusterName;
          w2 = inc_metric (if allowed then WebhookSARAllowed clusterName else WebhookSARDenied clusterName) w1;
          w3 = (case sar_ResourceAttributes sar of
                  Some ra \<Rightarrow> inc_metric (if allowed then decision_metric clusterName ra ''allowed'' ''session''
                                         else decision_metric clusterName ra ''denied'' ''final'') w2
                | None \<Rightarrow> w2)
      in (SARDecision (sar_APIVersion sar) (sar_Kind sar) allowed reason, w3))"

definition count_request :: "string \<Rightarrow> SubjectAccessReview \<Rightarrow> 'w world \<Rightarrow> 'w world" where
  "count_request clusterName sar w =
     inc_metric
       (case sar_ResourceAttributes sar of
          Some ra \<Rightarrow> WebhookSARRequestsByAction clusterName (ra_Verb ra) (ra_Group ra) (ra_Resource ra)
                       (ra_Namespace ra) (ra_Subresource ra)
        | None \<Rightarrow>
            (case sar_NonResourceAttributes sar of
               Some nra \<Rightarrow> WebhookSARRequestsByAction clusterName (nra_Verb nra) [] ''nonresource'' [] []
             | None \<Rightarrow> WebhookSARRequestsByAction clusterName [] [] ''unknown'' [] [])) w"

text \<open>After the deny policies: RBAC, and without it sessions and escalations.\<close>

definition decide_phase ::
  "instant \<Rightarrow> 'w WebhookController \<Rightarrow> string \<Rightarrow> SubjectAccessReview \<Rightarrow> string list \<Rightarrow> BreakglassSession list \<Rightarrow>
   'w world \<Rightarrow> ClientProvider \<Rightarrow> sar_response \<times> 'w world \<times> ClientProvider" where
  "decide_phase now wh clusterName sar groups sessions w p =
     (case rbac_phase wh clusterName sar groups w p of
        (Inl _, _, p1) \<Rightarrow> (SARStatus 500, w, p1)
      | (Inr True, skipped, p1) \<Rightarrow>
          (let w1 = (case sar_ResourceAttributes sar of
                       Some ra \<Rightarrow> inc_metric (decision_metric clusterName ra ''allowed'' ''rbac'') w | None \<Rightarrow> w)
           in case final_answer wh clusterName sar sessions True
                     (''Allowed by RBAC ('' @ ''groups='' @ Sprint_slice groups @ '')'') skipped w1 of
                (r, w2) \<Rightarrow> (r, w2, p1))
      | (Inr False, skipped0, p1) \<Rightarrow>
          (case session_phase wh clusterName sar sessions skipped0 w p1 of
             (hit, skipped, w2, p2) \<Rightarrow>
               (case escalation_phase now wh clusterName sar w2 p2 of
                  (Inl r, p3) \<Rightarrow> (r, w2, p3)
                | (Inr escals, p3) \<Rightarrow>
                    let allowed = (hit \<noteq> None);
                        reason0 = (if length escals > 0
                                   then denyReasonMessage (BaseURL (cfg_Frontend (wh_config wh))) clusterName else []);
                        reason1 = (case hit of
                                     Some (s, g) \<Rightarrow>
                                       if reason0 = [] then ''Allowed by breakglass session ('' @ ''group='' @
                                         GrantedGroup (bs_spec s) @ '' session='' @ Name (bs_meta s) @
                                         '' impersonated='' @ g @ '')'' else reason0
                                   | None \<Rightarrow> reason0)
                    in case final_answer wh clusterName sar sessions allowed reason1 skipped w2 of
                         (r, w3) \<Rightarrow> (r, w3, p3))))"

definition handleAuthorize ::
  "instant \<Rightarrow> 'w WebhookController \<Rightarrow> string \<Rightarrow> SubjectAccessReview option \<Rightarrow> 'w world \<Rightarrow> ClientProvider \<Rightarrow>
   sar_response \<times> 'w world \<times> ClientProvider" where
  "handleAuthorize now wh clusterName body w0 p0 =
     (let w1 = inc_metric (WebhookSARRequests clusterName) w0 in
      case body of
        None \<Rightarrow> (SARStatus 422, w1, p0)
      | Some sar \<Rightarrow>
          (let w2 = count_request clusterName sar w1 in
           case getUserGroupsAndSessions now wh (sar_User sar) clusterName w2 p0 of
             (Inl _, p1) \<Rightarrow> (SARStatus 500, w2, p1)
           | (Inr (groups, sessions, tenant), p1) \<Rightarrow>
               (case deny_phase wh clusterName sar groups sessions tenant w2 of
                  Some (r, w3) \<Rightarrow> (r, w3, p1)
                | None \<Rightarrow> decide_phase now wh clusterName sar groups sessions w2 p1)))"

subsection \<open>Facts about the phases\<close>

definition live :: "instant \<Rightarrow> BreakglassSession \<Rightarrow> bool" where
  "live now s \<longleftrightarrow> RejectedAt (bs_status s) = 0 \<and> ExpiresAt (bs_status s) \<noteq> 0 \<and>
     now < ExpiresAt (bs_status s) \<and> now \<le> RetainedUntil (bs_status s)"

lemma getSessions_filter:
  "getSessions now cl u c w =
     map_error (wrap_error ''failed to list BreakglassSessionList with selector'')
       (case list_sessions cl [(''spec.cluster'', c), (''spec.user'', u)] (api w) of
          Inl e \<Rightarrow> Inl e | Inr xs \<Rightarrow> Inr (filter (live now) xs))"
proof -
  have "(\<lambda>s. \<not> IsSessionRetained now s \<and> IsZero (RejectedAt (bs_status s)) \<and>
      \<not> IsZero (ExpiresAt (bs_status s)) \<and> After (ExpiresAt (bs_status s)) now) = live now"
    by (auto simp: fun_eq_iff live_def IsSessionRetained_def IsZero_def After_def)
  then show ?thesis
    by (simp add: getSessions_def GetBreakglassSessionsWithSelector_def map_error_def split: sum.splits)
qed

context kube_sessions
begin

lemma getSessions_mem_iff:
  assumes "getSessions now cl u c w = Inr ss"
  shows "s \<in> set ss \<longleftrightarrow> s \<in> set (sessions (api w)) \<and> User (bs_spec s) = u \<and> Cluster (bs_spec s) = c \<and> live now s"
proof -
  obtain xs where l: "list_sessions cl [(''spec.cluster'', c), (''spec.user'', u)] (api w) = Inr xs"
    and ss: "ss = filter (live now) xs"
    using assms by (auto simp: getSessions_filter map_error_def split: sum.splits)
  show ?thesis
    using listing.lst_mem_iff [OF l, of s] by (auto simp: ss index_matches_def session_index_def)
qed

end

lemma getSessions_api: "api w = api w' \<Longrightarrow> getSessions now cl u c w = getSessions now cl u c w'"
  by (simp add: getSessions_filter)

lemma across_api: "api w = api w' \<Longrightarrow> GetAcrossAllNamespaces d n w p = GetAcrossAllNamespaces d n w' p"
  unfolding GetAcrossAllNamespaces_def by (simp only:)

lemma lookup_tenant_api: "api w = api w' \<Longrightarrow> lookup_tenant wh c w p = lookup_tenant wh c w' p"
  by (cases "wh_provider wh") (simp_all add: lookup_tenant_def across_api [of w w'])

lemma count_request_api [simp]: "api (count_request c sar w) = api w"
  by (simp add: count_request_def)

lemma deny_answer_refuses [simp]: "\<not> sar_allowed (fst (deny_answer wh c sar ra gs pol src w))"
  by (simp add: deny_answer_def Let_def)

lemma deny_phase_Some:
  "deny_phase wh c sar gs ss tn w = Some x \<Longrightarrow> \<exists>ra pol src. x = deny_answer wh c sar ra gs pol src w"
  by (auto simp: deny_phase_def split: option.splits sum.splits prod.splits bool.splits)

lemma deny_phase_refuses: "deny_phase wh c sar gs ss tn w = Some x \<Longrightarrow> \<not> sar_allowed (fst x)"
  using deny_phase_Some deny_answer_refuses by metis

lemma session_policy_None:
  assumes "session_policy cl ra c tn a ss = None" "s \<in> set ss"
  shows "\<not> (\<exists>n. Evaluator_Match cl (action_of ra c tn (Name (bs_meta s))) a = Inr (True, n))"
  using assms by (induction ss) (auto split: sum.splits prod.splits if_splits)

lemma deny_phase_None:
  assumes "deny_phase wh c sar gs ss tn w = None" "sar_ResourceAttributes sar = Some ra"
    and "list_denypolicies (wh_client wh) (api w) = Inr ps" "p \<in> set ps"
    and "sess = [] \<or> sess \<in> (\<lambda>s. Name (bs_meta s)) ` set ss"
  shows "\<not> policy_denies (action_of ra c tn sess) p"
proof
  assume "policy_denies (action_of ra c tn sess) p"
  then have hit: "\<exists>n. Evaluator_Match (wh_client wh) (action_of ra c tn sess) (api w) = Inr (True, n)"
    using assms(3,4) Evaluator_Match_denied_iff [of "wh_client wh" "action_of ra c tn sess" "api w"] by auto
  have none: "session_policy (wh_client wh) ra c tn (api w) ss = None"
    and glob: "\<not> (\<exists>n. Evaluator_Match (wh_client wh) (action_of ra c tn []) (api w) = Inr (True, n))"
    using assms(1,2) by (auto simp: deny_phase_def split: sum.splits prod.splits bool.splits option.splits)
  from assms(5) show False
  proof
    assume "sess = []"
    with hit glob show False by blast
  next
    assume "sess \<in> (\<lambda>s. Name (bs_meta s)) ` set ss"
    with hit session_policy_None [OF none] show False by blast
  qed
qed

lemma try_groups_Some:
  "try_groups create c n ra gs w = (Some g, w') \<Longrightarrow> g \<in> set gs \<and> create (session_sar g ra) = Inr True"
  by (induction gs arbitrary: w) (auto split: sum.splits bool.splits)

lemma try_groups_api: "try_groups create c n ra gs w = (r, w') \<Longrightarrow> api w' = api w"
  by (induction gs arbitrary: w) (fastforce split: sum.splits bool.splits)+

lemma session_groups_suffix: "g \<in> set (session_groups_to_try wh sar w s) \<Longrightarrow> HasSuffix g (GrantedGroup (bs_spec s))"
  by (auto simp: session_groups_to_try_def Let_def groups_to_try_def suffix_def split: if_splits)

lemma try_sessions_Some:
  assumes "try_sessions wh rc c sar ra ss w = (Some (s, g), w')"
  shows "s \<in> set ss \<and> HasSuffix g (GrantedGroup (bs_spec s)) \<and> wh_sar_create wh rc (session_sar g ra) = Inr True"
  using assms
proof (induction ss arbitrary: w)
  case (Cons x ss)
  obtain r w1 where t: "try_groups (wh_sar_create wh rc) c (Name (bs_meta x)) ra (session_groups_to_try wh sar w x) w = (r, w1)"
    by force
  show ?case
  proof (cases r)
    case None
    with Cons t show ?thesis by auto
  next
    case (Some g')
    with Cons.prems t have "s = x" "g' = g" by auto
    moreover have "g' \<in> set (session_groups_to_try wh sar w x) \<and> wh_sar_create wh rc (session_sar g' ra) = Inr True"
      by (rule try_groups_Some) (use t Some in simp)
    ultimately show ?thesis using session_groups_suffix by auto
  qed
qed simp

lemma authorizeViaSessions_Some:
  assumes "authorizeViaSessions wh rc ss sar c w = (Some (s, g), w')"
  obtains ra where "sar_ResourceAttributes sar = Some ra" "s \<in> set ss" "HasSuffix g (GrantedGroup (bs_spec s))"
    "wh_sar_create wh rc (session_sar g ra) = Inr True"
  using assms by (auto simp: authorizeViaSessions_def split: if_splits option.splits dest!: try_sessions_Some)

lemma session_phase_Some:
  assumes "session_phase wh c sar ss sk w p = (Some (s, g), sk', w', p')"
  obtains rc ra where "sar_ResourceAttributes sar = Some ra" "s \<in> set ss" "HasSuffix g (GrantedGroup (bs_spec s))"
    "wh_sar_create wh rc (session_sar g ra) = Inr True"
  using assms
  by (auto simp: session_phase_def split: option.splits prod.splits sum.splits elim!: authorizeViaSessions_Some)

lemma final_answer_allowed [simp]:
  "sar_allowed (fst (final_answer wh c sar ss allowed rsn sk w)) = allowed"
  by (simp add: final_answer_def Let_def split: prod.splits)

lemma final_answer_decision [simp]: "is_decision (fst (final_answer wh c sar ss allowed rsn sk w))"
  by (simp add: final_answer_def Let_def split: prod.splits)

lemma rbac_phase_True:
  assumes "rbac_phase wh c sar gs w p = (Inr True, sk, p')"
  shows "\<exists>rc. wh_canDoFn wh rc gs sar c = Inr True"
  using assms by (auto simp: rbac_phase_def Let_def split: option.splits prod.splits sum.splits if_splits)

lemma escalation_phase_refuses: "escalation_phase now wh c sar w p = (Inl r, p') \<Longrightarrow> \<not> sar_allowed r \<and> \<not> is_decision r"
  by (auto simp: escalation_phase_def Let_def split: prod.splits sum.splits option.splits if_splits)

lemma decide_phase_allowed:
  assumes "sar_allowed (fst (decide_phase now wh c sar gs ss w p))"
  shows "(\<exists>rc. wh_canDoFn wh rc gs sar c = Inr True) \<or>
    (\<exists>rc ra s g. sar_ResourceAttributes sar = Some ra \<and> s \<in> set ss \<and> HasSuffix g (GrantedGroup (bs_spec s)) \<and>
       wh_sar_create wh rc (session_sar g ra) = Inr True)"
proof -
  obtain r sk p1 where rb: "rbac_phase wh c sar gs w p = (r, sk, p1)" by (metis prod_cases3)
  show ?thesis
  proof (cases r)
    case (Inl e)
    with assms rb show ?thesis by (simp add: decide_phase_def)
  next
    case (Inr can)
    show ?thesis
    proof (cases can)
      case True
      with rb Inr have "rbac_phase wh c sar gs w p = (Inr True, sk, p1)" by simp
      from rbac_phase_True [OF this] show ?thesis by blast
    next
      case False
      obtain hit sk2 w2 p2 where sp: "session_phase wh c sar ss sk w p1 = (hit, sk2, w2, p2)" by (metis prod_cases4)
      obtain e p3 where ep: "escalation_phase now wh c sar w2 p2 = (e, p3)" by force
      have "hit \<noteq> None"
      proof (cases e)
        case (Inl r')
        then have ep': "escalation_phase now wh c sar w2 p2 = (Inl r', p3)" using ep by simp
        from escalation_phase_refuses [OF this] assms rb \<open>r = Inr can\<close> False sp ep' show ?thesis
          by (simp add: decide_phase_def)
      next
        case (Inr es)
        have "sar_allowed (fst (decide_phase now wh c sar gs ss w p)) = (hit \<noteq> None)"
          using rb \<open>r = Inr can\<close> False sp ep Inr
          by (simp add: decide_phase_def Let_def case_prod_beta del: not_None_eq)
        with assms show ?thesis by simp
      qed
      then obtain s g where "hit = Some (s, g)" by force
      with sp session_phase_Some show ?thesis by metis
    qed
  qed
qed

lemma handleAuthorize_run:
  assumes "getSessions now (wh_client wh) (sar_User sar) c w = Inr ss" "lookup_tenant wh c w p = (tn, p1)"
  obtains w2 where "api w2 = api w"
    "handleAuthorize now wh c (Some sar) w p =
       (case deny_phase wh c sar (map (\<lambda>s. GrantedGroup (bs_spec s)) ss) ss tn w2 of
          Some (r, w3) \<Rightarrow> (r, w3, p1)
        | None \<Rightarrow> decide_phase now wh c sar (map (\<lambda>s. GrantedGroup (bs_spec s)) ss) ss w2 p1)"
proof -
  let ?w2 = "count_request c sar (inc_metric (WebhookSARRequests c) w)"
  have api: "api ?w2 = api w" by simp
  have "getUserGroupsAndSessions now wh (sar_User sar) c ?w2 p =
      (Inr (map (\<lambda>s. GrantedGroup (bs_spec s)) ss, ss, tn), p1)"
    using assms getSessions_api [OF api] lookup_tenant_api [OF api] by (simp add: getUserGroupsAndSessions_def)
  then show ?thesis by (intro that [OF api]) (simp add: handleAuthorize_def Let_def)
qed

lemma handleAuthorize_session_error:
  assumes "getSessions now (wh_client wh) (sar_User sar) c w = Inl e"
  shows "fst (handleAuthorize now wh c (Some sar) w p) = SARStatus 500"
proof -
  have "getSessions now (wh_client wh) (sar_User sar) c (count_request c sar (inc_metric (WebhookSARRequests c) w)) = Inl e"
    using assms getSessions_api by (metis count_request_api inc_metric_fields(1))
  then show ?thesis by (simp add: handleAuthorize_def getUserGroupsAndSessions_def Let_def)
qed

lemma authorize_allowed_cases:
  assumes "kube_sessions (wh_client wh) sessions ok"
    and "sar_allowed (fst (handleAuthorize now wh c (Some sar) w p))"
  shows "\<exists>ss tn p1. getSessions now (wh_client wh) (sar_User sar) c w = Inr ss \<and> lookup_tenant wh c w p = (tn, p1) \<and>
     (\<forall>ra ps pol sess. sar_ResourceAttributes sar = Some ra \<longrightarrow> list_denypolicies (wh_client wh) (api w) = Inr ps \<longrightarrow>
        pol \<in> set ps \<longrightarrow> sess = [] \<or> sess \<in> (\<lambda>s. Name (bs_meta s)) ` set ss \<longrightarrow>
        \<not> policy_denies (action_of ra c tn sess) pol) \<and>
     ((\<exists>rc. wh_canDoFn wh rc (map (\<lambda>s. GrantedGroup (bs_spec s)) ss) sar c = Inr True) \<or>
      (\<exists>rc ra s g. sar_ResourceAttributes sar = Some ra \<and> s \<in> set (sessions (api w)) \<and>
         User (bs_spec s) = sar_User sar \<and> Cluster (bs_spec s) = c \<and> live now s \<and>
         HasSuffix g (GrantedGroup (bs_spec s)) \<and> wh_sar_create wh rc (session_sar g ra) = Inr True))"
proof -
  obtain ss where ss: "getSessions now (wh_client wh) (sar_User sar) c w = Inr ss"
    using assms(2) handleAuthorize_session_error [of now wh sar c w _ p]
    by (cases "getSessions now (wh_client wh) (sar_User sar) c w") auto
  obtain tn p1 where tn: "lookup_tenant wh c w p = (tn, p1)" by force
  obtain w2 where api: "api w2 = api w" and run: "handleAuthorize now wh c (Some sar) w p =
       (case deny_phase wh c sar (map (\<lambda>s. GrantedGroup (bs_spec s)) ss) ss tn w2 of
          Some (r, w3) \<Rightarrow> (r, w3, p1)
        | None \<Rightarrow> decide_phase now wh c sar (map (\<lambda>s. GrantedGroup (bs_spec s)) ss) ss w2 p1)"
    by (rule handleAuthorize_run [OF ss tn])
  have dp: "deny_phase wh c sar (map (\<lambda>s. GrantedGroup (bs_spec s)) ss) ss tn w2 = None"
    using assms(2) deny_phase_refuses
    by (cases "deny_phase wh c sar (map (\<lambda>s. GrantedGroup (bs_spec s)) ss) ss tn w2") (fastforce simp: run)+
  then have dec: "sar_allowed (fst (decide_phase now wh c sar (map (\<lambda>s. GrantedGroup (bs_spec s)) ss) ss w2 p1))"
    using assms(2) by (simp add: run)
  have mem: "\<And>s. s \<in> set ss \<longleftrightarrow> s \<in> set (sessions (api w)) \<and> User (bs_spec s) = sar_User sar \<and>
      Cluster (bs_spec s) = c \<and> live now s"
    using kube_sessions.getSessions_mem_iff [OF assms(1) ss] .
  show ?thesis
    using ss tn deny_phase_None [OF dp] api decide_phase_allowed [OF dec] mem by auto
qed

subsection \<open>A concrete webhook\<close>

definition ex_ra :: ResourceAttributes where
  "ex_ra = \<lparr>ra_Namespace = ''default'', ra_Verb = ''get'', ra_Group = [], ra_Resource = ''pods'',
     ra_Subresource = [], ra_Name = ''p1''\<rparr>"

definition ex_sar :: SubjectAccessReview where
  "ex_sar = \<lparr>sar_APIVersion = ''v1'', sar_Kind = ''SubjectAccessReview'', sar_User = ''dev@ex.org'',
     sar_Groups = [''dev''], sar_ResourceAttributes = Some ex_ra, sar_NonResourceAttributes = None\<rparr>"

definition ex_deny_policy :: DenyPolicy where
  "ex_deny_policy = \<lparr>dp_meta = zero_meta\<lparr>Name := ''no-pods''\<rparr>,
     dp_spec = \<lparr>AppliesTo = None, Rules = [\<lparr>Verbs = [''*''], APIGroups = [[]], Resources = [''pods''],
       Namespaces = [], ResourceNames = [], Subresources = []\<rparr>], Precedence = None\<rparr>,
     dp_status = \<lparr>RuleCount = 1, Compiled = True, LastCompile = 0\<rparr>\<rparr>"

text \<open>RBAC of the target cluster grants nothing by itself; a review for the group \<^verbatim>\<open>admin\<close> is allowed.\<close>

definition ex_wh :: "mem_api WebhookController" where
  "ex_wh = \<lparr>wh_client = mem_client,
     wh_config = zero_Config\<lparr>cfg_Frontend := (cfg_Frontend zero_Config)\<lparr>BaseURL := ''https://bg''\<rparr>\<rparr>,
     wh_load = (zero_Config, None),
     wh_canDoFn = CanGroupsDo (\<lambda>rc gs. None) (\<lambda>rc gs ra. Inr False),
     wh_provider = Some ex_deps,
     wh_new_clientset = (\<lambda>rc. None),
     wh_sar_create = (\<lambda>rc sar. Inr (sar_Groups sar = [''admin'']))\<rparr>"

definition ex_wh_world :: "BreakglassSession list \<Rightarrow> DenyPolicy list \<Rightarrow> mem_api world" where
  "ex_wh_world ss ps = \<lparr>api = (ex_api ss ps)\<lparr>m_clusterconfigs := [ex_cluster_config]\<rparr>, counters = [], outbox = []\<rparr>"

subsection \<open>Properties\<close>

text \<open>An allowed request is justified: no deny policy forbids it, for the request itself or for one of
  the user's sessions, and either the RBAC check on the target cluster allowed the groups granted by
  the user's live sessions, or a live session of this user for this cluster exists and the target
  cluster allowed the action to that session's granted group, possibly with a configured prefix.\<close>

theorem authorize_allowed_justified:
  assumes "kube_sessions (wh_client wh) sessions ok"
    and "sar_allowed (fst (handleAuthorize now wh c (Some sar) w p))"
  shows "\<exists>ss tn p1. getSessions now (wh_client wh) (sar_User sar) c w = Inr ss \<and> lookup_tenant wh c w p = (tn, p1) \<and>
     (\<forall>ra ps pol sess. sar_ResourceAttributes sar = Some ra \<longrightarrow> list_denypolicies (wh_client wh) (api w) = Inr ps \<longrightarrow>
        pol \<in> set ps \<longrightarrow> sess = [] \<or> sess \<in> (\<lambda>s. Name (bs_meta s)) ` set ss \<longrightarrow>
        \<not> policy_denies (action_of ra c tn sess) pol) \<and>
     ((\<exists>rc. wh_canDoFn wh rc (map (\<lambda>s. GrantedGroup (bs_spec s)) ss) sar c = Inr True) \<or>
      (\<exists>rc ra s g. sar_ResourceAttributes sar = Some ra \<and> s \<in> set (sessions (api w)) \<and>
         User (bs_spec s) = sar_User sar \<and> Cluster (bs_spec s) = c \<and> live now s \<and>
         HasSuffix g (GrantedGroup (bs_spec s)) \<and> wh_sar_create wh rc (session_sar g ra) = Inr True))"
  using authorize_allowed_cases [OF assms] .

theorem authorize_allowed_justified_witness:
  "\<exists>rc ra s g. s \<in> set [ex_approved] \<and> live ex_now s \<and> wh_sar_create ex_wh rc (session_sar g ra) = Inr True"
proof -
  let ?w = "ex_wh_world [ex_approved] []"
  have k: "kube_sessions (wh_client ex_wh) m_sessions mem_wf"
    using mem.kube_sessions_axioms by (simp add: ex_wh_def)
  have a: "sar_allowed (fst (handleAuthorize ex_now ex_wh ''prod'' (Some ex_sar) ?w NewClientProvider))" by code_simp
  have no: "\<And>rc gs. wh_canDoFn ex_wh rc gs ex_sar ''prod'' \<noteq> Inr True"
    by (auto simp: ex_wh_def CanGroupsDo_def ex_sar_def split: option.splits)
  have "m_sessions (api ?w) = [ex_approved]" by (simp add: ex_wh_world_def ex_api_def)
  with authorize_allowed_justified [OF k a] no show ?thesis by auto
qed

text \<open>C13. Deny policies win: when the policies can be listed and one of them forbids the requested action,
  for the request or for one of the user's live sessions, the request is not allowed, whatever RBAC or
  sessions would grant.\<close>

theorem deny_policy_wins:
  assumes "getSessions now (wh_client wh) (sar_User sar) c w = Inr ss" "lookup_tenant wh c w p = (tn, p1)"
    and "sar_ResourceAttributes sar = Some ra" "list_denypolicies (wh_client wh) (api w) = Inr ps" "pol \<in> set ps"
    and "sess = [] \<or> sess \<in> (\<lambda>s. Name (bs_meta s)) ` set ss" "policy_denies (action_of ra c tn sess) pol"
  shows "\<not> sar_allowed (fst (handleAuthorize now wh c (Some sar) w p))"
proof -
  obtain w2 where api: "api w2 = api w" and run: "handleAuthorize now wh c (Some sar) w p =
       (case deny_phase wh c sar (map (\<lambda>s. GrantedGroup (bs_spec s)) ss) ss tn w2 of
          Some (r, w3) \<Rightarrow> (r, w3, p1)
        | None \<Rightarrow> decide_phase now wh c sar (map (\<lambda>s. GrantedGroup (bs_spec s)) ss) ss w2 p1)"
    by (rule handleAuthorize_run [OF assms(1,2)])
  obtain x where x: "deny_phase wh c sar (map (\<lambda>s. GrantedGroup (bs_spec s)) ss) ss tn w2 = Some x"
    using deny_phase_None [OF _ assms(3) _ assms(5,6)] assms(4,7) api by fastforce
  from deny_phase_refuses [OF x] x show ?thesis by (cases x) (simp add: run)
qed

theorem deny_policy_wins_witness:
  "\<not> sar_allowed (fst (handleAuthorize ex_now ex_wh ''prod'' (Some ex_sar) (ex_wh_world [ex_approved] [ex_deny_policy]) NewClientProvider))"
proof -
  let ?w = "ex_wh_world [ex_approved] [ex_deny_policy]"
  have ss: "getSessions ex_now (wh_client ex_wh) (sar_User ex_sar) ''prod'' ?w = Inr [ex_approved]" by code_simp
  obtain tn p1 where tn: "lookup_tenant ex_wh ''prod'' ?w NewClientProvider = (tn, p1)" by force
  show ?thesis
  proof (rule deny_policy_wins [OF ss tn, of ex_ra "[ex_deny_policy]" ex_deny_policy "[]"])
    show "policy_denies (action_of ex_ra ''prod'' tn []) ex_deny_policy"
      by (simp add: policy_denies_def ex_deny_policy_def scopeMatches_def ruleMatches_iff contains_iff
          action_of_def ex_ra_def)
  qed (simp_all add: ex_sar_def ex_wh_def ex_wh_world_def ex_api_def mem_client_def)
qed



text \<open>A request allowed through a session is explained with the text of a denial whenever the user has
  an escalation path, although the answer says allowed.\<close>

theorem session_allow_reason_says_denied:
  assumes "rbac_phase wh c sar gs w p = (Inr False, sk, p1)"
    and "session_phase wh c sar ss sk w p1 = (Some (s, g), sk2, w2, p2)"
    and "escalation_phase now wh c sar w2 p2 = (Inr (e # es), p3)"
  shows "sar_allowed (fst (decide_phase now wh c sar gs ss w p)) \<and>
    HasPrefix (sar_reason (fst (decide_phase now wh c sar gs ss w p))) ''Access denied.''"
proof -
  have fin: "HasPrefix (finalizeReason cfg (denyReasonMessage b c) True c) ''Access denied.''" for cfg b
    by (auto simp: finalizeReason_def Let_def denyReasonMessage_def)
  have ans: "fst (final_answer wh c sar ss True (denyReasonMessage b c) sk2 w2) =
      SARDecision (sar_APIVersion sar) (sar_Kind sar) True (finalizeReason (wh_config wh) (denyReasonMessage b c) True c)" for b
    by (simp add: final_answer_def Let_def)
  have ne: "denyReasonMessage b c \<noteq> []" for b by (simp add: denyReasonMessage_def)
  show ?thesis
    using assms by (simp add: decide_phase_def Let_def case_prod_beta ans ne fin)
qed

theorem session_allow_reason_says_denied_witness:
  "\<exists>now gs ss w p. sar_allowed (fst (decide_phase now ex_wh ''prod'' ex_sar gs ss w p)) \<and>
     HasPrefix (sar_reason (fst (decide_phase now ex_wh ''prod'' ex_sar gs ss w p))) ''Access denied.''"
proof -
  let ?esc = "ex_escalation\<lparr>be_spec := (be_spec ex_escalation)\<lparr>Allowed := \<lparr>Clusters = [''prod''], Groups = [''system:authenticated'']\<rparr>\<rparr>\<rparr>"
  let ?w = "(ex_wh_world [ex_approved] [])\<lparr>api := (api (ex_wh_world [ex_approved] []))\<lparr>m_escalations := [?esc]\<rparr>\<rparr>"
  let ?rb = "rbac_phase ex_wh ''prod'' ex_sar [''admin''] ?w NewClientProvider"
  let ?sp = "session_phase ex_wh ''prod'' ex_sar [ex_approved] (fst (snd ?rb)) ?w (snd (snd ?rb))"
  let ?ep = "escalation_phase ex_now ex_wh ''prod'' ex_sar (fst (snd (snd ?sp))) (snd (snd (snd ?sp)))"
  have "fst ?rb = Inr False" by code_simp
  then have rb: "?rb = (Inr False, fst (snd ?rb), snd (snd ?rb))" by (metis prod.collapse)
  have "fst ?sp \<noteq> None" by code_simp
  then obtain s g where "fst ?sp = Some (s, g)" by force
  then have sp: "?sp = (Some (s, g), fst (snd ?sp), fst (snd (snd ?sp)), snd (snd (snd ?sp)))" by (metis prod.collapse)
  have "\<not> isl (fst ?ep)" "projr (fst ?ep) \<noteq> []" by code_simp+
  then obtain e es where "fst ?ep = Inr (e # es)" by (metis list.exhaust sum.collapse(2))
  then have ep: "?ep = (Inr (e # es), snd ?ep)" by (metis prod.collapse)
  from session_allow_reason_says_denied [OF rb sp ep] show ?thesis by (intro exI)
qed

text \<open>An RBAC-allowed resource request is counted twice as a decision, once with source rbac and once
  with source session, although no session was involved.\<close>

theorem rbac_allow_counted_twice:
  assumes "rbac_phase wh c sar gs w p = (Inr True, sk, p1)" "sar_ResourceAttributes sar = Some ra"
  shows "counters (fst (snd (decide_phase now wh c sar gs ss w p))) = counters w @
    [decision_metric c ra ''allowed'' ''rbac'', WebhookSARAllowed c, decision_metric c ra ''allowed'' ''session'']"
  using assms by (simp add: decide_phase_def final_answer_def Let_def)

theorem rbac_allow_counted_twice_witness:
  "\<exists>now gs ss w p. counters (fst (snd (decide_phase now (ex_wh\<lparr>wh_canDoFn := (\<lambda>rc gs sar c. Inr True)\<rparr>) ''prod'' ex_sar gs ss w p))) =
     counters w @ [decision_metric ''prod'' ex_ra ''allowed'' ''rbac'', WebhookSARAllowed ''prod'',
       decision_metric ''prod'' ex_ra ''allowed'' ''session'']"
proof -
  let ?wh = "ex_wh\<lparr>wh_canDoFn := (\<lambda>rc gs sar c. Inr True)\<rparr>"
  let ?w = "ex_wh_world [] []"
  let ?rb = "rbac_phase ?wh ''prod'' ex_sar [] ?w NewClientProvider"
  have "fst ?rb = Inr True" by code_simp
  then have rb: "?rb = (Inr True, fst (snd ?rb), snd (snd ?rb))" by (metis prod.collapse)
  have "sar_ResourceAttributes ex_sar = Some ex_ra" by (simp add: ex_sar_def)
  from rbac_allow_counted_twice [OF rb this] show ?thesis by (intro exI)
qed

end
