(* ===== verification/Approver.thy ===== *)
theory Approver
  imports ExampleData
begin

text \<open>
  \<^verbatim>\<open>isSessionApprover\<close> of \<^verbatim>\<open>session_controller.go\<close>: whether the caller may decide about a session.
  The loop over the escalations of the session's cluster is written with the source's early
  continues; \<open>may_approve\<close> says declaratively what it decides, and the two agree.
\<close>

subsection \<open>The loop\<close>

text \<open>Cluster configuration first, overridden by the escalation.\<close>

definition effective_settings ::
  "'w client \<Rightarrow> BreakglassSession \<Rightarrow> BreakglassEscalation \<Rightarrow> 'w world \<Rightarrow> bool \<times> string list" where
  "effective_settings cl session esc w =
     (let (block0, domains0) =
            (case GetClusterConfigInNamespace cl (Namespace (be_meta esc)) (Cluster (bs_spec session)) w of
               Inr cc \<Rightarrow> (BlockSelfApproval (cc_spec cc), AllowedApproverDomains (cc_spec cc))
             | Inl _ \<Rightarrow> (False, []));
          block1 = (case EscBlockSelfApproval (be_spec esc) of Some b \<Rightarrow> b | None \<Rightarrow> block0);
          domains1 = (if length (EscAllowedApproverDomains (be_spec esc)) > 0
                      then EscAllowedApproverDomains (be_spec esc) else domains0)
      in (block1, domains1))"

fun domain_loop :: "string \<Rightarrow> string list \<Rightarrow> bool" where
  "domain_loop email [] = False"
| "domain_loop email (d # ds) =
     (if HasSuffix (ToLower email) (''@'' @ ToLower d) then True else domain_loop email ds)"

fun group_loop :: "string list \<Rightarrow> string list \<Rightarrow> bool" where
  "group_loop escGroups [] = False"
| "group_loop escGroups (g # gs) = (if SlicesContains escGroups g then True else group_loop escGroups gs)"

fun approver_loop ::
  "'w client \<Rightarrow> string \<Rightarrow> string list \<Rightarrow> BreakglassSession \<Rightarrow> 'w world \<Rightarrow> BreakglassEscalation list \<Rightarrow> bool" where
  "approver_loop cl email approverGroups session w [] = False"
| "approver_loop cl email approverGroups session w (esc # escs) =
     (let continue = approver_loop cl email approverGroups session w escs in
      if EscalatedGroup (be_spec esc) \<noteq> GrantedGroup (bs_spec session) then continue else
      (case effective_settings cl session esc w of (effectiveBlockSelf, effectiveAllowedDomains) \<Rightarrow>
         if effectiveBlockSelf \<and> email = User (bs_spec session) then continue
         else if length effectiveAllowedDomains > 0 \<and> \<not> domain_loop email effectiveAllowedDomains then continue
         else if SlicesContains (ApproverUsers (EscApprovers (be_spec esc))) email then True
         else if group_loop (ApproverGroups (EscApprovers (be_spec esc))) approverGroups then True
         else continue))"

text \<open>Token groups are preferred; without a group entry in the context a failed lookup refuses, with an
  empty entry the outcome of the lookup is used and its error ignored.\<close>

definition approver_groups ::
  "'w BreakglassSessionController \<Rightarrow> request_context \<Rightarrow> BreakglassSession \<Rightarrow> string list option" where
  "approver_groups wc c session =
     (let looked_up = wc_getUserGroupsFn wc \<lparr>cug_Clustername = Cluster (bs_spec session),
                        cug_Username = ctx_email c, cug_GroupName = []\<rparr>;
          gs = (case looked_up of Inr gs \<Rightarrow> gs | Inl _ \<Rightarrow> [])
      in case ctx_groups c of
           Some arr \<Rightarrow> if length arr > 0 then Some arr else Some gs
         | None \<Rightarrow> (case looked_up of Inl _ \<Rightarrow> None | Inr _ \<Rightarrow> Some gs))"

definition isSessionApprover ::
  "'w BreakglassSessionController \<Rightarrow> request_context \<Rightarrow> BreakglassSession \<Rightarrow> 'w world \<Rightarrow> bool" where
  "isSessionApprover wc c session w =
     (case GetEmail c of
        Inl _ \<Rightarrow> False
      | Inr email \<Rightarrow>
          (case approver_groups wc c session of
             None \<Rightarrow> False
           | Some approverGroups \<Rightarrow>
               (case GetClusterBreakglassEscalations (wc_client wc) (Cluster (bs_spec session)) w of
                  Inl _ \<Rightarrow> False
                | Inr escalations \<Rightarrow>
                    approver_loop (wc_client wc) email approverGroups session w escalations)))"

subsection \<open>What it decides\<close>

definition self_approval_blocked ::
  "'w client \<Rightarrow> BreakglassSession \<Rightarrow> BreakglassEscalation \<Rightarrow> 'w world \<Rightarrow> bool" where
  "self_approval_blocked cl session esc w \<longleftrightarrow>
     EscBlockSelfApproval (be_spec esc) = Some True \<or>
     (EscBlockSelfApproval (be_spec esc) = None \<and>
      (\<exists>cc. GetClusterConfigInNamespace cl (Namespace (be_meta esc)) (Cluster (bs_spec session)) w = Inr cc \<and>
            BlockSelfApproval (cc_spec cc)))"

definition allowed_domains ::
  "'w client \<Rightarrow> BreakglassSession \<Rightarrow> BreakglassEscalation \<Rightarrow> 'w world \<Rightarrow> string set" where
  "allowed_domains cl session esc w =
     (if EscAllowedApproverDomains (be_spec esc) \<noteq> [] then set (EscAllowedApproverDomains (be_spec esc))
      else {d. \<exists>cc. GetClusterConfigInNamespace cl (Namespace (be_meta esc)) (Cluster (bs_spec session)) w = Inr cc \<and>
               d \<in> set (AllowedApproverDomains (cc_spec cc))})"

definition in_domain :: "string \<Rightarrow> string \<Rightarrow> bool" where
  "in_domain email d \<longleftrightarrow> (\<exists>local. ToLower email = local @ ''@'' @ ToLower d)"

definition may_approve ::
  "'w client \<Rightarrow> string \<Rightarrow> string set \<Rightarrow> BreakglassSession \<Rightarrow> 'w world \<Rightarrow> BreakglassEscalation \<Rightarrow> bool" where
  "may_approve cl email gs session w esc \<longleftrightarrow>
     EscalatedGroup (be_spec esc) = GrantedGroup (bs_spec session) \<and>
     (email = User (bs_spec session) \<longrightarrow> \<not> self_approval_blocked cl session esc w) \<and>
     (allowed_domains cl session esc w = {} \<or> (\<exists>d \<in> allowed_domains cl session esc w. in_domain email d)) \<and>
     (email \<in> set (ApproverUsers (EscApprovers (be_spec esc))) \<or>
      gs \<inter> set (ApproverGroups (EscApprovers (be_spec esc))) \<noteq> {})"

lemma domain_loop_iff: "domain_loop email ds \<longleftrightarrow> (\<exists>d \<in> set ds. in_domain email d)"
  by (induction email ds rule: domain_loop.induct) (auto simp: in_domain_def suffix_def)

lemma group_loop_iff: "group_loop eg gs \<longleftrightarrow> set gs \<inter> set eg \<noteq> {}"
  by (induction eg gs rule: group_loop.induct) auto

lemma effective_settings_spec:
  "effective_settings cl session esc w = (b, ds) \<Longrightarrow>
   b = self_approval_blocked cl session esc w \<and> set ds = allowed_domains cl session esc w"
  by (auto simp: effective_settings_def self_approval_blocked_def allowed_domains_def Let_def
      split: prod.splits sum.splits option.splits if_splits)

lemma approver_loop_iff:
  "approver_loop cl email gs session w escs \<longleftrightarrow> (\<exists>esc \<in> set escs. may_approve cl email (set gs) session w esc)"
proof (induction escs)
  case (Cons esc escs)
  obtain b ds where st: "effective_settings cl session esc w = (b, ds)" by force
  have spec: "b = self_approval_blocked cl session esc w" "set ds = allowed_domains cl session esc w"
    using effective_settings_spec [OF st] by auto
  have "may_approve cl email (set gs) session w esc \<longleftrightarrow>
      EscalatedGroup (be_spec esc) = GrantedGroup (bs_spec session) \<and>
      \<not> (b \<and> email = User (bs_spec session)) \<and>
      \<not> (length ds > 0 \<and> \<not> domain_loop email ds) \<and>
      (SlicesContains (ApproverUsers (EscApprovers (be_spec esc))) email \<or>
       group_loop (ApproverGroups (EscApprovers (be_spec esc))) gs)"
    unfolding may_approve_def spec(1) spec(2) [symmetric] domain_loop_iff group_loop_iff
    by auto
  then have "approver_loop cl email gs session w (esc # escs) \<longleftrightarrow>
      may_approve cl email (set gs) session w esc \<or> approver_loop cl email gs session w escs"
    unfolding approver_loop.simps st Let_def prod.case by (simp split: if_split)
  with Cons show ?case by simp
qed simp

lemma isSessionApprover_iff:
  "isSessionApprover wc c session w \<longleftrightarrow>
     ctx_email c \<noteq> [] \<and>
     (\<exists>gs escs. approver_groups wc c session = Some gs \<and>
        GetClusterBreakglassEscalations (wc_client wc) (Cluster (bs_spec session)) w = Inr escs \<and>
        (\<exists>esc \<in> set escs. may_approve (wc_client wc) (ctx_email c) (set gs) session w esc))"
  by (auto simp: isSessionApprover_def approver_loop_iff GetEmail_def split: option.splits sum.splits)

subsection \<open>Properties\<close>

text \<open>C19. The approver check succeeds exactly when the caller has an email, the caller's groups are
  known, the escalations of the session's cluster can be listed, and one of them grants the session's
  group, does not block this caller as self-approver, accepts the caller's mail domain, and names the
  caller or one of the caller's groups as approver.\<close>

theorem isSessionApprover_spec:
  "isSessionApprover wc c session w \<longleftrightarrow>
     ctx_email c \<noteq> [] \<and>
     (\<exists>gs escs. approver_groups wc c session = Some gs \<and>
        GetClusterBreakglassEscalations (wc_client wc) (Cluster (bs_spec session)) w = Inr escs \<and>
        (\<exists>esc \<in> set escs. may_approve (wc_client wc) (ctx_email c) (set gs) session w esc))"
  by (rule isSessionApprover_iff)

text \<open>Nobody approves the own session when every stored escalation for that group blocks
  self-approval, by its own setting or through the cluster configuration in its namespace.\<close>

theorem self_approval_blocked_refused:
  assumes "escalation_listing (wc_client wc) stored"
    and "ctx_email c = User (bs_spec session)"
    and "\<forall>esc \<in> set (stored (api w)). EscalatedGroup (be_spec esc) = GrantedGroup (bs_spec session) \<longrightarrow>
           self_approval_blocked (wc_client wc) session esc w"
  shows "\<not> isSessionApprover wc c session w"
proof
  assume "isSessionApprover wc c session w"
  then obtain gs escs esc where
    l: "GetClusterBreakglassEscalations (wc_client wc) (Cluster (bs_spec session)) w = Inr escs"
    and esc: "esc \<in> set escs" "may_approve (wc_client wc) (ctx_email c) (set gs) session w esc"
    by (auto simp: isSessionApprover_iff)
  from escalation_listing.cluster_lookup_sound [OF assms(1) l] esc(1)
  have "esc \<in> set (stored (api w))" by blast
  with assms(2,3) esc(2) show False by (auto simp: may_approve_def)
qed

theorem self_approval_blocked_refused_witness:
  "\<not> isSessionApprover ex_wc ex_dev ex_pending (ex_world [ex_pending])"
proof (rule self_approval_blocked_refused [where stored = m_escalations])
  show "escalation_listing (wc_client ex_wc) m_escalations"
    using mem_escalations.escalation_listing_axioms by (simp add: ex_wc_def)
  show "ctx_email ex_dev = User (bs_spec ex_pending)" by (simp add: ex_dev_def ex_pending_def zero_spec_def)
  show "\<forall>esc \<in> set (m_escalations (api (ex_world [ex_pending]))).
      EscalatedGroup (be_spec esc) = GrantedGroup (bs_spec ex_pending) \<longrightarrow>
      self_approval_blocked (wc_client ex_wc) ex_pending esc (ex_world [ex_pending])"
    by (simp add: ex_world_def ex_api_def self_approval_blocked_def ex_escalation_def)
qed

end
