(* ===== verification/SessionController.thy ===== *)
theory SessionController
  imports Approver
begin

text \<open>
  The handlers of \<^verbatim>\<open>pkg/breakglass/session_controller.go\<close> that act on an existing session: approve
  and reject (\<^verbatim>\<open>setSessionStatus\<close>), withdraw, drop, cancel, and the read-only ones.  A handler
  takes the clock reading, the controller, the caller, the path and body parameters and the world,
  and returns the HTTP response with the new world.  The status that a handler writes is a
  function of its own (\<open>approve_status\<close>, ...), so that the life-cycle theory can speak about it.

  The decoded body is an argument: \<open>reason\<close> is the field after the decoding attempt, empty when
  there was no body or it did not parse.
\<close>

subsection \<open>Responses\<close>

datatype response =
    StatusOnly int
  | JSONText int string
  | JSONErrorSession int string BreakglassSession
  | JSONError int string
  | JSONSession int BreakglassSession
  | JSONSessions int "BreakglassSession list"
  | JSONInvalid int
  | JSONToken int bool bool bool
  | JSONStrings int "string list"
  | JSONEscalations int "BreakglassEscalation list"
  | Panic string

text \<open>A panic is answered with status 500 by gin's recovery middleware.\<close>

fun status_code :: "response \<Rightarrow> int" where
  "status_code (StatusOnly n) = n"
| "status_code (JSONText n t) = n"
| "status_code (JSONErrorSession n t s) = n"
| "status_code (JSONError n t) = n"
| "status_code (JSONSession n s) = n"
| "status_code (JSONSessions n ss) = n"
| "status_code (JSONInvalid n) = n"
| "status_code (JSONToken n a b v) = n"
| "status_code (JSONStrings n ss) = n"
| "status_code (JSONEscalations n es) = n"
| "status_code (Panic t) = 500"

subsection \<open>Approve and reject\<close>

definition record_approver :: "string \<Rightarrow> BreakglassSessionStatus \<Rightarrow> BreakglassSessionStatus" where
  "record_approver email st =
     (if email \<noteq> [] then
        st\<lparr>Approver := email,
           Approvers := (if SlicesContains (Approvers st) email then Approvers st else Approvers st @ [email])\<rparr>
      else st)"

definition store_reason :: "string \<Rightarrow> BreakglassSessionStatus \<Rightarrow> BreakglassSessionStatus" where
  "store_reason reason st = (if TrimSpace reason \<noteq> [] then st\<lparr>ApprovalReason := reason\<rparr> else st)"

definition add_condition ::
  "instant \<Rightarrow> BreakglassSessionConditionType \<Rightarrow> string \<Rightarrow> string \<Rightarrow> BreakglassSessionStatus \<Rightarrow> BreakglassSessionStatus" where
  "add_condition now ty rsn msg st =
     st\<lparr>Conditions := Conditions st @ [\<lparr>CondType = condition_type_string ty, CondStatus = ''True'',
          LastTransitionTime = now, CondReason = rsn, CondMessage = msg\<rparr>]\<rparr>"

definition set_condition_message :: "string \<Rightarrow> BreakglassSessionConditionType \<Rightarrow> string" where
  "set_condition_message username ty =
     ''User '' @ Quote username @ '' set session to '' @ condition_type_string ty"

definition status_guard :: "BreakglassSessionConditionType \<Rightarrow> BreakglassSession \<Rightarrow> response option" where
  "status_guard sesCondition bs =
     (let conds = Conditions (bs_status bs);
          lastType = (if length conds > 0 then CondType (last conds) else []);
          currState = State (bs_status bs)
      in if lastType = condition_type_string sesCondition
         then Some (JSONErrorSession 409 ''session already in requested state'' bs)
         else if sesCondition = SessionConditionTypeApproved \<or> sesCondition = SessionConditionTypeRejected
         then if currState \<noteq> SessionStatePending
              then Some (JSONErrorSession 400 (''session must be pending to perform '' @
                     condition_type_string sesCondition @ ''; current state: '' @ state_string currState) bs)
              else None
         else if currState = SessionStateRejected \<or> currState = SessionStateWithdrawn \<or>
                 currState = SessionStateExpired \<or> currState = SessionStateTimeout
         then Some (JSONErrorSession 400 (''session is in terminal state '' @ state_string currState @
                     '' and cannot be modified'') bs)
         else None)"

text \<open>The requester may reject the own pending session; everybody else needs approver rights.\<close>

definition allow_owner_reject ::
  "request_context \<Rightarrow> BreakglassSessionConditionType \<Rightarrow> BreakglassSession \<Rightarrow> bool" where
  "allow_owner_reject c sesCondition bs =
     (sesCondition = SessionConditionTypeRejected \<and>
      (case GetEmail c of
         Inr requesterEmail \<Rightarrow> requesterEmail = User (bs_spec bs) \<and> IsSessionPendingApproval bs
       | Inl _ \<Rightarrow> False))"

definition approve_status ::
  "instant \<Rightarrow> string \<Rightarrow> string \<Rightarrow> BreakglassSession \<Rightarrow> BreakglassSessionStatus" where
  "approve_status now email reason bs =
     (let validFor = duration_or_default (MaxValidFor (bs_spec bs)) DefaultValidForDuration;
          retainFor = duration_or_default (RetainFor (bs_spec bs)) DefaultRetainForDuration;
          st = (bs_status bs)\<lparr>RejectedAt := 0, ApprovedAt := now, ExpiresAt := now + validFor,
                 RetainedUntil := now + retainFor, TimeoutAt := 0, State := SessionStateApproved\<rparr>
      in add_condition now SessionConditionTypeApproved SessionConditionReasonEditedByApprover
           (set_condition_message email SessionConditionTypeApproved)
           (store_reason reason (record_approver email st)))"

definition reject_status ::
  "instant \<Rightarrow> string \<Rightarrow> string \<Rightarrow> BreakglassSession \<Rightarrow> BreakglassSessionStatus" where
  "reject_status now email reason bs =
     (let st = (bs_status bs)\<lparr>ApprovedAt := 0, ExpiresAt := 0, TimeoutAt := 0, RejectedAt := now,
                 State := SessionStateRejected, ReasonEnded := ''rejected''\<rparr>
      in add_condition now SessionConditionTypeRejected SessionConditionReasonEditedByApprover
           (set_condition_message email SessionConditionTypeRejected)
           (store_reason reason (record_approver email st)))"

definition bump_approval :: "BreakglassEscalation \<Rightarrow> BreakglassEscalation" where
  "bump_approval e =
     (let st = be_status e in
      e\<lparr>be_status := st\<lparr>ApprovalCount := (if ApprovalCount st = 0 then 1 else ApprovalCount st + 1)\<rparr>\<rparr>)"

text \<open>The approval counter of the owning escalation; a failed status write is ignored.\<close>

fun increment_approval_counts ::
  "'w BreakglassSessionController \<Rightarrow> BreakglassSession \<Rightarrow> OwnerReference list \<Rightarrow> 'w world \<Rightarrow> 'w world" where
  "increment_approval_counts wc bs [] w = w"
| "increment_approval_counts wc bs (r # rs) w =
     (let w' = (if or_Kind r = ''BreakglassEscalation'' then
                  (case GetClusterGroupBreakglassEscalations (wc_client wc) (wc_load wc) (Cluster (bs_spec bs)) [] w of
                     Inl _ \<Rightarrow> w
                   | Inr escs \<Rightarrow>
                       (case List.find (\<lambda>ee. Name (be_meta ee) = or_Name r) escs of
                          None \<Rightarrow> w
                        | Some ee \<Rightarrow> fst (UpdateBreakglassEscalationStatus (wc_client wc) (bump_approval ee) w)))
                else w)
      in increment_approval_counts wc bs rs w')"

text \<open>The common end of the handlers: write the status, answer 200 with the session or 500.\<close>

definition persist_session ::
  "'w BreakglassSessionController \<Rightarrow> BreakglassSession \<Rightarrow> 'w world \<Rightarrow> response \<times> 'w world" where
  "persist_session wc bs w =
     (case UpdateBreakglassSessionStatus (wc_client wc) bs w of
        (w', Some _) \<Rightarrow> (StatusOnly 500, w')
      | (w', None) \<Rightarrow> (JSONSession 200 bs, w'))"

definition setSessionStatus ::
  "instant \<Rightarrow> 'w BreakglassSessionController \<Rightarrow> request_context \<Rightarrow> string \<Rightarrow> string \<Rightarrow>
   BreakglassSessionConditionType \<Rightarrow> 'w world \<Rightarrow> response \<times> 'w world" where
  "setSessionStatus now wc c sessionName reason sesCondition w =
     (case GetBreakglassSessionByName (wc_client wc) sessionName w of
        Inl _ \<Rightarrow> (StatusOnly 500, w)
      | Inr bs \<Rightarrow>
          (case status_guard sesCondition bs of
             Some r \<Rightarrow> (r, w)
           | None \<Rightarrow>
               if \<not> allow_owner_reject c sesCondition bs \<and> \<not> isSessionApprover wc c bs w
               then (StatusOnly 401, w)
               else
                 (case sesCondition of
                    SessionConditionTypeApproved \<Rightarrow>
                      persist_session wc (bs\<lparr>bs_status := approve_status now (ctx_email c) reason bs\<rparr>)
                        (increment_approval_counts wc bs (bs_OwnerReferences bs) w)
                  | SessionConditionTypeRejected \<Rightarrow>
                      persist_session wc (bs\<lparr>bs_status := reject_status now (ctx_email c) reason bs\<rparr>) w
                  | SessionConditionTypeIdle \<Rightarrow> (StatusOnly 500, w)
                  | _ \<Rightarrow> (StatusOnly 500, w))))"

definition handleApproveBreakglassSession ::
  "instant \<Rightarrow> 'w BreakglassSessionController \<Rightarrow> request_context \<Rightarrow> string \<Rightarrow> string \<Rightarrow> 'w world \<Rightarrow> response \<times> 'w world" where
  "handleApproveBreakglassSession now wc c sessionName reason w =
     setSessionStatus now wc c sessionName reason SessionConditionTypeApproved w"

definition handleRejectBreakglassSession ::
  "instant \<Rightarrow> 'w BreakglassSessionController \<Rightarrow> request_context \<Rightarrow> string \<Rightarrow> string \<Rightarrow> 'w world \<Rightarrow> response \<times> 'w world" where
  "handleRejectBreakglassSession now wc c sessionName reason w =
     setSessionStatus now wc c sessionName reason SessionConditionTypeRejected w"

subsection \<open>Withdraw, drop, cancel\<close>

definition withdraw_status :: "instant \<Rightarrow> BreakglassSession \<Rightarrow> BreakglassSessionStatus" where
  "withdraw_status now bs =
     add_condition now SessionConditionTypeCanceled SessionConditionReasonEditedByApprover
       ''Session withdrawn by requester''
       ((bs_status bs)\<lparr>ApprovedAt := 0, ExpiresAt := 0, RejectedAt := now, State := SessionStateWithdrawn,
          ReasonEnded := ''withdrawn'', Approver := [], Approvers := []\<rparr>)"

definition handleWithdrawMyRequest ::
  "instant \<Rightarrow> 'w BreakglassSessionController \<Rightarrow> request_context \<Rightarrow> string \<Rightarrow> 'w world \<Rightarrow> response \<times> 'w world" where
  "handleWithdrawMyRequest now wc c sessionName w =
     (case GetBreakglassSessionByName (wc_client wc) sessionName w of
        Inl _ \<Rightarrow> (StatusOnly 500, w)
      | Inr bs \<Rightarrow>
          (case GetEmail c of
             Inl _ \<Rightarrow> (StatusOnly 500, w)
           | Inr requesterEmail \<Rightarrow>
               if User (bs_spec bs) \<noteq> requesterEmail then (StatusOnly 401, w)
               else if \<not> IsSessionPendingApproval bs
               then (JSONText 400 ''Session is not pending and cannot be withdrawn'', w)
               else persist_session wc (bs\<lparr>bs_status := withdraw_status now bs\<rparr>) w))"

definition drop_status :: "instant \<Rightarrow> BreakglassSession \<Rightarrow> BreakglassSessionStatus" where
  "drop_status now bs =
     (let st = bs_status bs in
      if State st = SessionStateApproved \<and> \<not> IsZero (ApprovedAt st)
      then (add_condition now SessionConditionTypeExpired SessionConditionReasonEditedByApprover
              ''Session dropped by owner''
              (st\<lparr>ExpiresAt := now, State := SessionStateExpired, RejectedAt := now\<rparr>))\<lparr>ReasonEnded := ''dropped''\<rparr>
      else (add_condition now SessionConditionTypeCanceled SessionConditionReasonEditedByApprover
              ''Session dropped by owner''
              (st\<lparr>ApprovedAt := 0, ExpiresAt := 0, RejectedAt := now, State := SessionStateWithdrawn,
                  Approver := [], Approvers := []\<rparr>))\<lparr>ReasonEnded := ''withdrawn''\<rparr>)"

definition handleDropMySession ::
  "instant \<Rightarrow> 'w BreakglassSessionController \<Rightarrow> request_context \<Rightarrow> string \<Rightarrow> 'w world \<Rightarrow> response \<times> 'w world" where
  "handleDropMySession now wc c sessionName w =
     (case GetBreakglassSessionByName (wc_client wc) sessionName w of
        Inl _ \<Rightarrow> (StatusOnly 500, w)
      | Inr bs \<Rightarrow>
          (case GetEmail c of
             Inl _ \<Rightarrow> (StatusOnly 500, w)
           | Inr requesterEmail \<Rightarrow>
               if User (bs_spec bs) \<noteq> requesterEmail then (StatusOnly 401, w)
               else persist_session wc (bs\<lparr>bs_status := drop_status now bs\<rparr>) w))"

definition cancel_status :: "instant \<Rightarrow> string \<Rightarrow> BreakglassSession \<Rightarrow> BreakglassSessionStatus" where
  "cancel_status now email bs =
     (let st = record_approver email
                 ((bs_status bs)\<lparr>ExpiresAt := now, State := SessionStateExpired, RejectedAt := now\<rparr>)
      in (add_condition now SessionConditionTypeExpired SessionConditionReasonEditedByApprover
            ''Session canceled by approver'' st)\<lparr>ReasonEnded := ''canceled''\<rparr>)"

definition handleApproverCancel ::
  "instant \<Rightarrow> 'w BreakglassSessionController \<Rightarrow> request_context \<Rightarrow> string \<Rightarrow> 'w world \<Rightarrow> response \<times> 'w world" where
  "handleApproverCancel now wc c sessionName w =
     (case GetBreakglassSessionByName (wc_client wc) sessionName w of
        Inl _ \<Rightarrow> (StatusOnly 500, w)
      | Inr bs \<Rightarrow>
          if \<not> isSessionApprover wc c bs w then (StatusOnly 401, w)
          else if State (bs_status bs) \<noteq> SessionStateApproved \<or> IsZero (ApprovedAt (bs_status bs))
          then (JSONText 400 ''Session is not active/approved and cannot be canceled by approver'', w)
          else persist_session wc (bs\<lparr>bs_status := cancel_status now (ctx_email c) bs\<rparr>) w)"

subsection \<open>Reading\<close>

definition getActiveBreakglassSession ::
  "instant \<Rightarrow> 'w client \<Rightarrow> string \<Rightarrow> string \<Rightarrow> string \<Rightarrow> 'w world \<Rightarrow> BreakglassSession result" where
  "getActiveBreakglassSession now cl username clustername grp w =
     (case GetBreakglassSessionsWithSelector cl [(''spec.cluster'', clustername), (''spec.user'', username),
             (''spec.grantedGroup'', grp)] w of
        Inl e \<Rightarrow> Inl (wrap_error ''failed to list sessions'' e)
      | Inr sessions \<Rightarrow>
          let validSessions = filter (IsSessionActive now) sessions in
          if length validSessions = 0 then Inl ErrSessionNotFound
          else Inr (hd validSessions))"

record session_query =
  q_cluster :: string
  q_user :: string
  q_group :: string
  q_token :: string
  q_mine :: string
  q_state :: string

definition token_response ::
  "instant \<Rightarrow> 'w BreakglassSessionController \<Rightarrow> request_context \<Rightarrow> string \<Rightarrow> 'w world \<Rightarrow> response" where
  "token_response now wc c token w =
     (case GetBreakglassSessionByName (wc_client wc) token w of
        Inl _ \<Rightarrow> JSONInvalid 404
      | Inr ses \<Rightarrow>
          JSONToken 200 (isSessionApprover wc c ses w) (IsSessionActive now ses)
            (\<not> (IsSessionExpired now ses \<or> State (bs_status ses) = SessionStateWithdrawn \<or>
                State (bs_status ses) = SessionStateRejected)))"

text \<open>The body of the filter loop: each \<^verbatim>\<open>continue\<close> of the source is one refusal.\<close>

definition keep_session ::
  "instant \<Rightarrow> 'w BreakglassSessionController \<Rightarrow> request_context \<Rightarrow> bool \<Rightarrow> string \<Rightarrow> string \<Rightarrow>
   'w world \<Rightarrow> BreakglassSession \<Rightarrow> bool" where
  "keep_session now wc c mine state userEmail w ses =
     (let isMine = (userEmail \<noteq> [] \<and> User (bs_spec ses) = userEmail);
          isApprover = isSessionApprover wc c ses w;
          st = bs_status ses
      in if \<not> isMine \<and> \<not> isApprover then False
         else if mine \<and> \<not> isMine then False
         else if state = ''pending'' \<and> \<not> IsSessionPendingApproval ses then False
         else if state = ''approved'' \<and> State st \<noteq> SessionStateApproved then False
         else if state = ''rejected'' \<and> IsZero (RejectedAt st) then False
         else if state = ''expired'' \<and> \<not> IsSessionExpired now ses then False
         else if (state = ''timeout'' \<or> ToLower state = ''approvaltimeout'') \<and> State st \<noteq> SessionStateTimeout \<and>
                 (IsZero (TimeoutAt st) \<or> Before now (TimeoutAt st)) then False
         else if state = ''withdrawn'' \<and> State st \<noteq> SessionStateWithdrawn then False
         else True)"

definition query_sessions ::
  "'w client \<Rightarrow> session_query \<Rightarrow> 'w world \<Rightarrow> BreakglassSession list result" where
  "query_sessions cl q w =
     (if q_cluster q \<noteq> [] \<or> q_user q \<noteq> [] \<or> q_group q \<noteq> []
      then GetBreakglassSessionsWithSelector cl
             ((if q_cluster q \<noteq> [] then [(''spec.cluster'', q_cluster q)] else []) @
              (if q_user q \<noteq> [] then [(''spec.user'', q_user q)] else []) @
              (if q_group q \<noteq> [] then [(''spec.grantedGroup'', q_group q)] else [])) w
      else GetAllBreakglassSessions cl w)"

definition handleGetBreakglassSessionStatus ::
  "instant \<Rightarrow> 'w BreakglassSessionController \<Rightarrow> request_context \<Rightarrow> session_query \<Rightarrow> 'w world \<Rightarrow> response" where
  "handleGetBreakglassSessionStatus now wc c q w =
     (if q_token q \<noteq> [] then token_response now wc c (q_token q) w else
      case query_sessions (wc_client wc) q w of
        Inl _ \<Rightarrow> JSONText 500 ''failed to extract breakglass session information''
      | Inr sessions \<Rightarrow>
          let mine = (q_mine q = ''true'');
              email = (if mine then GetEmail c else Inr [])
          in case email of
               Inl _ \<Rightarrow> JSONText 500 ''failed to extract email from token''
             | Inr userEmail \<Rightarrow>
                 JSONSessions 200 (dropK8sInternalFieldsSessionList
                   (filter (keep_session now wc c mine (q_state q) userEmail w) sessions)))"

definition handleGetBreakglassSessionByName ::
  "'w BreakglassSessionController \<Rightarrow> string \<Rightarrow> 'w world \<Rightarrow> response" where
  "handleGetBreakglassSessionByName wc sessionName w =
     (case GetBreakglassSessionByName (wc_client wc) sessionName w of
        Inl _ \<Rightarrow> JSONError 404 ''session not found''
      | Inr ses \<Rightarrow> JSONSessions 200 (dropK8sInternalFieldsSessionList [ses]))"

definition handleListClusters :: "'w BreakglassSessionController \<Rightarrow> 'w world \<Rightarrow> response" where
  "handleListClusters wc w =
     (case GetAllBreakglassSessions (wc_client wc) w of
        Inl _ \<Rightarrow> JSONText 500 ''Failed to extract cluster group access information''
      | Inr sessions \<Rightarrow> JSONStrings 200 (map (\<lambda>s. Cluster (bs_spec s)) sessions))"

subsection \<open>The routes that change a session\<close>

datatype session_action = Approve string | Reject string | Withdraw | Drop | ApproverCancel

text \<open>\<^verbatim>\<open>Register\<close>: the \<^verbatim>\<open>POST\<close> routes below \<^verbatim>\<open>:name\<close>.\<close>

fun serve_action ::
  "instant \<Rightarrow> 'w BreakglassSessionController \<Rightarrow> request_context \<Rightarrow> string \<Rightarrow> session_action \<Rightarrow> 'w world \<Rightarrow> response \<times> 'w world" where
  "serve_action now wc c name (Approve reason) w = handleApproveBreakglassSession now wc c name reason w"
| "serve_action now wc c name (Reject reason) w = handleRejectBreakglassSession now wc c name reason w"
| "serve_action now wc c name Withdraw w = handleWithdrawMyRequest now wc c name w"
| "serve_action now wc c name Drop w = handleDropMySession now wc c name w"
| "serve_action now wc c name ApproverCancel w = handleApproverCancel now wc c name w"

subsection \<open>Abstract specification of the actions\<close>

text \<open>Who may perform which action in which state, and the status it leads to.\<close>

definition is_owner :: "request_context \<Rightarrow> BreakglassSession \<Rightarrow> bool" where
  "is_owner c bs \<longleftrightarrow> ctx_email c \<noteq> [] \<and> User (bs_spec bs) = ctx_email c"

definition last_condition_is :: "string \<Rightarrow> BreakglassSession \<Rightarrow> bool" where
  "last_condition_is ty bs \<longleftrightarrow> Conditions (bs_status bs) \<noteq> [] \<and> CondType (last (Conditions (bs_status bs))) = ty"

fun action_permitted ::
  "'w BreakglassSessionController \<Rightarrow> request_context \<Rightarrow> session_action \<Rightarrow> BreakglassSession \<Rightarrow> 'w world \<Rightarrow> bool" where
  "action_permitted wc c (Approve reason) bs w \<longleftrightarrow>
     State (bs_status bs) = SessionStatePending \<and> \<not> last_condition_is ''Approved'' bs \<and> isSessionApprover wc c bs w"
| "action_permitted wc c (Reject reason) bs w \<longleftrightarrow>
     State (bs_status bs) = SessionStatePending \<and> \<not> last_condition_is ''Rejected'' bs \<and>
     (is_owner c bs \<and> IsSessionPendingApproval bs \<or> isSessionApprover wc c bs w)"
| "action_permitted wc c Withdraw bs w \<longleftrightarrow> is_owner c bs \<and> IsSessionPendingApproval bs"
| "action_permitted wc c Drop bs w \<longleftrightarrow> is_owner c bs"
| "action_permitted wc c ApproverCancel bs w \<longleftrightarrow>
     isSessionApprover wc c bs w \<and> State (bs_status bs) = SessionStateApproved \<and> ApprovedAt (bs_status bs) \<noteq> 0"

fun action_status ::
  "instant \<Rightarrow> string \<Rightarrow> session_action \<Rightarrow> BreakglassSession \<Rightarrow> BreakglassSessionStatus" where
  "action_status now email (Approve reason) bs = approve_status now email reason bs"
| "action_status now email (Reject reason) bs = reject_status now email reason bs"
| "action_status now email Withdraw bs = withdraw_status now bs"
| "action_status now email Drop bs = drop_status now bs"
| "action_status now email ApproverCancel bs = cancel_status now email bs"

subsection \<open>The approval counter is never increased\<close>

lemma cluster_group_no_groups:
  "GetClusterGroupBreakglassEscalations cl ld cluster [] w = Inr out \<Longrightarrow> out = []"
  by (auto simp: GetClusterGroupBreakglassEscalations_def split: sum.splits)

lemma increment_approval_counts_id [simp]: "increment_approval_counts wc bs rs w = w"
  by (induction rs) (auto simp: Let_def dest!: cluster_group_no_groups split: sum.splits)

subsection \<open>The handlers implement the specification\<close>

lemma status_guard_None:
  "status_guard SessionConditionTypeApproved bs = None \<longleftrightarrow>
     State (bs_status bs) = SessionStatePending \<and> \<not> last_condition_is ''Approved'' bs"
  "status_guard SessionConditionTypeRejected bs = None \<longleftrightarrow>
     State (bs_status bs) = SessionStatePending \<and> \<not> last_condition_is ''Rejected'' bs"
  by (auto simp: status_guard_def Let_def last_condition_is_def)

lemma status_guard_Some: "status_guard ct bs = Some r \<Longrightarrow> status_code r \<noteq> 200"
  by (auto simp: status_guard_def Let_def split: if_splits)

lemma allow_owner_reject_iff:
  "allow_owner_reject c SessionConditionTypeRejected bs \<longleftrightarrow> is_owner c bs \<and> IsSessionPendingApproval bs"
  "\<not> allow_owner_reject c SessionConditionTypeApproved bs"
  by (auto simp: allow_owner_reject_def is_owner_def GetEmail_def)

text \<open>A permitted action persists its status; a refused one answers without touching the world.\<close>

lemma serve_action_permitted:
  assumes "GetBreakglassSessionByName (wc_client wc) name w = Inr bs" "action_permitted wc c act bs w"
  shows "serve_action now wc c name act w =
    persist_session wc (bs\<lparr>bs_status := action_status now (ctx_email c) act bs\<rparr>) w"
  using assms
  by (cases act)
    (auto simp: handleApproveBreakglassSession_def handleRejectBreakglassSession_def setSessionStatus_def
      handleWithdrawMyRequest_def handleDropMySession_def handleApproverCancel_def
      status_guard_None [THEN iffD2] allow_owner_reject_iff is_owner_def GetEmail_def IsZero_def)

lemma serve_action_refused:
  assumes "GetBreakglassSessionByName (wc_client wc) name w = Inr bs" "\<not> action_permitted wc c act bs w"
  shows "snd (serve_action now wc c name act w) = w \<and> status_code (fst (serve_action now wc c name act w)) \<noteq> 200"
proof (cases act)
  case (Approve reason)
  with assms show ?thesis
    by (auto simp: handleApproveBreakglassSession_def setSessionStatus_def status_guard_None
        allow_owner_reject_iff dest: status_guard_Some split: option.split)
next
  case (Reject reason)
  with assms show ?thesis
    by (auto simp: handleRejectBreakglassSession_def setSessionStatus_def status_guard_None
        allow_owner_reject_iff dest: status_guard_Some split: option.split)
qed (use assms in \<open>auto simp: handleWithdrawMyRequest_def handleDropMySession_def handleApproverCancel_def
       is_owner_def GetEmail_def IsZero_def\<close>)

lemma serve_action_not_found:
  assumes "GetBreakglassSessionByName (wc_client wc) name w = Inl e"
  shows "serve_action now wc c name act w = (StatusOnly 500, w)"
  using assms
  by (cases act)
    (auto simp: handleApproveBreakglassSession_def handleRejectBreakglassSession_def setSessionStatus_def
      handleWithdrawMyRequest_def handleDropMySession_def handleApproverCancel_def)

lemma persist_session_code: "status_code (fst (persist_session wc s w)) = 200 \<longleftrightarrow>
    snd (UpdateBreakglassSessionStatus (wc_client wc) s w) = None"
  by (auto simp: persist_session_def split: prod.splits option.splits)

lemma serve_action_200:
  assumes "status_code (fst (serve_action now wc c name act w)) = 200"
  obtains bs where "GetBreakglassSessionByName (wc_client wc) name w = Inr bs" "action_permitted wc c act bs w"
    "UpdateBreakglassSessionStatus (wc_client wc) (bs\<lparr>bs_status := action_status now (ctx_email c) act bs\<rparr>) w =
       (snd (serve_action now wc c name act w), None)"
    "fst (serve_action now wc c name act w) =
       JSONSession 200 (bs\<lparr>bs_status := action_status now (ctx_email c) act bs\<rparr>)"
proof (cases "GetBreakglassSessionByName (wc_client wc) name w")
  case (Inl e)
  with assms show ?thesis by (simp add: serve_action_not_found)
next
  case (Inr bs)
  with assms serve_action_refused [OF Inr] have perm: "action_permitted wc c act bs w" by blast
  note run = serve_action_permitted [OF Inr perm]
  show ?thesis
    using assms that [OF Inr perm]
    by (auto simp: run persist_session_def split: prod.splits option.splits)
qed

context kube_sessions
begin

lemma persist_effect:
  assumes "wc_client wc = cl" "wf (api w)" "persist_session wc s w = (r, w')"
  shows "wf (api w') \<and>
    (if status_code r = 200 then status_written (sessions (api w)) s (sessions (api w'))
     else sessions (api w') = sessions (api w))"
proof -
  obtain w1 e where u: "UpdateBreakglassSessionStatus cl s w = (w1, e)" by force
  show ?thesis
  proof (cases e)
    case None
    with assms(1,3) u have "w1 = w'" "status_code r = 200" by (auto simp: persist_session_def)
    with repo.put_None [OF assms(2)] u None show ?thesis by auto
  next
    case (Some x)
    with assms(1,3) u have "w1 = w'" "status_code r = 500" by (auto simp: persist_session_def)
    with repo.put_Some [OF assms(2)] u Some show ?thesis by auto
  qed
qed

lemma serve_action_effect:
  assumes "wc_client wc = cl" "wf (api w)" "serve_action now wc c name act w = (r, w')"
  shows "wf (api w') \<and>
    (if status_code r = 200
     then \<exists>bs. GetBreakglassSessionByName cl name w = Inr bs \<and> bs \<in> set (sessions (api w)) \<and>
            action_permitted wc c act bs w \<and>
            status_written (sessions (api w)) (bs\<lparr>bs_status := action_status now (ctx_email c) act bs\<rparr>) (sessions (api w'))
     else sessions (api w') = sessions (api w))"
proof (cases "GetBreakglassSessionByName cl name w")
  case (Inl e)
  with assms serve_action_not_found [of wc name w e] show ?thesis by auto
next
  case (Inr bs)
  then have found: "GetBreakglassSessionByName (wc_client wc) name w = Inr bs" using assms(1) by simp
  have stored: "bs \<in> set (sessions (api w))" using by_name_stored [OF assms(2) Inr] .
  show ?thesis
  proof (cases "action_permitted wc c act bs w")
    case True
    from serve_action_permitted [OF found this, of now] assms(3)
    have "persist_session wc (bs\<lparr>bs_status := action_status now (ctx_email c) act bs\<rparr>) w = (r, w')" by simp
    from persist_effect [OF assms(1,2) this] Inr stored True show ?thesis by auto
  next
    case False
    from serve_action_refused [OF found this, of now] assms(2,3) show ?thesis by simp
  qed
qed

end

subsection \<open>Properties\<close>




text \<open>What an approval writes: the session becomes Approved now, ends after its maximum validity
  (one hour without a usable setting), which is positive and below the 64-bit limit, its approval
  timeout and any rejection are cleared, and the caller is recorded as approver.\<close>

theorem approve_result:
  assumes "handleApproveBreakglassSession now wc c name reason w = (JSONSession 200 bs', w')"
  shows "\<exists>bs. GetBreakglassSessionByName (wc_client wc) name w = Inr bs \<and>
     State (bs_status bs) = SessionStatePending \<and> isSessionApprover wc c bs w \<and>
     bs_spec bs' = bs_spec bs \<and> bs_meta bs' = bs_meta bs \<and>
     State (bs_status bs') = SessionStateApproved \<and> ApprovedAt (bs_status bs') = now \<and>
     ExpiresAt (bs_status bs') = now + duration_or_default (MaxValidFor (bs_spec bs)) DefaultValidForDuration \<and>
     now < ExpiresAt (bs_status bs') \<and> ExpiresAt (bs_status bs') < now + 2 ^ 63 \<and>
     now < RetainedUntil (bs_status bs') \<and>
     TimeoutAt (bs_status bs') = 0 \<and> RejectedAt (bs_status bs') = 0 \<and>
     Approver (bs_status bs') = ctx_email c \<and> ctx_email c \<in> set (Approvers (bs_status bs')) \<and>
     (\<exists>cond. Conditions (bs_status bs') = Conditions (bs_status bs) @ [cond] \<and> CondType cond = ''Approved'')"
proof -
  let ?act = "Approve reason"
  have "status_code (fst (serve_action now wc c name ?act w)) = 200" using assms by simp
  then obtain bs where found: "GetBreakglassSessionByName (wc_client wc) name w = Inr bs"
    and perm: "action_permitted wc c ?act bs w"
    and res: "fst (serve_action now wc c name ?act w) = JSONSession 200 (bs\<lparr>bs_status := action_status now (ctx_email c) ?act bs\<rparr>)"
    by (rule serve_action_200)
  have bs': "bs' = bs\<lparr>bs_status := approve_status now (ctx_email c) reason bs\<rparr>" using res assms by simp
  have email: "ctx_email c \<noteq> []" using perm by (simp add: isSessionApprover_iff)
  have "DefaultValidForDuration < 2 ^ 63" by (simp add: DefaultValidForDuration_def Hour_def)
  then have "duration_or_default (MaxValidFor (bs_spec bs)) DefaultValidForDuration < 2 ^ 63"
    by (rule duration_or_default_int64)
  with found perm email show ?thesis
    by (simp add: bs' approve_status_def Let_def add_condition_def store_reason_def record_approver_def)
qed

theorem approve_result_witness:
  "\<exists>bs' w'. handleApproveBreakglassSession ex_now ex_wc ex_lead ''s1'' ''ok'' (ex_world [ex_pending]) = (JSONSession 200 bs', w') \<and>
     State (bs_status bs') = SessionStateApproved \<and> ex_now < ExpiresAt (bs_status bs')"
proof -
  let ?run = "handleApproveBreakglassSession ex_now ex_wc ex_lead ''s1'' ''ok'' (ex_world [ex_pending])"
  have "(case fst ?run of JSONSession n s \<Rightarrow> n = 200 | _ \<Rightarrow> False)" by code_simp
  then obtain bs' where "fst ?run = JSONSession 200 bs'" by (cases "fst ?run") auto
  then have run: "?run = (JSONSession 200 bs', snd ?run)" by (metis prod.collapse)
  show ?thesis using approve_result [OF run] run by blast
qed

text \<open>The counter of approvals is dead: the lookup of the owning escalation passes an empty group
  list, which matches no escalation, so approving never changes the world through it.\<close>

theorem approval_count_never_incremented:
  "increment_approval_counts wc bs (bs_OwnerReferences bs) w = w"
  by simp

end
