(* ===== verification/Naming.thy ===== *)
theory Naming
  imports Prelude "HOL-Library.While_Combinator"
begin

text \<open>
  Object names and label values: \<^verbatim>\<open>toRFC1123Subdomain\<close>, \<^verbatim>\<open>toRFC1123Label\<close> and \<^verbatim>\<open>isAlnum\<close> of
  \<^verbatim>\<open>pkg/breakglass/session_controller.go\<close>.  The sanitised label of a session is what the label
  selectors see, so it has to be accepted by the API server for every user, cluster and group.
\<close>

subsection \<open>Definitions\<close>

definition isAlnum :: "char \<Rightarrow> bool" where
  "isAlnum c = (let n = (of_char c :: int) in (97 \<le> n \<and> n \<le> 122) \<or> (48 \<le> n \<and> n \<le> 57))"

text \<open>The rune loop of both functions: admissible characters are copied, a run of others becomes
  one dash.\<close>

fun replace_invalid :: "(char \<Rightarrow> bool) \<Rightarrow> bool \<Rightarrow> string \<Rightarrow> string" where
  "replace_invalid ok prevDash [] = []"
| "replace_invalid ok prevDash (r # s) =
     (if ok r then r # replace_invalid ok False s
      else if \<not> prevDash then CHR ''-'' # replace_invalid ok True s
      else replace_invalid ok prevDash s)"

definition subdomain_char :: "char \<Rightarrow> bool" where
  "subdomain_char r = (isAlnum r \<or> r = CHR ''-'' \<or> r = CHR ''.'')"

definition label_char :: "char \<Rightarrow> bool" where
  "label_char r = (isAlnum r \<or> r = CHR ''-'' \<or> r = CHR ''_'' \<or> r = CHR ''.'')"

lemma ReplaceAll_double_shrinks:
  "sublist [c, c] s \<Longrightarrow> length (ReplaceAll s [c, c] [c]) < length s"
proof (induction s)
  case Nil
  then show ?case by simp
next
  case (Cons a s)
  show ?case
  proof (cases "prefix [c, c] (a # s)")
    case True
    then obtain t where "a # s = c # c # t" by (auto simp: prefix_def)
    with ReplaceAll_length_le [of "[c]" "[c, c]" t] show ?thesis by simp
  next
    case False
    with Cons.prems have "sublist [c, c] s" by (auto simp: sublist_Cons_right)
    with Cons.IH False show ?thesis by auto
  qed
qed

text \<open>\<^verbatim>\<open>for strings.Contains(out, "cc") { out = strings.ReplaceAll(out, "cc", "c") }\<close>\<close>

function collapse :: "char \<Rightarrow> string \<Rightarrow> string" where
  "collapse c s = (if sublist [c, c] s then collapse c (ReplaceAll s [c, c] [c]) else s)"
  by pat_completeness auto
termination
  by (relation "measure (\<lambda>(c, s). length s)") (auto simp: ReplaceAll_double_shrinks)

declare collapse.simps [simp del]

text \<open>The two loops that cut non-alphanumeric characters off both ends.\<close>

definition strip_left :: "string \<Rightarrow> string" where
  "strip_left s = dropWhile (\<lambda>c. \<not> isAlnum c) s"

definition strip_right :: "string \<Rightarrow> string" where
  "strip_right s = rev (dropWhile (\<lambda>c. \<not> isAlnum c) (rev s))"

definition toRFC1123Subdomain :: "string \<Rightarrow> string" where
  "toRFC1123Subdomain s =
     (if s = [] then ''x'' else
      let out = replace_invalid subdomain_char False (ToLower s);
          out = TrimRight (TrimLeft out ''-.'') ''-.'';
          out = ReplaceAll out ''..'' ''.'';
          out = collapse (CHR ''-'') out
      in if out = [] then ''x'' else
      let out = strip_right (strip_left out)
      in if out = [] then ''x'' else out)"

definition toRFC1123Label :: "string \<Rightarrow> string" where
  "toRFC1123Label s =
     (if s = [] then ''x'' else
      let out = replace_invalid label_char False (ToLower s);
          out = TrimRight (TrimLeft out ''-._'') ''-._'';
          out = collapse (CHR ''.'') out;
          out = collapse (CHR ''_'') out;
          out = collapse (CHR ''-'') out;
          out = strip_right (strip_left out)
      in if out = [] then ''x''
         else if 63 < length out
         then let out = strip_right (take 63 out) in if out = [] then ''x'' else out
         else out)"

text \<open>The same loops as the source writes them: a condition and a body, with no bound on the number of rounds.\<close>

definition collapse_loop :: "char \<Rightarrow> string \<Rightarrow> string option" where
  "collapse_loop c out = while_option (\<lambda>out. sublist [c, c] out) (\<lambda>out. ReplaceAll out [c, c] [c]) out"

definition strip_left_loop :: "string \<Rightarrow> string option" where
  "strip_left_loop out = while_option (\<lambda>out. 0 < length out \<and> \<not> isAlnum (hd out)) tl out"

definition strip_right_loop :: "string \<Rightarrow> string option" where
  "strip_right_loop out = while_option (\<lambda>out. 0 < length out \<and> \<not> isAlnum (last out)) butlast out"

text \<open>What the API server requires of a label value, and of the result of the sanitisers.\<close>

definition valid_label_value :: "string \<Rightarrow> bool" where
  "valid_label_value s = (s \<noteq> [] \<and> length s \<le> 63 \<and> list_all label_char s \<and>
     isAlnum (hd s) \<and> isAlnum (last s))"

definition no_double :: "char \<Rightarrow> string \<Rightarrow> bool" where
  "no_double c s = (\<not> sublist [c, c] s)"

definition canonical_label :: "string \<Rightarrow> bool" where
  "canonical_label s = (valid_label_value s \<and>
     no_double (CHR ''.'') s \<and> no_double (CHR ''_'') s \<and> no_double (CHR ''-'') s)"

subsection \<open>Characters\<close>

lemma isAlnum_not_sep: "isAlnum c \<Longrightarrow> c \<noteq> CHR ''-'' \<and> c \<noteq> CHR ''.'' \<and> c \<noteq> CHR ''_''"
  by (auto simp: isAlnum_def)

lemma label_char_dash [simp]: "label_char (CHR ''-'')" "subdomain_char (CHR ''-'')"
  by (simp_all add: label_char_def subdomain_char_def)

lemma lower_char_label_char: "label_char c \<Longrightarrow> lower_char c = c"
  by (auto simp: label_char_def isAlnum_def lower_char_def Let_def)

lemma list_all_replace_invalid: "ok (CHR ''-'') \<Longrightarrow> list_all ok (replace_invalid ok b s)"
  by (induction ok b s rule: replace_invalid.induct) auto

lemma replace_invalid_id: "list_all ok s \<Longrightarrow> replace_invalid ok b s = s"
  by (induction s arbitrary: b) auto

subsection \<open>Collapsing and stripping\<close>

lemma collapse_no_double: "no_double c (collapse c s)"
proof (induction c s rule: collapse.induct)
  case (1 c s)
  then show ?case by (subst collapse.simps) (auto simp: no_double_def)
qed

lemma collapse_id: "no_double c s \<Longrightarrow> collapse c s = s"
  by (subst collapse.simps) (simp add: no_double_def)

lemma collapse_preserves:
  assumes "P s" and "\<And>t. P t \<Longrightarrow> P (ReplaceAll t [c, c] [c])"
  shows "P (collapse c s)"
  using assms
proof (induction c s rule: collapse.induct)
  case (1 c s)
  show ?case
  proof (cases "sublist [c, c] s")
    case True
    with 1 have "P (collapse c (ReplaceAll s [c, c] [c]))" by blast
    with True show ?thesis by (subst collapse.simps) simp
  qed (use "1.prems" in \<open>subst collapse.simps, simp\<close>)
qed

lemma list_all_ReplaceAll: "list_all P s \<Longrightarrow> list_all P new \<Longrightarrow> list_all P (ReplaceAll s old new)"
  using set_ReplaceAll [of s old new] by (auto simp: list_all_iff)

lemma list_all_collapse: "list_all P s \<Longrightarrow> list_all P (collapse c s)"
proof (induction c s rule: collapse.induct)
  case (1 c s)
  show ?case
  proof (cases "sublist [c, c] s")
    case True
    then have "c \<in> set s" by (auto simp: sublist_def)
    with "1.prems" have "list_all P [c]" by (auto simp: list_all_iff)
    with 1 True show ?thesis by (subst collapse.simps) (simp add: list_all_ReplaceAll)
  qed (use "1.prems" in \<open>subst collapse.simps, simp\<close>)
qed

text \<open>Squeezing \<open>c\<close> cannot create a double of another character.\<close>

lemma hd_ReplaceAll_double: "s \<noteq> [] \<Longrightarrow> hd (ReplaceAll s [c, c] [c]) = hd s"
  by (cases s) (auto simp: prefix_def)

lemma ReplaceAll_Nil_iff: "ReplaceAll s [c, c] [c] = [] \<longleftrightarrow> s = []"
  by (cases s) auto

lemma ReplaceAll_double_no_other:
  assumes "c \<noteq> d" and "no_double d s"
  shows "no_double d (ReplaceAll s [c, c] [c])"
  using assms(2)
proof (induction s "[c, c]" "[c]" rule: ReplaceAll.induct)
  case 1
  then show ?case by simp
next
  case (2 a cs)
  have tl: "no_double d cs" and drop: "no_double d (drop 2 (a # cs))"
    using "2.prems" by (auto simp: no_double_def sublist_Cons_right dest: sublist_order.order.trans
        [OF _ sublist_drop])
  show ?case
  proof (cases "prefix [c, c] (a # cs)")
    case True
    with 2 drop assms(1) show ?thesis
      by (auto simp: no_double_def sublist_Cons_right numeral_2_eq_2)
  next
    case False
    let ?r = "ReplaceAll cs [c, c] [c]"
    have "\<not> prefix [d, d] (a # ?r)"
    proof
      assume "prefix [d, d] (a # ?r)"
      then have "a = d" "?r \<noteq> []" "hd ?r = d" by (auto simp: prefix_def)
      then have "cs \<noteq> []" "hd cs = d" by (auto simp: ReplaceAll_Nil_iff hd_ReplaceAll_double)
      with \<open>a = d\<close> "2.prems" show False
        by (cases cs) (auto simp: no_double_def sublist_Cons_right)
    qed
    with 2 False tl show ?thesis by (auto simp: no_double_def sublist_Cons_right)
  qed
qed

lemma collapse_no_other: "c \<noteq> d \<Longrightarrow> no_double d s \<Longrightarrow> no_double d (collapse c s)"
  by (rule collapse_preserves) (auto intro: ReplaceAll_double_no_other)

lemma no_double_sublist: "no_double c s \<Longrightarrow> sublist t s \<Longrightarrow> no_double c t"
  by (auto simp: no_double_def intro: sublist_order.order.trans)

lemma strip_sublist: "sublist (strip_right s) s" "sublist (strip_left s) s"
proof -
  have "suffix (dropWhile (\<lambda>c. \<not> isAlnum c) (rev s)) (rev s)" by (rule suffix_dropWhile)
  then have "prefix (strip_right s) s" by (simp add: strip_right_def suffix_to_prefix)
  then show "sublist (strip_right s) s" by (rule prefix_imp_sublist)
  show "sublist (strip_left s) s"
    unfolding strip_left_def by (rule suffix_imp_sublist [OF suffix_dropWhile])
qed

lemma list_all_sublist: "list_all P s \<Longrightarrow> sublist t s \<Longrightarrow> list_all P t"
  using set_mono_sublist by (fastforce simp: list_all_iff)

lemma strip_right_last: "strip_right s \<noteq> [] \<Longrightarrow> isAlnum (last (strip_right s))"
  using last_rev_dropWhile [of "\<lambda>c. \<not> isAlnum c" s] by (simp add: strip_right_def)

lemma strip_right_hd: "strip_right s \<noteq> [] \<Longrightarrow> hd (strip_right s) = hd s"
  unfolding strip_right_def by (rule hd_rev_dropWhile_rev)

lemma strip_left_hd: "strip_left s \<noteq> [] \<Longrightarrow> isAlnum (hd (strip_left s))"
  unfolding strip_left_def using hd_dropWhile by blast

lemma strip_both_ends:
  assumes "strip_right (strip_left s) \<noteq> []"
  shows "isAlnum (hd (strip_right (strip_left s)))" "isAlnum (last (strip_right (strip_left s)))"
proof -
  have "strip_left s \<noteq> []" using assms by (auto simp: strip_right_def)
  with assms show "isAlnum (hd (strip_right (strip_left s)))"
    by (simp add: strip_right_hd strip_left_hd)
  show "isAlnum (last (strip_right (strip_left s)))" using assms by (rule strip_right_last)
qed

lemma strip_right_id: "s = [] \<or> isAlnum (last s) \<Longrightarrow> strip_right s = s"
  by (cases s rule: rev_cases) (auto simp: strip_right_def)

lemma strip_left_id: "s = [] \<or> isAlnum (hd s) \<Longrightarrow> strip_left s = s"
  by (cases s) (auto simp: strip_left_def)

lemma trim_both_id:
  assumes "s \<noteq> []" "hd s \<notin> set cs" "last s \<notin> set cs"
  shows "TrimRight (TrimLeft s cs) cs = s"
proof -
  have "TrimLeft s cs = s" using assms by (cases s) (auto simp: TrimLeft_def)
  moreover have "TrimRight s cs = s"
    using assms by (cases s rule: rev_cases) (auto simp: TrimRight_def)
  ultimately show ?thesis by simp
qed

lemma list_all_trim: "list_all P s \<Longrightarrow> list_all P (TrimRight (TrimLeft s cs) cs)"
  by (auto simp: list_all_iff TrimRight_def TrimLeft_def dest!: set_dropWhileD)

subsection \<open>The loops end\<close>

lemma collapse_loop_result: "collapse_loop c out = Some (collapse c out)"
proof (induction c out rule: collapse.induct)
  case (1 c s)
  then show ?case
    by (cases "sublist [c, c] s") (simp_all add: collapse_loop_def while_option_unfold collapse.simps)
qed

lemma strip_left_loop_result: "strip_left_loop out = Some (strip_left out)"
  by (induction out) (simp_all add: strip_left_loop_def strip_left_def while_option_unfold)

lemma strip_right_loop_result: "strip_right_loop out = Some (strip_right out)"
  by (induction out rule: rev_induct) (simp_all add: strip_right_loop_def strip_right_def while_option_unfold)

text \<open>A round of replacement at least halves the excess of a run, so few rounds are needed; each round shortens
  the string.\<close>

lemma collapse_rounds:
  "\<exists>k \<le> length s - length (collapse c s). ((\<lambda>out. ReplaceAll out [c, c] [c]) ^^ k) s = collapse c s"
proof (induction c s rule: collapse.induct)
  case (1 c s)
  show ?case
  proof (cases "sublist [c, c] s")
    case True
    let ?f = "\<lambda>out. ReplaceAll out [c, c] [c]"
    from 1 [OF True] obtain k where k: "k \<le> length (?f s) - length (collapse c (?f s))" "(?f ^^ k) (?f s) = collapse c (?f s)"
      by blast
    have "length (collapse c (?f s)) \<le> length (?f s)"
      by (rule collapse_preserves [where P = "\<lambda>t. length t \<le> length (?f s)"])
        (auto intro: order_trans [OF ReplaceAll_length_le])
    with k(1) ReplaceAll_double_shrinks [OF True] have "Suc k \<le> length s - length (collapse c s)"
      using True by (subst collapse.simps) simp
    moreover have "(?f ^^ Suc k) s = collapse c s"
      using k(2) True by (subst collapse.simps) (simp add: funpow_Suc_right del: funpow.simps)
    ultimately show ?thesis by blast
  next
    case False
    then show ?thesis by (intro exI [of _ 0]) (simp add: collapse.simps)
  qed
qed

subsection \<open>The sanitisers\<close>

text \<open>The value before truncation is empty or canonical up to its length.\<close>

lemma label_core:
  fixes s :: string
  defines "out \<equiv> strip_right (strip_left (collapse (CHR ''-'') (collapse (CHR ''_'') (collapse (CHR ''.'')
    (TrimRight (TrimLeft (replace_invalid label_char False (ToLower s)) ''-._'') ''-._'')))))"
  shows "list_all label_char out" "no_double (CHR ''.'') out" "no_double (CHR ''_'') out"
    "no_double (CHR ''-'') out"
proof -
  let ?t = "TrimRight (TrimLeft (replace_invalid label_char False (ToLower s)) ''-._'') ''-._''"
  let ?c = "collapse (CHR ''-'') (collapse (CHR ''_'') (collapse (CHR ''.'') ?t))"
  have sub: "sublist out ?c"
    unfolding out_def using strip_sublist sublist_order.order.trans by blast
  have "list_all label_char ?c"
    by (intro list_all_collapse list_all_trim list_all_replace_invalid) simp
  then show "list_all label_char out" using sub by (rule list_all_sublist)
  have "no_double (CHR ''.'') ?c" "no_double (CHR ''_'') ?c" "no_double (CHR ''-'') ?c"
    by (simp_all add: collapse_no_double collapse_no_other)
  then show "no_double (CHR ''.'') out" "no_double (CHR ''_'') out" "no_double (CHR ''-'') out"
    using sub by (blast intro: no_double_sublist)+
qed

lemma canonical_x: "canonical_label ''x''"
  by (simp add: canonical_label_def valid_label_value_def no_double_def sublist_Cons_right
      label_char_def isAlnum_def)

lemma canonical_label_intro:
  assumes "s \<noteq> []" "length s \<le> 63" "sublist s t" "isAlnum (hd s)" "isAlnum (last s)"
    and "list_all label_char t" "no_double (CHR ''.'') t" "no_double (CHR ''_'') t" "no_double (CHR ''-'') t"
  shows "canonical_label s"
  using assms by (auto simp: canonical_label_def valid_label_value_def
      intro: list_all_sublist no_double_sublist)

lemma toRFC1123Label_canonical: "canonical_label (toRFC1123Label s)"
proof -
  define out where "out = strip_right (strip_left (collapse (CHR ''-'') (collapse (CHR ''_'')
    (collapse (CHR ''.'') (TrimRight (TrimLeft (replace_invalid label_char False (ToLower s))
      ''-._'') ''-._'')))))"
  note core = label_core [of s, folded out_def]
  let ?r = "strip_right (take 63 out)"
  have label: "toRFC1123Label s = (if s = [] \<or> out = [] then ''x'' else if 63 < length out
      then if ?r = [] then ''x'' else ?r else out)"
    unfolding toRFC1123Label_def Let_def out_def by simp
  have whole: "canonical_label out" if "out \<noteq> []" "\<not> 63 < length out"
    using that core strip_both_ends out_def by (intro canonical_label_intro [of out out]) auto
  have cut: "canonical_label ?r" if "out \<noteq> []" "?r \<noteq> []"
  proof (rule canonical_label_intro [of ?r out])
    show "length ?r \<le> 63"
      using sublist_length_le [OF strip_sublist(1) [of "take 63 out"]] by simp
    show "sublist ?r out"
      using strip_sublist(1) sublist_order.order.trans sublist_take by blast
    have "hd ?r = hd out" using strip_right_hd [OF that(2)] that(1) by (cases out) auto
    then show "isAlnum (hd ?r)" using strip_both_ends that out_def by metis
  qed (use that core strip_right_last in auto)
  show ?thesis unfolding label using canonical_x whole cut by auto
qed

lemma toRFC1123Label_fixpoint:
  assumes "canonical_label s"
  shows "toRFC1123Label s = s"
proof -
  from assms have s: "s \<noteq> []" "length s \<le> 63" "list_all label_char s" "isAlnum (hd s)" "isAlnum (last s)"
    by (simp_all add: canonical_label_def valid_label_value_def)
  have "ToLower s = s"
    using s(3) lower_char_label_char by (auto simp: ToLower_def list_all_iff intro: map_idI)
  moreover have "TrimRight (TrimLeft s ''-._'') ''-._'' = s"
    using s isAlnum_not_sep by (intro trim_both_id) auto
  ultimately show ?thesis
    using s assms by (simp add: toRFC1123Label_def replace_invalid_id collapse_id
        canonical_label_def strip_right_id strip_left_id)
qed

lemma toRFC1123Subdomain_shape:
  fixes s :: string
  defines "r \<equiv> toRFC1123Subdomain s"
  shows "r \<noteq> [] \<and> list_all subdomain_char r \<and> isAlnum (hd r) \<and> isAlnum (last r) \<and> no_double (CHR ''-'') r"
proof -
  let ?c = "collapse (CHR ''-'') (ReplaceAll (TrimRight (TrimLeft
      (replace_invalid subdomain_char False (ToLower s)) ''-.'') ''-.'') ''..'' ''.'')"
  let ?o = "strip_right (strip_left ?c)"
  have r: "r = (if s = [] \<or> ?c = [] \<or> ?o = [] then ''x'' else ?o)"
    by (simp add: r_def toRFC1123Subdomain_def Let_def)
  have sub: "sublist ?o ?c" using strip_sublist sublist_order.order.trans by blast
  have "list_all subdomain_char ?c"
    by (intro list_all_collapse list_all_ReplaceAll list_all_trim list_all_replace_invalid)
      (simp_all add: subdomain_char_def)
  with sub have "list_all subdomain_char ?o" by (blast intro: list_all_sublist)
  moreover have "no_double (CHR ''-'') ?o"
    using sub collapse_no_double no_double_sublist by blast
  moreover have "list_all subdomain_char ''x'' \<and> isAlnum (CHR ''x'') \<and> no_double (CHR ''-'') ''x''"
    by (simp add: subdomain_char_def isAlnum_def no_double_def sublist_Cons_right)
  ultimately show ?thesis unfolding r using strip_both_ends by auto
qed

subsection \<open>Properties\<close>

text \<open>C35. Label values: whatever the input, the sanitised value is accepted by the API server (non-empty,
  at most 63 characters, admissible characters, alphanumeric ends) and has no doubled separator, and
  exactly the values of that form are left unchanged, so sanitising twice changes nothing.\<close>

theorem label_sanitiser_correct:
  "canonical_label (toRFC1123Label s) \<and> (toRFC1123Label s = s \<longleftrightarrow> canonical_label s) \<and>
   toRFC1123Label (toRFC1123Label s) = toRFC1123Label s"
  using toRFC1123Label_canonical [of s] toRFC1123Label_fixpoint by metis

text \<open>C34. The loops of both sanitisers end for every input, although nothing in the source bounds them: the loop that
  squeezes doubled separators returns the string without doubles after at most as many rounds as it removes
  characters, and the loops that cut the ends return what is left of the string from its first, or up to its
  last, letter or digit.\<close>

theorem sanitiser_loops_end:
  "collapse_loop c out = Some (collapse c out) \<and> \<not> sublist [c, c] (collapse c out) \<and>
   (\<exists>k \<le> length out - length (collapse c out). ((\<lambda>out. ReplaceAll out [c, c] [c]) ^^ k) out = collapse c out) \<and>
   strip_left_loop out = Some (dropWhile (\<lambda>r. \<not> isAlnum r) out) \<and>
   strip_right_loop out = Some (rev (dropWhile (\<lambda>r. \<not> isAlnum r) (rev out)))"
  using collapse_loop_result strip_left_loop_result strip_right_loop_result collapse_no_double [of c out] collapse_rounds
  by (simp add: no_double_def strip_left_def strip_right_def)

text \<open>Name parts: the sanitised value is never empty, uses only lower-case letters, digits, dashes and
  dots, starts and ends with a letter or digit and has no doubled dash.\<close>

theorem subdomain_sanitiser_shape:
  "toRFC1123Subdomain s \<noteq> [] \<and> list_all subdomain_char (toRFC1123Subdomain s) \<and>
   isAlnum (hd (toRFC1123Subdomain s)) \<and> isAlnum (last (toRFC1123Subdomain s)) \<and>
   no_double (CHR ''-'') (toRFC1123Subdomain s)"
  by (rule toRFC1123Subdomain_shape)

text \<open>The name sanitiser does not collapse dots as documented: one pass of replacement leaves a doubled
  dot, which no RFC 1123 subdomain contains.\<close>

theorem subdomain_double_dot:
  "toRFC1123Subdomain ''a....b'' = ''a..b'' \<and> \<not> no_double (CHR ''.'') (toRFC1123Subdomain ''a....b'')"
  by code_simp

end
