(* ===== verification/SessionRequest.thy ===== *)
theory SessionRequest
  imports SessionController Naming
begin

text \<open>
  \<^verbatim>\<open>handleRequestBreakglassSession\<close>: creating a session.  The handler is cut at its early returns
  into phases: validation and group resolution, selection of the escalation, the check for an
  existing session, the object that is created, the request counter, the initial status, the
  notification.  \<open>handleRequestBreakglassSession\<close> composes them in the source's order.

  The body argument is \<open>None\<close> when it cannot be decoded.  A run-time panic of the source is the
  response \<open>Panic\<close>, with the world as it was left.  The background goroutine that only resolves
  and logs group members is not part of the model.
\<close>

subsection \<open>Validation and group resolution\<close>

record BreakglassSessionRequest =
  rq_Clustername :: string
  rq_Username :: string
  rq_GroupName :: string
  rq_Reason :: string

definition validateSessionRequest :: "BreakglassSessionRequest \<Rightarrow> error option" where
  "validateSessionRequest request =
     (if rq_Clustername request = [] then Some (Err ''cluster is required'')
      else if rq_Username request = [] then Some (Err ''user is required'')
      else if rq_GroupName request = [] then Some (Err ''group is required'')
      else None)"

definition resolve_user_groups ::
  "'w BreakglassSessionController \<Rightarrow> request_context \<Rightarrow> ClusterUserGroup \<Rightarrow> string list result" where
  "resolve_user_groups wc c cug =
     (let token = (case ctx_groups c of Some arr \<Rightarrow> arr | None \<Rightarrow> []);
          resolved = (if length token = 0 then wc_getUserGroupsFn wc cug else Inr token)
      in case resolved of
           Inl e \<Rightarrow> Inl e
         | Inr groups \<Rightarrow>
             Inr (if loaded_prefixes (wc_load wc) \<noteq> [] then stripOIDCPrefixes groups (loaded_prefixes (wc_load wc))
                  else groups))"

subsection \<open>Selection of the escalation\<close>

record request_plan =
  pl_possible :: "BreakglassEscalation list"
  pl_approvers :: "string list"
  pl_denyPolicies :: "string list"
  pl_matched :: BreakglassEscalation

text \<open>The loop that collects the offered groups, the users to notify and the deny policies of the
  requested group, then the first escalation that grants it.\<close>

definition plan_request :: "BreakglassSessionRequest \<Rightarrow> BreakglassEscalation list \<Rightarrow> response + request_plan" where
  "plan_request request possibleEscals =
     (let possible = map (\<lambda>p. EscalatedGroup (be_spec p)) possibleEscals;
          approvers = concat (map (\<lambda>p. ApproverUsers (EscApprovers (be_spec p))) possibleEscals);
          selected = concat (map (\<lambda>p. if EscalatedGroup (be_spec p) = rq_GroupName request
                                      then EscDenyPolicyRefs (be_spec p) else []) possibleEscals)
      in if \<not> SlicesContains possible (rq_GroupName request)
         then Inl (JSONText 401 ''user unauthorized for group'')
         else case List.find (\<lambda>p. EscalatedGroup (be_spec p) = rq_GroupName request) possibleEscals of
                None \<Rightarrow> Inl (JSONText 401 ''no escalation found for requested group'')
              | Some matchedEsc \<Rightarrow>
                  if (case EscRequestReason (be_spec matchedEsc) of Some rc \<Rightarrow> Mandatory rc | None \<Rightarrow> False) \<and>
                     TrimSpace (rq_Reason request) = []
                  then Inl (JSONText 422 ''missing required request reason'')
                  else Inr \<lparr>pl_possible = possibleEscals, pl_approvers = approvers,
                            pl_denyPolicies = selected, pl_matched = matchedEsc\<rparr>)"

definition check_request ::
  "'w BreakglassSessionController \<Rightarrow> request_context \<Rightarrow> BreakglassSessionRequest option \<Rightarrow> 'w world \<Rightarrow>
   response + BreakglassSessionRequest \<times> request_plan" where
  "check_request wc c body w =
     (case body of
        None \<Rightarrow> Inl (StatusOnly 422)
      | Some request \<Rightarrow>
          (case validateSessionRequest request of
             Some e \<Rightarrow> Inl (JSONText 422 (''missing input request data: '' @ error_text e))
           | None \<Rightarrow>
               (case resolve_user_groups wc c \<lparr>cug_Clustername = rq_Clustername request,
                       cug_Username = rq_Username request, cug_GroupName = rq_GroupName request\<rparr> of
                  Inl _ \<Rightarrow> Inl (JSONText 500 ''failed to extract user groups'')
                | Inr userGroups \<Rightarrow>
                    (case GetClusterGroupBreakglassEscalations (wc_client wc) (wc_load wc) (rq_Clustername request) userGroups w of
                       Inl _ \<Rightarrow> Inl (JSONText 500 ''failed to extract cluster breakglass escalation information'')
                     | Inr escalations \<Rightarrow>
                         let possibleEscals = map dropK8sInternalFieldsEscalation escalations in
                         if length possibleEscals = 0 then Inl (JSONText 401 ''user unauthorized for group'')
                         else (case plan_request request possibleEscals of
                                 Inl r \<Rightarrow> Inl r
                               | Inr plan \<Rightarrow> Inr (request, plan))))))"

subsection \<open>An existing session\<close>

definition existing_response :: "BreakglassSession \<Rightarrow> response" where
  "existing_response ses0 =
     (let ses = dropK8sInternalFieldsSession ses0 in
      if State (bs_status ses) = SessionStateApproved \<or> \<not> IsZero (ApprovedAt (bs_status ses))
      then JSONErrorSession 409 ''already approved'' ses
      else if IsSessionPendingApproval ses then JSONErrorSession 409 ''already requested'' ses
      else JSONErrorSession 409 ''session exists'' ses)"

subsection \<open>The new session\<close>

definition label_cluster :: string where "label_cluster = ''breakglass.t-caas.telekom.com/cluster''"
definition label_user :: string where "label_user = ''breakglass.t-caas.telekom.com/user''"
definition label_group :: string where "label_group = ''breakglass.t-caas.telekom.com/group''"

definition new_session :: "BreakglassSessionRequest \<Rightarrow> request_plan \<Rightarrow> BreakglassSession" where
  "new_session request plan =
     (let m = pl_matched plan;
          spec = zero_spec\<lparr>Cluster := rq_Clustername request, User := rq_Username request,
                   GrantedGroup := rq_GroupName request, DenyPolicyRefs := pl_denyPolicies plan,
                   RequestReason := rq_Reason request, MaxValidFor := EscMaxValidFor (be_spec m),
                   RetainFor := EscRetainFor (be_spec m), IdleTimeout := EscIdleTimeout (be_spec m)\<rparr>;
          mt = zero_meta\<lparr>
                 Labels := map_set label_group (toRFC1123Label (rq_GroupName request))
                             (map_set label_user (toRFC1123Label (rq_Username request))
                               (map_set label_cluster (toRFC1123Label (rq_Clustername request)) [])),
                 Namespace := Namespace (be_meta m),
                 GenerateName := toRFC1123Subdomain (rq_Clustername request) @ ''-'' @
                                 toRFC1123Subdomain (rq_GroupName request) @ ''-''\<rparr>
      in \<lparr>bs_meta = mt, bs_spec = spec, bs_status = zero_status,
          bs_OwnerReferences = [\<lparr>or_APIVersion = GroupVersion, or_Kind = ''BreakglassEscalation'',
            or_Name = Name (be_meta m), or_UID = UID (be_meta m), or_Controller = Some True\<rparr>]\<rparr>)"

subsection \<open>The request counter\<close>

definition bump_request :: "BreakglassEscalation \<Rightarrow> BreakglassEscalation" where
  "bump_request e =
     (let st = be_status e in
      e\<lparr>be_status := st\<lparr>RequestCount := (if RequestCount st = 0 then 1 else RequestCount st + 1)\<rparr>\<rparr>)"

text \<open>\<open>None\<close> is the index-out-of-range panic of \<^verbatim>\<open>matchedEsc.Spec.Allowed.Clusters[0]\<close>.\<close>

definition increment_request_count ::
  "'w BreakglassSessionController \<Rightarrow> BreakglassEscalation \<Rightarrow> 'w world \<Rightarrow> 'w world option" where
  "increment_request_count wc matchedEsc w =
     (case Clusters (Allowed (be_spec matchedEsc)) of
        [] \<Rightarrow> None
      | cluster # _ \<Rightarrow>
          Some (case GetClusterGroupBreakglassEscalations (wc_client wc) (wc_load wc) cluster [] w of
                  Inl _ \<Rightarrow> w
                | Inr esc \<Rightarrow>
                    (case List.find (\<lambda>e. Name (be_meta e) = Name (be_meta matchedEsc)) esc of
                       None \<Rightarrow> w
                     | Some e \<Rightarrow> fst (UpdateBreakglassEscalationStatus (wc_client wc) (bump_request e) w))))"

subsection \<open>The initial status\<close>

definition approvalTimeout :: duration where
  "approvalTimeout = Hour"

definition requested_status :: "instant \<Rightarrow> string \<Rightarrow> string \<Rightarrow> BreakglassSessionStatus" where
  "requested_status now username retain =
     add_condition now SessionConditionTypeIdle SessionConditionReasonEditedByApprover
       (''User '' @ Quote username @ '' requested session.'')
       (zero_status\<lparr>RetainedUntil := now + duration_or_default retain DefaultRetainForDuration,
          TimeoutAt := now + approvalTimeout, State := SessionStatePending\<rparr>)"

subsection \<open>The notification\<close>

definition sendOnRequestEmail ::
  "'w BreakglassSessionController \<Rightarrow> BreakglassSession \<Rightarrow> string \<Rightarrow> string \<Rightarrow> string list \<Rightarrow>
   'w world \<Rightarrow> 'w world \<times> error option" where
  "sendOnRequestEmail wc bs requestEmail requestUsername approvers w =
     (let subj = ''Cluster '' @ Quote (Cluster (bs_spec bs)) @ '' user '' @ Quote (User (bs_spec bs)) @
                 '' is requesting breakglass group assignment '' @ Quote (GrantedGroup (bs_spec bs));
          fe = cfg_Frontend (wc_config wc)
      in case wc_render wc \<lparr>SubjectEmail = requestEmail, SubjectFullName = requestUsername,
                RequestedCluster = Cluster (bs_spec bs), RequestedUsername = User (bs_spec bs),
                RequestedGroup = GrantedGroup (bs_spec bs),
                MailURL = BaseURL fe @ ''/review?name='' @ Name (bs_meta bs),
                MailBrandingName = (if BrandingName fe \<noteq> [] then BrandingName fe else ''Breakglass'')\<rparr> of
           Inl e \<Rightarrow> (w, Some e)
         | Inr body \<Rightarrow> Send (wc_dial wc) (NewSender (wc_config wc)) approvers subj body w)"

definition notify_request ::
  "'w BreakglassSessionController \<Rightarrow> BreakglassSession \<Rightarrow> string \<Rightarrow> string \<Rightarrow> string list \<Rightarrow> 'w world \<Rightarrow> 'w world" where
  "notify_request wc bs useremail username approvers w =
     (if wc_disable_email wc = ''1'' then w
      else fst (sendOnRequestEmail wc bs useremail username approvers w))"

subsection \<open>The handler\<close>

text \<open>From the created session on: the counter, the second lookup, the status, the answer.\<close>

definition finish_request ::
  "instant \<Rightarrow> 'w BreakglassSessionController \<Rightarrow> request_context \<Rightarrow> BreakglassSessionRequest \<Rightarrow> request_plan \<Rightarrow>
   'w world \<Rightarrow> response \<times> 'w world" where
  "finish_request now wc c request plan w =
     (case increment_request_count wc (pl_matched plan) w of
        None \<Rightarrow> (Panic ''index out of range [0] with length 0'', w)
      | Some w1 \<Rightarrow>
          (let found = getActiveBreakglassSession now (wc_client wc) (rq_Username request)
                         (rq_Clustername request) (rq_GroupName request) w1
           in if (case found of Inl e \<Rightarrow> e \<noteq> ErrSessionNotFound | Inr _ \<Rightarrow> False) then (StatusOnly 500, w1)
              else
                let bs0 = (case found of Inr bs \<Rightarrow> bs | Inl _ \<Rightarrow> zero_session);
                    bs = bs0\<lparr>bs_status := requested_status now (GetUsername c) (EscRetainFor (be_spec (pl_matched plan)))\<rparr>
                in (case UpdateBreakglassSessionStatus (wc_client wc) bs w1 of
                      (w2, Some _) \<Rightarrow> (StatusOnly 500, w2)
                    | (w2, None) \<Rightarrow>
                        (JSONSession 201 bs,
                         notify_request wc bs (ctx_email c) (GetUsername c) (pl_approvers plan) w2))))"

definition handleRequestBreakglassSession ::
  "instant \<Rightarrow> 'w BreakglassSessionController \<Rightarrow> request_context \<Rightarrow> BreakglassSessionRequest option \<Rightarrow>
   'w world \<Rightarrow> response \<times> 'w world" where
  "handleRequestBreakglassSession now wc c body w =
     (case check_request wc c body w of
        Inl r \<Rightarrow> (r, w)
      | Inr (request, plan) \<Rightarrow>
          (case getActiveBreakglassSession now (wc_client wc) (rq_Username request)
                  (rq_Clustername request) (rq_GroupName request) w of
             Inr ses \<Rightarrow> (existing_response ses, w)
           | Inl e \<Rightarrow>
               if e \<noteq> ErrSessionNotFound
               then (JSONText 500 ''failed to extract breakglass session information'', w)
               else (case GetEmail c of
                       Inl _ \<Rightarrow> (JSONText 500 ''failed to extract email from token'', w)
                     | Inr useremail \<Rightarrow>
                         (case AddBreakglassSession (wc_client wc) (new_session request plan) w of
                            (w1, Some _) \<Rightarrow> (StatusOnly 500, w1)
                          | (w1, None) \<Rightarrow> finish_request now wc c request plan w1))))"

subsection \<open>Properties\<close>

lemma plan_request_find:
  "plan_request request es = Inr plan \<Longrightarrow>
     pl_matched plan \<in> set es \<and> EscalatedGroup (be_spec (pl_matched plan)) = rq_GroupName request"
  by (auto simp: plan_request_def Let_def find_Some_iff split: if_splits option.splits)

text \<open>The branch without a matching escalation after the membership test cannot be reached.\<close>

lemma plan_request_no_dead_branch:
  "SlicesContains (map (\<lambda>p. EscalatedGroup (be_spec p)) es) g \<Longrightarrow>
   List.find (\<lambda>p. EscalatedGroup (be_spec p) = g) es \<noteq> None"
  by (auto simp: find_None_iff)

lemma check_request_Inr:
  assumes "check_request wc c body w = Inr (request, plan)"
  shows "body = Some request \<and> rq_Clustername request \<noteq> [] \<and> rq_Username request \<noteq> [] \<and> rq_GroupName request \<noteq> [] \<and>
    (\<exists>gs es e. resolve_user_groups wc c \<lparr>cug_Clustername = rq_Clustername request, cug_Username = rq_Username request,
          cug_GroupName = rq_GroupName request\<rparr> = Inr gs \<and>
       GetClusterGroupBreakglassEscalations (wc_client wc) (wc_load wc) (rq_Clustername request) gs w = Inr es \<and>
       e \<in> set es \<and> pl_matched plan = dropK8sInternalFieldsEscalation e \<and>
       EscalatedGroup (be_spec e) = rq_GroupName request)"
proof -
  obtain gs es where body: "body = Some request" and v: "validateSessionRequest request = None"
    and g: "resolve_user_groups wc c \<lparr>cug_Clustername = rq_Clustername request, cug_Username = rq_Username request,
          cug_GroupName = rq_GroupName request\<rparr> = Inr gs"
    and es: "GetClusterGroupBreakglassEscalations (wc_client wc) (wc_load wc) (rq_Clustername request) gs w = Inr es"
    and plan: "plan_request request (map dropK8sInternalFieldsEscalation es) = Inr plan"
    using assms by (auto simp: check_request_def Let_def split: option.splits sum.splits if_splits)
  from plan_request_find [OF plan] obtain e where "e \<in> set es" "pl_matched plan = dropK8sInternalFieldsEscalation e"
    "EscalatedGroup (be_spec (dropK8sInternalFieldsEscalation e)) = rq_GroupName request" by auto
  with body v g es show ?thesis
    by (auto simp: validateSessionRequest_def dropK8sInternalFieldsEscalation_def split: if_splits)
qed

lemma request_created:
  assumes "handleRequestBreakglassSession now wc c body w = (r, w')" "status_code r = 201"
  obtains request plan where "check_request wc c body w = Inr (request, plan)"
    "getActiveBreakglassSession now (wc_client wc) (rq_Username request) (rq_Clustername request) (rq_GroupName request) w
       = Inl ErrSessionNotFound" "ctx_email c \<noteq> []"
proof -
  have ex: "status_code (existing_response s) = 409" for s by (simp add: existing_response_def Let_def)
  have chk: "status_code x \<noteq> 201" if "check_request wc c body w = Inl x" for x
    using that by (auto simp: check_request_def plan_request_def Let_def split: option.splits sum.splits if_splits)
  show ?thesis
    using assms ex chk that
    by (auto simp: handleRequestBreakglassSession_def GetEmail_def split: sum.splits if_splits)
qed

text \<open>C14. A session is only created for an authorised request: a 201 answer means that cluster, user and
  group were given, that some escalation applies to that cluster and to one of the user's groups and
  leads to the requested group, that the caller has an email and that no active session of that user
  for that cluster and group was stored.\<close>

theorem request_created_authorised:
  assumes "escalation_listing (wc_client wc) stored" "kube_sessions (wc_client wc) sessions ok"
    and "handleRequestBreakglassSession now wc c body w = (r, w')" "status_code r = 201"
  shows "\<exists>request gs esc. body = Some request \<and> rq_Clustername request \<noteq> [] \<and> rq_Username request \<noteq> [] \<and>
     rq_GroupName request \<noteq> [] \<and> ctx_email c \<noteq> [] \<and>
     resolve_user_groups wc c \<lparr>cug_Clustername = rq_Clustername request, cug_Username = rq_Username request,
       cug_GroupName = rq_GroupName request\<rparr> = Inr gs \<and>
     esc \<in> set (stored (api w)) \<and> cluster_match (rq_Clustername request) esc \<and>
     set gs \<inter> set (normalized_allowed (loaded_prefixes (wc_load wc)) esc) \<noteq> {} \<and>
     EscalatedGroup (be_spec esc) = rq_GroupName request \<and>
     (\<forall>s \<in> set (sessions (api w)). Cluster (bs_spec s) = rq_Clustername request \<and> User (bs_spec s) = rq_Username request \<and>
        GrantedGroup (bs_spec s) = rq_GroupName request \<longrightarrow> \<not> IsSessionActive now s)"
proof -
  obtain request plan where chk: "check_request wc c body w = Inr (request, plan)"
    and act: "getActiveBreakglassSession now (wc_client wc) (rq_Username request) (rq_Clustername request) (rq_GroupName request) w
       = Inl ErrSessionNotFound" and email: "ctx_email c \<noteq> []"
    by (rule request_created [OF assms(3,4)])
  from check_request_Inr [OF chk] obtain gs es e where rq: "body = Some request" "rq_Clustername request \<noteq> []"
      "rq_Username request \<noteq> []" "rq_GroupName request \<noteq> []"
    and gs: "resolve_user_groups wc c \<lparr>cug_Clustername = rq_Clustername request, cug_Username = rq_Username request,
          cug_GroupName = rq_GroupName request\<rparr> = Inr gs"
    and es: "GetClusterGroupBreakglassEscalations (wc_client wc) (wc_load wc) (rq_Clustername request) gs w = Inr es"
    and e: "e \<in> set es" "EscalatedGroup (be_spec e) = rq_GroupName request" by blast
  have esc: "e \<in> set (stored (api w))" "cluster_match (rq_Clustername request) e"
      "set gs \<inter> set (normalized_allowed (loaded_prefixes (wc_load wc)) e) \<noteq> {}"
    using escalation_listing.cluster_group_sound [OF assms(1) es e(1)] by (auto simp: group_match_iff)
  let ?sel = "[(''spec.cluster'', rq_Clustername request), (''spec.user'', rq_Username request),
      (''spec.grantedGroup'', rq_GroupName request)]"
  obtain xs where l: "list_sessions (wc_client wc) ?sel (api w) = Inr xs" and none: "filter (IsSessionActive now) xs = []"
    using act
    by (auto simp: getActiveBreakglassSession_def GetBreakglassSessionsWithSelector_def Let_def wrap_error_def
        map_error_def split: sum.splits if_splits)
  have xs: "xs = filter (index_matches session_index ?sel) (sessions (api w))"
    using kube_sessions.list_sessions_Inr [OF assms(2) l] .
  have "\<not> IsSessionActive now s" if "s \<in> set (sessions (api w))" "Cluster (bs_spec s) = rq_Clustername request"
      "User (bs_spec s) = rq_Username request" "GrantedGroup (bs_spec s) = rq_GroupName request" for s
  proof -
    have "s \<in> set xs" using that by (simp add: xs index_matches_def session_index_def)
    with none show ?thesis by (metis filter_empty_conv)
  qed
  with rq email gs esc e(2) show ?thesis by blast
qed

definition ex_request :: BreakglassSessionRequest where
  "ex_request = \<lparr>rq_Clustername = ''prod'', rq_Username = ''dev@ex.org'', rq_GroupName = ''admin'', rq_Reason = ''fix''\<rparr>"

theorem request_created_authorised_witness:
  "\<exists>esc \<in> {ex_escalation}. cluster_match ''prod'' esc \<and> EscalatedGroup (be_spec esc) = ''admin''"
proof -
  let ?run = "handleRequestBreakglassSession ex_now ex_wc ex_dev (Some ex_request) (ex_world [])"
  have l: "escalation_listing (wc_client ex_wc) m_escalations"
    using mem_escalations.escalation_listing_axioms by (simp add: ex_wc_def)
  have k: "kube_sessions (wc_client ex_wc) m_sessions mem_wf"
    using mem.kube_sessions_axioms by (simp add: ex_wc_def)
  have "status_code (fst ?run) = 201" by code_simp
  from request_created_authorised [OF l k surjective_pairing this] show ?thesis
    by (auto simp: ex_world_def ex_api_def ex_request_def)
qed

text \<open>The last conflict answer is dead code: an existing active session is always reported as already
  approved or already requested, so a session that timed out waiting for approval is still reported as
  already requested.\<close>

theorem existing_session_never_generic:
  assumes "IsSessionActive now s"
  shows "existing_response s = JSONErrorSession 409 ''already approved'' (dropK8sInternalFieldsSession s) \<or>
    existing_response s = JSONErrorSession 409 ''already requested'' (dropK8sInternalFieldsSession s)"
  using assms by (auto simp: existing_response_def Let_def session_predicate_defs)

theorem existing_session_never_generic_witness:
  "existing_response (ex_pending\<lparr>bs_status := (bs_status ex_pending)\<lparr>State := SessionStateTimeout\<rparr>\<rparr>) =
     JSONErrorSession 409 ''already requested''
       (dropK8sInternalFieldsSession (ex_pending\<lparr>bs_status := (bs_status ex_pending)\<lparr>State := SessionStateTimeout\<rparr>\<rparr>))"
  (is "existing_response ?s = _")
proof -
  have "IsSessionActive ex_now ?s" by code_simp
  moreover have "existing_response ?s \<noteq> JSONErrorSession 409 ''already approved'' (dropK8sInternalFieldsSession ?s)" by code_simp
  ultimately show ?thesis using existing_session_never_generic [of ex_now ?s] by blast
qed

text \<open>C38. An escalation that grants a cluster only through cluster config references breaks the request: once
  the session is created the handler reads the first element of the empty cluster list and panics, and
  the created session is left without a status.\<close>

theorem request_panics_without_clusters:
  assumes "check_request wc c body w = Inr (request, plan)"
    and "getActiveBreakglassSession now (wc_client wc) (rq_Username request) (rq_Clustername request) (rq_GroupName request) w
           = Inl ErrSessionNotFound"
    and "ctx_email c \<noteq> []" "AddBreakglassSession (wc_client wc) (new_session request plan) w = (w1, None)"
    and "Clusters (Allowed (be_spec (pl_matched plan))) = []"
  shows "handleRequestBreakglassSession now wc c body w = (Panic ''index out of range [0] with length 0'', w1)"
  using assms by (simp add: handleRequestBreakglassSession_def finish_request_def increment_request_count_def GetEmail_def)

definition ex_ref_world :: "mem_api world" where
  "ex_ref_world = (ex_world [])\<lparr>api := (api (ex_world []))\<lparr>m_escalations :=
     [ex_escalation\<lparr>be_spec := (be_spec ex_escalation)\<lparr>Allowed := \<lparr>Clusters = [], Groups = [''dev'']\<rparr>,
        ClusterConfigRefs := [''prod'']\<rparr>\<rparr>]\<rparr>\<rparr>"

theorem request_panics_without_clusters_witness:
  "\<exists>w1. handleRequestBreakglassSession ex_now ex_wc ex_dev (Some ex_request) ex_ref_world =
     (Panic ''index out of range [0] with length 0'', w1) \<and>
     map (\<lambda>s. bs_status s) (m_sessions (api w1)) = [zero_status]"
proof -
  let ?chk = "check_request ex_wc ex_dev (Some ex_request) ex_ref_world"
  let ?pl = "snd (projr ?chk)"
  let ?add = "AddBreakglassSession mem_client (new_session ex_request ?pl) ex_ref_world"
  have "\<not> isl ?chk" and rq: "fst (projr ?chk) = ex_request" by code_simp+
  then have chk: "?chk = Inr (ex_request, ?pl)" by (metis prod.collapse sum.collapse(2))
  have cl: "Clusters (Allowed (be_spec (pl_matched ?pl))) = []" by code_simp
  have "snd ?add = None" and st: "map (\<lambda>s. bs_status s) (m_sessions (api (fst ?add))) = [zero_status]" by code_simp+
  then have add: "?add = (fst ?add, None)" by (metis prod.collapse)
  have act: "getActiveBreakglassSession ex_now (wc_client ex_wc) (rq_Username ex_request) (rq_Clustername ex_request)
      (rq_GroupName ex_request) ex_ref_world = Inl ErrSessionNotFound" by code_simp
  have add': "AddBreakglassSession (wc_client ex_wc) (new_session ex_request ?pl) ex_ref_world = (fst ?add, None)"
  proof -
    have "wc_client ex_wc = mem_client" by (simp add: ex_wc_def)
    then show ?thesis using add by (simp only:)
  qed
  have em: "ctx_email ex_dev \<noteq> []" by (simp add: ex_dev_def)
  show ?thesis
    by (intro exI [of _ "fst ?add"] conjI request_panics_without_clusters [OF chk act em add' cl] st)
qed

text \<open>The request counter is dead: whenever the handler gets past it, the world is unchanged by it.\<close>

theorem request_count_never_incremented:
  "increment_request_count wc e w = None \<or> increment_request_count wc e w = Some w"
  by (auto simp: increment_request_count_def dest!: cluster_group_no_groups split: list.splits sum.splits)


end
