(* ===== verification/Expiry.thy ===== *)
theory Expiry
  imports SessionController
begin

text \<open>
  The periodic tasks: \<^verbatim>\<open>expire_pending_sessions.go\<close>, \<^verbatim>\<open>expire_approved_sessions.go\<close> and
  \<^verbatim>\<open>cleanup_task.go\<close>.  The body of each loop is a function of the listed session and the current
  world, so that it can also be applied to a listing that is out of date.  The endless loop with
  its sleep is one application of \<open>cleanup_round\<close> per interval.
\<close>

subsection \<open>Approval timeout\<close>

definition timeout_status :: "instant \<Rightarrow> BreakglassSession \<Rightarrow> BreakglassSessionStatus" where
  "timeout_status now ses =
     add_condition now SessionConditionTypeExpired ''ApprovalTimeout'' ''Session approval timed out.''
       ((bs_status ses)\<lparr>State := SessionStateTimeout\<rparr>)"

definition expire_pending_one :: "instant \<Rightarrow> 'w client \<Rightarrow> BreakglassSession \<Rightarrow> 'w world \<Rightarrow> 'w world" where
  "expire_pending_one now cl ses w =
     (if IsSessionApprovalTimedOut now ses then
        (case UpdateBreakglassSessionStatus cl (ses\<lparr>bs_status := timeout_status now ses\<rparr>) w of
           (w', None) \<Rightarrow> inc_metric (SessionExpired (Cluster (bs_spec ses))) w'
         | (w', Some _) \<Rightarrow> w')
      else w)"

definition ExpirePendingSessions :: "instant \<Rightarrow> 'w client \<Rightarrow> 'w world \<Rightarrow> 'w world" where
  "ExpirePendingSessions now cl w =
     (case GetAllBreakglassSessions cl w of
        Inl _ \<Rightarrow> w
      | Inr sessions \<Rightarrow> fold (expire_pending_one now cl) sessions w)"

subsection \<open>End of validity\<close>

definition expire_status :: "instant \<Rightarrow> BreakglassSession \<Rightarrow> BreakglassSessionStatus" where
  "expire_status now ses =
     (add_condition now SessionConditionTypeExpired ''ExpiredByTime''
        ''Session expired because its ExpiresAt has been reached.''
        ((bs_status ses)\<lparr>State := SessionStateExpired\<rparr>))\<lparr>ReasonEnded := ''timeExpired''\<rparr>"

text \<open>The retry loop: the flag says whether the last attempt failed; a refetched object receives the
  state, the conditions and the reason.\<close>

fun attempt_updates ::
  "nat \<Rightarrow> 'w client \<Rightarrow> BreakglassSession \<Rightarrow> 'w world \<Rightarrow> bool \<times> BreakglassSession \<times> 'w world" where
  "attempt_updates 0 cl ses w = (True, ses, w)"
| "attempt_updates (Suc n) cl ses w =
     (case UpdateBreakglassSessionStatus cl ses w of
        (w', None) \<Rightarrow> (False, ses, inc_metric (SessionExpired (Cluster (bs_spec ses))) w')
      | (w', Some _) \<Rightarrow>
          (case GetBreakglassSessionByName cl (Name (bs_meta ses)) w' of
             Inl _ \<Rightarrow> (True, ses, w')
           | Inr updated \<Rightarrow>
               attempt_updates n cl
                 (updated\<lparr>bs_status := (bs_status updated)\<lparr>State := State (bs_status ses),
                    Conditions := Conditions (bs_status ses), ReasonEnded := ReasonEnded (bs_status ses)\<rparr>\<rparr>) w'))"

definition expire_approved_one :: "instant \<Rightarrow> 'w client \<Rightarrow> BreakglassSession \<Rightarrow> 'w world \<Rightarrow> 'w world" where
  "expire_approved_one now cl ses w =
     (if State (bs_status ses) = SessionStateApproved \<and> IsSessionExpired now ses then
        (let ses1 = ses\<lparr>bs_status := expire_status now ses\<rparr>;
             ses2 = (case GetBreakglassSessionByName cl (Name (bs_meta ses1)) w of
                       Inr stored \<Rightarrow> ses1\<lparr>bs_meta := (bs_meta ses1)\<lparr>Namespace := Namespace (bs_meta stored),
                                         ResourceVersion := ResourceVersion (bs_meta stored)\<rparr>\<rparr>
                     | Inl _ \<Rightarrow> ses1)
         in case attempt_updates 3 cl ses2 w of
              (failed, ses3, w') \<Rightarrow> if failed then fst (UpdateBreakglassSession cl ses3 w') else w')
      else w)"

definition ExpireApprovedSessions :: "instant \<Rightarrow> 'w client \<Rightarrow> 'w world \<Rightarrow> 'w world" where
  "ExpireApprovedSessions now cl w =
     (case GetAllBreakglassSessions cl w of
        Inl _ \<Rightarrow> w
      | Inr sessions \<Rightarrow> fold (expire_approved_one now cl) sessions w)"

subsection \<open>Deletion\<close>

definition past_retention :: "instant \<Rightarrow> BreakglassSession \<Rightarrow> bool" where
  "past_retention now ses =
     (\<not> IsZero (RetainedUntil (bs_status ses)) \<and> After now (RetainedUntil (bs_status ses)))"

definition orphaned :: "BreakglassSession \<Rightarrow> bool" where
  "orphaned ses = (length (bs_OwnerReferences ses) = 0 \<and> IsZero (RetainedUntil (bs_status ses)) \<and>
     State (bs_status ses) \<noteq> SessionStatePending)"

definition cleanup_one ::
  "instant \<Rightarrow> 'w client \<Rightarrow> BreakglassSession \<Rightarrow> 'w world \<times> nat \<Rightarrow> 'w world \<times> nat" where
  "cleanup_one now cl ses wn =
     (case wn of (w, deletedCount) \<Rightarrow>
        if past_retention now ses then
          (case DeleteBreakglassSession cl ses w of
             (w', Some _) \<Rightarrow> (w', deletedCount)
           | (w', None) \<Rightarrow> (inc_metric (SessionExpired (Cluster (bs_spec ses))) w', Suc deletedCount))
        else if orphaned ses then
          (case DeleteBreakglassSession cl ses w of
             (w', Some _) \<Rightarrow> (w', deletedCount)
           | (w', None) \<Rightarrow> (w', Suc deletedCount))
        else (w, deletedCount))"

definition markCleanupExpiredSession :: "instant \<Rightarrow> 'w client \<Rightarrow> 'w world \<Rightarrow> 'w world \<times> nat" where
  "markCleanupExpiredSession now cl w =
     (case list_sessions cl [] (api w) of
        Inl _ \<Rightarrow> (w, 0)
      | Inr sessions \<Rightarrow> fold (cleanup_one now cl) sessions (w, 0))"

definition CleanupInterval :: duration where
  "CleanupInterval = 5 * Minute"

definition cleanup_round :: "instant \<Rightarrow> 'w client \<Rightarrow> 'w world \<Rightarrow> 'w world" where
  "cleanup_round now cl w =
     fst (markCleanupExpiredSession now cl (ExpireApprovedSessions now cl (ExpirePendingSessions now cl w)))"

subsection \<open>Deletion removes exactly what is due\<close>

definition cleanup_due :: "instant \<Rightarrow> BreakglassSession \<Rightarrow> bool" where
  "cleanup_due now s \<longleftrightarrow> past_retention now s \<or> orphaned s"

lemma cleanup_one_not_due: "\<not> cleanup_due now s \<Longrightarrow> cleanup_one now cl s wn = wn"
  by (cases wn) (simp add: cleanup_one_def cleanup_due_def)

context kube_sessions
begin

lemma cleanup_one_due:
  assumes "wf (api w)" "cleanup_due now s" "cleanup_one now cl s (w, n) = (w', n')"
  shows "wf (api w') \<and>
    (sessions (api w') = sessions (api w) \<and> n' = n \<or>
     sessions (api w') = filter (\<lambda>x. session_key x \<noteq> session_key s) (sessions (api w)) \<and> n' = Suc n)"
proof -
  obtain w1 r where d: "DeleteBreakglassSession cl s w = (w1, r)" by force
  show ?thesis
  proof (cases r)
    case None
    have "wf (api w1)" "sessions (api w1) = filter (\<lambda>x. session_key x \<noteq> session_key s) (sessions (api w))"
      using repo.remove_None [OF assms(1)] d None by auto
    with assms(2,3) d None show ?thesis
      by (auto simp: cleanup_one_def cleanup_due_def split: if_splits)
  next
    case (Some e)
    have "wf (api w1)" "sessions (api w1) = sessions (api w)"
      using repo.remove_Some [OF assms(1)] d Some by auto
    with assms(2,3) d Some show ?thesis
      by (auto simp: cleanup_one_def cleanup_due_def split: if_splits)
  qed
qed

text \<open>Whatever the API server answers, a session that is not due survives, and nothing is added.\<close>

lemma cleanup_fold_keeps:
  assumes "wf (api w)" "set xs \<subseteq> set (sessions (api w0))" "wf (api w0)"
    and "set (sessions (api w)) \<subseteq> set (sessions (api w0))"
    and "fold (cleanup_one now cl) xs (w, n) = (w', n')"
  shows "wf (api w') \<and> set (sessions (api w')) \<subseteq> set (sessions (api w)) \<and>
    filter (\<lambda>s. \<not> cleanup_due now s) (sessions (api w')) = filter (\<lambda>s. \<not> cleanup_due now s) (sessions (api w))"
  using assms
proof (induction xs arbitrary: w n)
  case (Cons s xs)
  obtain w1 n1 where one: "cleanup_one now cl s (w, n) = (w1, n1)" by force
  have step: "wf (api w1) \<and> set (sessions (api w1)) \<subseteq> set (sessions (api w)) \<and>
      filter (\<lambda>s. \<not> cleanup_due now s) (sessions (api w1)) = filter (\<lambda>s. \<not> cleanup_due now s) (sessions (api w))"
  proof (cases "cleanup_due now s")
    case False
    with one Cons.prems show ?thesis by (simp add: cleanup_one_not_due)
  next
    case True
    have s: "s \<in> set (sessions (api w0))" using Cons.prems by simp
    have "x = s" if "x \<in> set (sessions (api w))" "session_key x = session_key s" for x
      using stored_unique [OF Cons.prems(3) _ s] Cons.prems(4) that by blast
    then have "filter (\<lambda>x. \<not> cleanup_due now x)
        (filter (\<lambda>x. session_key x \<noteq> session_key s) (sessions (api w))) =
        filter (\<lambda>x. \<not> cleanup_due now x) (sessions (api w))"
      using True by (auto intro!: filter_cong simp: filter_filter)
    with cleanup_one_due [OF Cons.prems(1) True one] show ?thesis by auto
  qed
  then have sub: "set (sessions (api w1)) \<subseteq> set (sessions (api w0))"
    using Cons.prems(4) by (meson subset_trans)
  have rest: "fold (cleanup_one now cl) xs (w1, n1) = (w', n')" using Cons.prems(5) one by simp
  have xs: "set xs \<subseteq> set (sessions (api w0))" using Cons.prems(2) by simp
  from Cons.IH [OF _ xs Cons.prems(3) sub rest] step show ?case
    by (metis (no_types, lifting) subset_trans)
qed simp

lemma cleanup_fold_exact:
  assumes succ: "\<And>a s. wf a \<Longrightarrow> s \<in> set (sessions a) \<Longrightarrow> snd (delete_session cl s a) = None"
    and "wf (api w)" "sessions (api w) = filter (\<lambda>s. \<not> cleanup_due now s) ys @ xs"
    and "fold (cleanup_one now cl) xs (w, n) = (w', n')"
  shows "sessions (api w') = filter (\<lambda>s. \<not> cleanup_due now s) (ys @ xs)"
  using assms(2-)
proof (induction xs arbitrary: w n ys)
  case (Cons s xs)
  let ?keep = "filter (\<lambda>s. \<not> cleanup_due now s)"
  obtain w1 n1 where one: "cleanup_one now cl s (w, n) = (w1, n1)" by force
  have rest: "fold (cleanup_one now cl) xs (w1, n1) = (w', n')" using Cons.prems one by simp
  have "wf (api w1) \<and> sessions (api w1) = ?keep (ys @ [s]) @ xs"
  proof (cases "cleanup_due now s")
    case False
    with one Cons.prems show ?thesis by (simp add: cleanup_one_not_due)
  next
    case True
    have d: "snd (DeleteBreakglassSession cl s w) = None"
      using succ [OF Cons.prems(1), of s] Cons.prems(2)
      by (auto simp: DeleteBreakglassSession_def split: prod.splits option.splits)
    have "n1 = Suc n"
      using one d True by (auto simp: cleanup_one_def cleanup_due_def split: prod.splits option.splits if_splits)
    then have w1: "wf (api w1)" "sessions (api w1) = filter (\<lambda>x. session_key x \<noteq> session_key s) (sessions (api w))"
      using cleanup_one_due [OF Cons.prems(1) True one] by auto
    have dist: "distinct (map session_key (?keep ys @ s # xs))"
      using keys_distinct [OF Cons.prems(1)] Cons.prems(2) by simp
    have "filter (\<lambda>x. session_key x \<noteq> session_key s) (?keep ys @ s # xs) = ?keep ys @ xs"
      using dist by (rule filter_key_remove)
    with w1 True Cons.prems(2) show ?thesis by simp
  qed
  with Cons.IH [of w1 "ys @ [s]" n1] rest show ?case by simp
qed simp

lemma cleanup_exact:
  assumes "\<And>a s. wf a \<Longrightarrow> s \<in> set (sessions a) \<Longrightarrow> snd (delete_session cl s a) = None"
    and "wf (api w)" "list_sessions cl [] (api w) = Inr xs"
  shows "sessions (api (fst (markCleanupExpiredSession now cl w))) =
         filter (\<lambda>s. \<not> cleanup_due now s) (sessions (api w))"
proof -
  have xs: "xs = sessions (api w)" using listing.lst_all [OF assms(3)] .
  obtain w' n' where f: "fold (cleanup_one now cl) xs (w, 0) = (w', n')" by force
  have "sessions (api w') = filter (\<lambda>s. \<not> cleanup_due now s) ([] @ xs)"
    using assms(2) xs f by (intro cleanup_fold_exact [OF assms(1), where w = w and n = 0 and n' = n']) auto
  with assms(3) f xs show ?thesis by (simp add: markCleanupExpiredSession_def)
qed

lemma cleanup_keeps:
  assumes "wf (api w)" "fst (markCleanupExpiredSession now cl w) = w'"
  shows "wf (api w') \<and> set (sessions (api w')) \<subseteq> set (sessions (api w)) \<and>
    filter (\<lambda>s. \<not> cleanup_due now s) (sessions (api w')) = filter (\<lambda>s. \<not> cleanup_due now s) (sessions (api w))"
proof (cases "list_sessions cl [] (api w)")
  case (Inr xs)
  have xs: "xs = sessions (api w)" using listing.lst_all [OF Inr] .
  obtain w1 n1 where f: "fold (cleanup_one now cl) xs (w, 0) = (w1, n1)" by force
  with assms Inr have "w1 = w'" by (simp add: markCleanupExpiredSession_def)
  with cleanup_fold_keeps [OF assms(1) _ assms(1) _ f] xs show ?thesis by simp
qed (use assms in \<open>simp add: markCleanupExpiredSession_def\<close>)

end

subsection \<open>Properties\<close>

text \<open>C23. Cleanup deletes exactly what is due: when the listing and the deletions succeed, the sessions left
  are those that are neither past their retention date nor orphaned (without owner, retention date and
  not pending), in the same order.\<close>

theorem cleanup_removes_exactly_due:
  assumes "kube_sessions cl sessions ok" "ok (api w)" "list_sessions cl [] (api w) = Inr xs"
    and "\<And>a s. ok a \<Longrightarrow> s \<in> set (sessions a) \<Longrightarrow> snd (delete_session cl s a) = None"
  shows "sessions (api (fst (markCleanupExpiredSession now cl w))) = filter (\<lambda>s. \<not> cleanup_due now s) (sessions (api w))"
  using kube_sessions.cleanup_exact [OF assms(1) assms(4) assms(2,3)] .

theorem cleanup_removes_exactly_due_witness:
  "m_sessions (api (fst (markCleanupExpiredSession (ex_now + 2 * MonthDuration) mem_client (ex_world [ex_pending])))) = []"
proof -
  have l: "list_sessions mem_client [] (api (ex_world [ex_pending])) = Inr [ex_pending]" by code_simp
  have d: "snd (delete_session mem_client s a) = None" if "mem_wf a" "s \<in> set (m_sessions a)" for a s
    using that by (auto simp: mem_client_def mem_delete_session_def)
  have "cleanup_due (ex_now + 2 * MonthDuration) ex_pending" by code_simp
  then show ?thesis
    using cleanup_removes_exactly_due [OF mem.kube_sessions_axioms ex_api_wf(1) l, of "ex_now + 2 * MonthDuration"] d
    by (simp add: ex_world_def ex_api_def)
qed

text \<open>Cleanup never loses a session that is not due, whatever the API server answers to the listing and
  the deletions, and never adds one.\<close>

theorem cleanup_keeps_the_rest:
  assumes "kube_sessions cl sessions ok" "ok (api w)"
  shows "filter (\<lambda>s. \<not> cleanup_due now s) (sessions (api (fst (markCleanupExpiredSession now cl w)))) =
      filter (\<lambda>s. \<not> cleanup_due now s) (sessions (api w)) \<and>
    set (sessions (api (fst (markCleanupExpiredSession now cl w)))) \<subseteq> set (sessions (api w))"
  using kube_sessions.cleanup_keeps [OF assms refl] by blast

theorem cleanup_keeps_the_rest_witness:
  "set (m_sessions (api (fst (markCleanupExpiredSession ex_now mem_client (ex_world [ex_pending]))))) \<subseteq> {ex_pending}"
  using cleanup_keeps_the_rest [OF mem.kube_sessions_axioms ex_api_wf(1), of ex_now] by (simp add: ex_world_def ex_api_def)

text \<open>The approval timeout is not idempotent: a session that was set to the timeout state is still
  considered timed out at every later time, so each cleanup round rewrites it and appends one more
  condition.\<close>

theorem approval_timeout_repeats:
  assumes "IsSessionApprovalTimedOut now s" "now \<le> later"
  shows "IsSessionApprovalTimedOut later (s\<lparr>bs_status := timeout_status now s\<rparr>) \<and>
    length (Conditions (timeout_status now s)) = Suc (length (Conditions (bs_status s)))"
  using assms by (simp add: session_predicate_defs timeout_status_def add_condition_def After_def)

theorem approval_timeout_repeats_witness:
  "IsSessionApprovalTimedOut (ex_now + 4 * Hour)
     (ex_pending\<lparr>bs_status := timeout_status (ex_now + 2 * Hour) ex_pending\<rparr>)"
proof -
  have "IsSessionApprovalTimedOut (ex_now + 2 * Hour) ex_pending" by code_simp
  from approval_timeout_repeats [OF this, of "ex_now + 4 * Hour"] show ?thesis by simp
qed

text \<open>Expiring an approved session from an outdated listing loses a concurrent change: the fresh resource
  version is put on the stale status, so a session that the owner has dropped in between ends without
  its rejection time and with the reason of an ordinary expiry.\<close>

theorem expire_approved_lost_update:
  "let old = ex_approved\<lparr>bs_status := (bs_status ex_approved)\<lparr>ExpiresAt := ex_now - Minute\<rparr>\<rparr>;
       dropped = snd (serve_action ex_now ex_wc ex_dev ''s1'' Drop (ex_world [old]));
       final = expire_approved_one ex_now mem_client old dropped
   in map (\<lambda>s. (ReasonEnded (bs_status s), RejectedAt (bs_status s) = 0)) (m_sessions (api dropped)) = [(''dropped'', False)] \<and>
      map (\<lambda>s. (ReasonEnded (bs_status s), RejectedAt (bs_status s) = 0)) (m_sessions (api final)) = [(''timeExpired'', True)]"
  by code_simp

end
