(* ===== verification/Lifecycle.thy ===== *)
theory Lifecycle
  imports SessionRequest Expiry
begin

text \<open>
  The life cycle of sessions.  \<open>session_step\<close> is the state machine of one session's status,
  with one rule per place in the code that writes a status; \<open>store_step\<close> lifts it to the stored
  sessions (an update of one of them, a creation, deletions, metadata changes), and \<open>reachable\<close>
  is reachability under a clock that never runs backwards.  Every handler and periodic task is
  simulated by store steps, so the invariants proved for reachable stores hold for the program.
\<close>

subsection \<open>Events\<close>

text \<open>What can happen to the stored sessions: a request for a new session, an action on an existing one,
  a round of the cleanup task.  A trace is a list of events with clock readings.\<close>

datatype event =
    RequestEvent request_context "BreakglassSessionRequest option"
  | ActionEvent request_context string session_action
  | CleanupEvent

fun run_event :: "'w BreakglassSessionController \<Rightarrow> instant \<times> event \<Rightarrow> 'w world \<Rightarrow> 'w world" where
  "run_event wc (now, RequestEvent c body) w = snd (handleRequestBreakglassSession now wc c body w)"
| "run_event wc (now, ActionEvent c name act) w = snd (serve_action now wc c name act w)"
| "run_event wc (now, CleanupEvent) w = cleanup_round now (wc_client wc) w"

definition run_trace :: "'w BreakglassSessionController \<Rightarrow> (instant \<times> event) list \<Rightarrow> 'w world \<Rightarrow> 'w world" where
  "run_trace wc evs w = fold (run_event wc) evs w"

fun chronological :: "instant \<Rightarrow> (instant \<times> event) list \<Rightarrow> bool" where
  "chronological t [] = True"
| "chronological t ((now, ev) # evs) = (t \<le> now \<and> chronological now evs)"

fun end_time :: "instant \<Rightarrow> (instant \<times> event) list \<Rightarrow> instant" where
  "end_time t [] = t"
| "end_time t ((now, ev) # evs) = end_time now evs"

subsection \<open>The state machine of one session\<close>

text \<open>The steps that the system makes by itself: completing a request, the approval timeout, the end of
  the validity.\<close>

inductive system_step :: "instant \<Rightarrow> BreakglassSession \<Rightarrow> BreakglassSessionStatus \<Rightarrow> bool"
  for now :: instant and bs :: BreakglassSession where
  submit: "bs_status bs = zero_status \<Longrightarrow> system_step now bs (requested_status now username retain)"
| time_out: "IsSessionApprovalTimedOut now bs \<Longrightarrow> system_step now bs (timeout_status now bs)"
| expire: "State (bs_status bs) = SessionStateApproved \<Longrightarrow> IsSessionExpired now bs \<Longrightarrow>
    system_step now bs (expire_status now bs)"

text \<open>All steps: those of the system and those requested by a user.\<close>

inductive session_step :: "instant \<Rightarrow> BreakglassSession \<Rightarrow> BreakglassSessionStatus \<Rightarrow> bool"
  for now :: instant and bs :: BreakglassSession where
  system: "system_step now bs st \<Longrightarrow> session_step now bs st"
| approve: "State (bs_status bs) = SessionStatePending \<Longrightarrow> session_step now bs (approve_status now email reason bs)"
| reject: "State (bs_status bs) = SessionStatePending \<Longrightarrow> session_step now bs (reject_status now email reason bs)"
| withdraw: "IsSessionPendingApproval bs \<Longrightarrow> session_step now bs (withdraw_status now bs)"
| drop: "session_step now bs (drop_status now bs)"
| cancel: "State (bs_status bs) = SessionStateApproved \<Longrightarrow> ApprovedAt (bs_status bs) \<noteq> 0 \<Longrightarrow>
    session_step now bs (cancel_status now email bs)"

inductive_cases system_stepE: "system_step now bs st"
inductive_cases session_stepE: "session_step now bs st"

subsection \<open>The store\<close>

text \<open>A step of the store for a relation \<open>R\<close> between a session and its next status.\<close>

inductive store_step ::
  "(BreakglassSession \<Rightarrow> BreakglassSessionStatus \<Rightarrow> bool) \<Rightarrow> BreakglassSession list \<Rightarrow> BreakglassSession list \<Rightarrow> bool"
  for R :: "BreakglassSession \<Rightarrow> BreakglassSessionStatus \<Rightarrow> bool" and xs :: "BreakglassSession list" where
  update: "bs \<in> set xs \<Longrightarrow> R bs st \<Longrightarrow> status_written xs (bs\<lparr>bs_status := st\<rparr>) xs' \<Longrightarrow>
    distinct (map session_key xs) \<Longrightarrow> store_step R xs xs'"
| create: "bs_status s = zero_status \<Longrightarrow> session_key s \<notin> session_key ` set xs \<Longrightarrow> store_step R xs (xs @ [s])"
| remove: "set xs' \<subseteq> set xs \<Longrightarrow> store_step R xs xs'"
| metadata: "map session_payload xs' = map session_payload xs \<Longrightarrow> store_step R xs xs'"

text \<open>The steps that create nothing.\<close>

inductive quiet_step ::
  "(BreakglassSession \<Rightarrow> BreakglassSessionStatus \<Rightarrow> bool) \<Rightarrow> BreakglassSession list \<Rightarrow> BreakglassSession list \<Rightarrow> bool"
  for R :: "BreakglassSession \<Rightarrow> BreakglassSessionStatus \<Rightarrow> bool" and xs :: "BreakglassSession list" where
  update: "bs \<in> set xs \<Longrightarrow> R bs st \<Longrightarrow> status_written xs (bs\<lparr>bs_status := st\<rparr>) xs' \<Longrightarrow>
    distinct (map session_key xs) \<Longrightarrow> quiet_step R xs xs'"
| remove: "set xs' \<subseteq> set xs \<Longrightarrow> quiet_step R xs xs'"
| metadata: "map session_payload xs' = map session_payload xs \<Longrightarrow> quiet_step R xs xs'"

lemma quiet_store_steps: "(quiet_step R)\<^sup>*\<^sup>* xs xs' \<Longrightarrow> (store_step R)\<^sup>*\<^sup>* xs xs'"
  by (erule rtranclp_mono [THEN predicate2D, rotated]) (auto elim!: quiet_step.cases intro: store_step.intros)

lemma store_step_mono: "store_step R xs xs' \<Longrightarrow> (\<And>bs st. R bs st \<Longrightarrow> S bs st) \<Longrightarrow> store_step S xs xs'"
  by (induction rule: store_step.induct) (auto intro: store_step.intros)

lemma store_steps_mono:
  "(store_step R)\<^sup>*\<^sup>* xs xs' \<Longrightarrow> (\<And>bs st. R bs st \<Longrightarrow> S bs st) \<Longrightarrow> (store_step S)\<^sup>*\<^sup>* xs xs'"
  by (erule rtranclp_mono [THEN predicate2D, rotated]) (auto intro: store_step_mono)

inductive reachable :: "instant \<Rightarrow> BreakglassSession list \<Rightarrow> bool" where
  init: "Second \<le> t \<Longrightarrow> reachable t []"
| step: "reachable t xs \<Longrightarrow> t \<le> t' \<Longrightarrow> store_step (session_step t') xs xs' \<Longrightarrow> reachable t' xs'"

subsection \<open>Times on the wire\<close>

lemma wire_time_le: "wire_time t \<le> t"
  by (simp add: wire_time_def Second_def)

lemma wire_time_idem [simp]: "wire_time (wire_time t) = wire_time t"
  by (simp add: wire_time_def Second_def)

lemma wire_time_zero [simp]: "wire_time 0 = 0"
  by (simp add: wire_time_def)

lemma wire_time_div: "wire_time t = (t div Second) * Second"
  by (simp add: wire_time_def minus_mod_eq_div_mult)

lemma wire_time_mono: "s \<le> t \<Longrightarrow> wire_time s \<le> wire_time t"
  unfolding wire_time_div Second_def by (simp add: zdiv_mono1)

lemma wire_time_pos: "Second \<le> t \<Longrightarrow> 0 < wire_time t"
  using wire_time_mono [of Second t] by (simp add: wire_time_def Second_def)

lemma wire_condition_idem [simp]: "wire_condition (wire_condition c) = wire_condition c"
  by (simp add: wire_condition_def)

lemma wire_status_idem [simp]: "wire_status (wire_status st) = wire_status st"
  by (simp add: wire_status_def)

lemma wire_status_zero [simp]: "wire_status zero_status = zero_status"
  by (simp add: wire_status_def zero_status_def)

lemma wire_status_sel [simp]:
  "State (wire_status st) = State st"
  "ApprovedAt (wire_status st) = wire_time (ApprovedAt st)"
  "RejectedAt (wire_status st) = wire_time (RejectedAt st)"
  "ExpiresAt (wire_status st) = wire_time (ExpiresAt st)"
  "TimeoutAt (wire_status st) = wire_time (TimeoutAt st)"
  "RetainedUntil (wire_status st) = wire_time (RetainedUntil st)"
  by (simp_all add: wire_status_def)

lemma wired_times:
  assumes "wire_status st = st"
  shows "wire_time (ApprovedAt st) = ApprovedAt st" "wire_time (RejectedAt st) = RejectedAt st"
    "wire_time (ExpiresAt st) = ExpiresAt st" "wire_time (TimeoutAt st) = TimeoutAt st"
  using wire_status_sel [of st] assms by simp_all

subsection \<open>The status invariant\<close>

definition state_inv :: "instant \<Rightarrow> BreakglassSessionStatus \<Rightarrow> bool" where
  "state_inv t st =
     (case State st of
        SessionStateOther _ \<Rightarrow> st = zero_status
      | SessionStatePending \<Rightarrow> ApprovedAt st = 0 \<and> RejectedAt st = 0 \<and> ExpiresAt st = 0 \<and> TimeoutAt st \<noteq> 0
      | SessionStateApproved \<Rightarrow> 0 < ApprovedAt st \<and> ApprovedAt st \<le> t \<and> ApprovedAt st \<le> ExpiresAt st \<and>
          RejectedAt st = 0 \<and> TimeoutAt st = 0
      | SessionStateRejected \<Rightarrow> ApprovedAt st = 0 \<and> ExpiresAt st = 0 \<and> RejectedAt st \<noteq> 0
      | SessionStateWithdrawn \<Rightarrow> ApprovedAt st = 0 \<and> ExpiresAt st = 0 \<and> RejectedAt st \<noteq> 0
      | SessionStateTimeout \<Rightarrow> ApprovedAt st = 0 \<and> RejectedAt st = 0 \<and> ExpiresAt st = 0
      | SessionStateExpired \<Rightarrow> ApprovedAt st \<noteq> 0 \<and> 0 < ExpiresAt st \<and> (RejectedAt st \<noteq> 0 \<or> ExpiresAt st < t))"

definition store_inv :: "instant \<Rightarrow> BreakglassSession list \<Rightarrow> bool" where
  "store_inv t xs \<longleftrightarrow> (\<forall>s \<in> set xs. wire_status (bs_status s) = bs_status s \<and> state_inv t (bs_status s))"

lemma state_inv_mono: "state_inv t st \<Longrightarrow> t \<le> t' \<Longrightarrow> state_inv t' st"
  by (auto simp: state_inv_def split: BreakglassSessionState.splits)

lemma state_inv_zero: "state_inv t zero_status"
  by (simp add: state_inv_def zero_status_def)

text \<open>The fields that the written statuses have in common with the invariant.\<close>

lemma add_condition_sel [simp]:
  "State (add_condition now ty rsn msg st) = State st"
  "ApprovedAt (add_condition now ty rsn msg st) = ApprovedAt st"
  "RejectedAt (add_condition now ty rsn msg st) = RejectedAt st"
  "ExpiresAt (add_condition now ty rsn msg st) = ExpiresAt st"
  "TimeoutAt (add_condition now ty rsn msg st) = TimeoutAt st"
  "RetainedUntil (add_condition now ty rsn msg st) = RetainedUntil st"
  by (simp_all add: add_condition_def)

lemma record_approver_sel [simp]:
  "State (record_approver e st) = State st"
  "ApprovedAt (record_approver e st) = ApprovedAt st"
  "RejectedAt (record_approver e st) = RejectedAt st"
  "ExpiresAt (record_approver e st) = ExpiresAt st"
  "TimeoutAt (record_approver e st) = TimeoutAt st"
  by (simp_all add: record_approver_def)

lemma store_reason_sel [simp]:
  "State (store_reason r st) = State st"
  "ApprovedAt (store_reason r st) = ApprovedAt st"
  "RejectedAt (store_reason r st) = RejectedAt st"
  "ExpiresAt (store_reason r st) = ExpiresAt st"
  "TimeoutAt (store_reason r st) = TimeoutAt st"
  by (simp_all add: store_reason_def)

lemmas status_defs = requested_status_def approve_status_def reject_status_def withdraw_status_def
  drop_status_def cancel_status_def timeout_status_def expire_status_def

lemma session_step_inv:
  assumes "session_step now bs st" "Second \<le> now"
    and "wire_status (bs_status bs) = bs_status bs" "state_inv now (bs_status bs)"
  shows "state_inv now (wire_status st)"
proof -
  note wired = wired_times [OF assms(3)]
  have pos: "0 < wire_time now" using wire_time_pos [OF assms(2)] .
  have le: "wire_time now \<le> now" by (rule wire_time_le)
  from assms(1) show ?thesis
  proof cases
    case system
    then show ?thesis
    proof cases
      case (submit username retain)
      have "0 < wire_time (now + approvalTimeout)"
        using assms(2) by (intro wire_time_pos) (simp add: approvalTimeout_def Hour_def)
      then show ?thesis by (simp add: submit state_inv_def status_defs zero_status_def)
    next
      case time_out
      then show ?thesis using wired assms(4)
        by (auto simp: state_inv_def status_defs session_predicate_defs IsZero_def zero_status_def
            split: BreakglassSessionState.splits)
    next
      case expire
      then show ?thesis using wired assms(4)
        by (auto simp: state_inv_def status_defs session_predicate_defs IsZero_def After_def)
    qed
  next
    case (approve email reason)
    have "wire_time now \<le> wire_time (now + duration_or_default (MaxValidFor (bs_spec bs)) DefaultValidForDuration)"
      using duration_or_default_pos [of DefaultValidForDuration "MaxValidFor (bs_spec bs)"]
      by (intro wire_time_mono) (simp add: less_imp_le)
    then show ?thesis using pos le by (simp add: approve state_inv_def status_defs Let_def)
  next
    case (reject email reason)
    then show ?thesis using pos by (simp add: state_inv_def status_defs Let_def)
  next
    case withdraw
    then show ?thesis using pos by (simp add: state_inv_def status_defs)
  next
    case drop
    then show ?thesis using pos wired assms(4)
      by (auto simp: state_inv_def status_defs Let_def IsZero_def)
  next
    case (cancel email)
    then show ?thesis using pos wired assms(4)
      by (auto simp: state_inv_def status_defs Let_def)
  qed
qed

lemma store_step_inv:
  assumes "store_step (session_step now) xs xs'" "Second \<le> now" "store_inv now xs"
  shows "store_inv now xs'"
  using assms(1)
proof cases
  case (update bs st)
  have bs: "wire_status (bs_status bs) = bs_status bs" "state_inv now (bs_status bs)"
    using update(1) assms(3) by (auto simp: store_inv_def)
  have new: "state_inv now (wire_status st)" using session_step_inv [OF update(2) assms(2) bs] .
  have "wire_status (bs_status t) = bs_status t \<and> state_inv now (bs_status t)" if t: "t \<in> set xs'" for t
  proof (cases "session_key t = session_key (bs\<lparr>bs_status := st\<rparr>)")
    case True
    with update(3) t have "bs_status t = wire_status st" unfolding status_written_def by auto
    with new show ?thesis by simp
  next
    case False
    with update(3) t have "t \<in> set xs" unfolding status_written_def by blast
    with assms(3) show ?thesis by (simp add: store_inv_def)
  qed
  then show ?thesis by (simp add: store_inv_def)
next
  case (create s)
  with assms(3) show ?thesis by (auto simp: store_inv_def state_inv_zero)
next
  case remove
  with assms(3) show ?thesis by (auto simp: store_inv_def)
next
  case metadata
  have "bs_status ` set xs' = bs_status ` set xs"
  proof -
    have "map bs_status xs' = map (\<lambda>p. snd (snd p)) (map session_payload xs')" by (simp add: session_payload_def)
    also have "\<dots> = map bs_status xs" unfolding metadata by (simp add: session_payload_def)
    finally show ?thesis by (metis list.set_map)
  qed
  then have "\<exists>s' \<in> set xs. bs_status s' = bs_status s" if "s \<in> set xs'" for s
    using that by (metis (mono_tags, lifting) imageE imageI)
  with assms(3) show ?thesis unfolding store_inv_def by metis
qed

lemma reachable_inv: "reachable t xs \<Longrightarrow> Second \<le> t \<and> store_inv t xs"
proof (induction rule: reachable.induct)
  case (init t)
  then show ?case by (simp add: store_inv_def)
next
  case (step t xs t' xs')
  then have "store_inv t' xs" by (auto simp: store_inv_def intro: state_inv_mono)
  with step store_step_inv [of t' xs xs'] show ?case by auto
qed

subsection \<open>Every operation is simulated by store steps\<close>

lemma permitted_step:
  "action_permitted wc c act bs w \<Longrightarrow> session_step now bs (action_status now (ctx_email c) act bs)"
  by (cases act) (auto intro: session_step.intros)

lemma increment_request_count_cases:
  "increment_request_count wc e w = None \<or> increment_request_count wc e w = Some w"
  by (auto simp: increment_request_count_def dest!: cluster_group_no_groups split: list.splits sum.splits)

lemma notify_request_api [simp]: "api (notify_request wc bs e u as w) = api w"
  by (auto simp: notify_request_def sendOnRequestEmail_def Let_def Send_def split: sum.splits option.splits)

lemma new_session_status [simp]: "bs_status (new_session request plan) = zero_status"
  by (simp add: new_session_def Let_def)

context kube_sessions
begin

abbreviation steps ::
  "(BreakglassSession \<Rightarrow> BreakglassSessionStatus \<Rightarrow> bool) \<Rightarrow> 'w world \<Rightarrow> 'w world \<Rightarrow> bool" where
  "steps R w w' \<equiv> (store_step R)\<^sup>*\<^sup>* (sessions (api w)) (sessions (api w'))"

abbreviation quiet ::
  "(BreakglassSession \<Rightarrow> BreakglassSessionStatus \<Rightarrow> bool) \<Rightarrow> 'w world \<Rightarrow> 'w world \<Rightarrow> bool" where
  "quiet R w w' \<equiv> (quiet_step R)\<^sup>*\<^sup>* (sessions (api w)) (sessions (api w'))"

lemma put_step:
  assumes "wf (api w)" "bs \<in> set (sessions (api w))" "R bs st"
    "UpdateBreakglassSessionStatus cl (bs\<lparr>bs_status := st\<rparr>) w = (w', None)"
  shows "wf (api w') \<and> quiet_step R (sessions (api w)) (sessions (api w'))"
  using repo.put_None [OF assms(1,4)] quiet_step.update [where R = R, OF assms(2) _ _ keys_distinct [OF assms(1)]] assms(3)
  by blast

lemma serve_action_sim:
  assumes "wc_client wc = cl" "wf (api w)" "serve_action now wc c name act w = (r, w')"
  shows "wf (api w') \<and> quiet (session_step now) w w'"
proof (cases "status_code r = 200")
  case True
  with serve_action_effect [OF assms] obtain bs where "bs \<in> set (sessions (api w))" "action_permitted wc c act bs w"
    "status_written (sessions (api w)) (bs\<lparr>bs_status := action_status now (ctx_email c) act bs\<rparr>) (sessions (api w'))"
    "wf (api w')" by auto
  then have "quiet_step (session_step now) (sessions (api w)) (sessions (api w'))"
    using quiet_step.update [where R = "session_step now"] permitted_step keys_distinct [OF assms(2)] by metis
  with \<open>wf (api w')\<close> show ?thesis by blast
next
  case False
  with serve_action_effect [OF assms] show ?thesis by simp
qed

lemma active_is_new:
  assumes "getActiveBreakglassSession now cl u c g w = Inl ErrSessionNotFound"
    and "sessions (api w1) = sessions (api w) @ [s]"
    and "getActiveBreakglassSession now cl u c g w1 = Inr bs"
  shows "bs = s"
proof -
  let ?sel = "[(''spec.cluster'', c), (''spec.user'', u), (''spec.grantedGroup'', g)]"
  obtain xs where l: "list_sessions cl ?sel (api w) = Inr xs" and none: "filter (IsSessionActive now) xs = []"
    using assms(1)
    by (auto simp: getActiveBreakglassSession_def GetBreakglassSessionsWithSelector_def Let_def wrap_error_def
        map_error_def split: sum.splits if_splits)
  obtain ys where l1: "list_sessions cl ?sel (api w1) = Inr ys" and ne: "filter (IsSessionActive now) ys \<noteq> []"
    and bs: "bs = hd (filter (IsSessionActive now) ys)"
    using assms(3)
    by (auto simp: getActiveBreakglassSession_def GetBreakglassSessionsWithSelector_def Let_def
        map_error_def split: sum.splits if_splits)
  have "ys = xs @ filter (index_matches session_index ?sel) [s]"
    using list_sessions_Inr [OF l] list_sessions_Inr [OF l1] assms(2) by simp
  with none have "filter (IsSessionActive now) ys =
      filter (IsSessionActive now) (filter (index_matches session_index ?sel) [s])" by simp
  with ne bs show ?thesis by (auto split: if_splits)
qed

lemma active_stored:
  assumes "getActiveBreakglassSession now cl u c g w = Inr bs"
  shows "bs \<in> set (sessions (api w)) \<and> IsSessionActive now bs"
proof -
  let ?sel = "[(''spec.cluster'', c), (''spec.user'', u), (''spec.grantedGroup'', g)]"
  obtain ys where l: "list_sessions cl ?sel (api w) = Inr ys" and ne: "filter (IsSessionActive now) ys \<noteq> []"
    and bs: "bs = hd (filter (IsSessionActive now) ys)"
    using assms
    by (auto simp: getActiveBreakglassSession_def GetBreakglassSessionsWithSelector_def Let_def
        map_error_def split: sum.splits if_splits)
  have "bs \<in> set (filter (IsSessionActive now) ys)" unfolding bs by (rule hd_in_set [OF ne])
  with listing.lst_subset [OF l] show ?thesis by auto
qed

lemma zero_session_not_writable:
  assumes "wf (api w)" "UpdateBreakglassSessionStatus cl (zero_session\<lparr>bs_status := st\<rparr>) w = (w', None)"
  shows False
proof -
  obtain old where "old \<in> set (sessions (api w))" "session_key old = session_key (zero_session\<lparr>bs_status := st\<rparr>)"
    using repo.put_None [OF assms] unfolding status_written_def by blast
  with stored_names [OF assms(1)] show False
    by (auto simp: session_key_def zero_session_def zero_meta_def)
qed

lemma finish_request_sim:
  assumes "wc_client wc = cl" "wf (api w1)" "sessions (api w1) = sessions (api w) @ [s]" "bs_status s = zero_status"
    and none: "getActiveBreakglassSession now cl (rq_Username request) (rq_Clustername request) (rq_GroupName request) w
           = Inl ErrSessionNotFound"
    and run: "finish_request now wc c request plan w1 = (r, w')"
  shows "wf (api w') \<and> quiet (system_step now) w1 w'"
proof (cases "increment_request_count wc (pl_matched plan) w1")
  case None
  with run assms(2) show ?thesis by (simp add: finish_request_def)
next
  case (Some w2)
  then have w2: "increment_request_count wc (pl_matched plan) w1 = Some w1"
    using increment_request_count_cases [of wc "pl_matched plan" w1] by simp
  let ?found = "getActiveBreakglassSession now cl (rq_Username request) (rq_Clustername request) (rq_GroupName request) w1"
  let ?st = "requested_status now (GetUsername c) (EscRetainFor (be_spec (pl_matched plan)))"
  show ?thesis
  proof (cases ?found)
    case (Inl e)
    obtain w3 x where u: "UpdateBreakglassSessionStatus cl (zero_session\<lparr>bs_status := ?st\<rparr>) w1 = (w3, x)" by force
    then obtain y where x: "x = Some y"
      using zero_session_not_writable [OF assms(2)] by (cases x) blast+
    with repo.put_Some [OF assms(2)] u have "wf (api w3)" "sessions (api w3) = sessions (api w1)" by auto
    with run w2 Inl u x assms(1,2) show ?thesis
      by (auto simp: finish_request_def Let_def split: if_splits)
  next
    case (Inr bs)
    have "bs = s" using active_is_new [OF none assms(3) Inr] .
    then have step: "system_step now bs ?st" using assms(4) by (auto intro: system_step.submit)
    have stored: "bs \<in> set (sessions (api w1))" using active_stored [OF Inr] by simp
    obtain w3 x where u: "UpdateBreakglassSessionStatus cl (bs\<lparr>bs_status := ?st\<rparr>) w1 = (w3, x)" by force
    show ?thesis
    proof (cases x)
      case None
      with put_step [where R = "system_step now", OF assms(2) stored step] u
      have "wf (api w3)" "quiet_step (system_step now) (sessions (api w1)) (sessions (api w3))" by auto
      with run w2 Inr u None assms(1) show ?thesis
        by (auto simp: finish_request_def Let_def)
    next
      case (Some y)
      with repo.put_Some [OF assms(2)] u have "wf (api w3)" "sessions (api w3) = sessions (api w1)" by auto
      with run w2 Inr u Some assms(1) show ?thesis by (auto simp: finish_request_def Let_def)
    qed
  qed
qed

lemma add_session_effect:
  assumes "wf (api w)" "AddBreakglassSession cl s w = (w', e)"
  shows "wf (api w') \<and> (if e = None
    then \<exists>m. sessions (api w') = sessions (api w) @ [s\<lparr>bs_meta := m, bs_status := zero_status\<rparr>]
    else sessions (api w') = sessions (api w))"
proof -
  obtain a x where cr: "create_session cl s (api w) = (a, x)" by force
  show ?thesis
  proof (cases x)
    case None
    then have "create_session cl s (api w) = (a, None)" using cr by simp
    from create_None [OF assms(1) this] cr None assms(2) show ?thesis by (auto simp: AddBreakglassSession_def)
  next
    case (Some y)
    with create_Some [OF assms(1)] cr assms(2) show ?thesis by (auto simp: AddBreakglassSession_def)
  qed
qed

text \<open>A request leaves the sessions as they are, or there was no active session of this user for this group and one
  is created.\<close>

lemma request_effect:
  assumes "wc_client wc = cl" "wf (api w)" "handleRequestBreakglassSession now wc c body w = (r, w')"
  shows "wf (api w') \<and> (sessions (api w') = sessions (api w) \<or>
    (\<exists>request plan m w1.
       getActiveBreakglassSession now cl (rq_Username request) (rq_Clustername request) (rq_GroupName request) w = Inl ErrSessionNotFound \<and>
       check_request wc c body w = Inr (request, plan) \<and> wf (api w1) \<and>
       sessions (api w1) = sessions (api w) @ [(new_session request plan)\<lparr>bs_meta := m, bs_status := zero_status\<rparr>] \<and>
       quiet (system_step now) w1 w'))"
proof (cases "check_request wc c body w")
  case (Inl x)
  with assms show ?thesis by (simp add: handleRequestBreakglassSession_def)
next
  case (Inr rp)
  obtain request plan where rp: "rp = (request, plan)" by force
  let ?act = "getActiveBreakglassSession now cl (rq_Username request) (rq_Clustername request) (rq_GroupName request) w"
  show ?thesis
  proof (cases "?act = Inl ErrSessionNotFound \<and> ctx_email c \<noteq> []")
    case False
    with assms Inr rp show ?thesis
      by (auto simp: handleRequestBreakglassSession_def GetEmail_def split: sum.splits if_splits)
  next
    case True
    obtain w1 x where add: "AddBreakglassSession cl (new_session request plan) w = (w1, x)" by force
    show ?thesis
    proof (cases x)
      case None
      with add_session_effect [OF assms(2) add] obtain m where wf1: "wf (api w1)" and
        s1: "sessions (api w1) = sessions (api w) @ [(new_session request plan)\<lparr>bs_meta := m, bs_status := zero_status\<rparr>]"
        by auto
      have run: "finish_request now wc c request plan w1 = (r, w')"
        using assms(1,3) Inr rp True add None by (simp add: handleRequestBreakglassSession_def GetEmail_def)
      have "wf (api w') \<and> quiet (system_step now) w1 w'"
        using True by (intro finish_request_sim [OF assms(1) wf1 s1 _ _ run]) simp_all
      with True Inr rp wf1 s1 show ?thesis by blast
    next
      case (Some y)
      with add_session_effect [OF assms(2) add] have "wf (api w1)" "sessions (api w1) = sessions (api w)" by auto
      with assms Inr rp True add Some show ?thesis
        by (simp add: handleRequestBreakglassSession_def GetEmail_def)
    qed
  qed
qed

lemma request_sim:
  assumes "wc_client wc = cl" "wf (api w)" "handleRequestBreakglassSession now wc c body w = (r, w')"
  shows "wf (api w') \<and> steps (system_step now) w w'"
proof -
  note eff = request_effect [OF assms]
  from eff show ?thesis
  proof (elim conjE disjE exE)
    fix request plan m w1
    assume w1: "wf (api w1)" "quiet (system_step now) w1 w'"
      and s1: "sessions (api w1) = sessions (api w) @ [(new_session request plan)\<lparr>bs_meta := m, bs_status := zero_status\<rparr>]"
    have "store_step (system_step now) (sessions (api w)) (sessions (api w1))"
      using keys_distinct [OF w1(1)] unfolding s1 by (auto intro!: store_step.create)
    with quiet_store_steps [OF w1(2)] eff show ?thesis by (meson converse_rtranclp_into_rtranclp)
  qed simp
qed

text \<open>A loop over the listed sessions whose body touches only the session it is given.\<close>

lemma fold_sim:
  assumes body: "\<And>ses w. wf (api w) \<Longrightarrow> ses \<in> set (sessions (api w)) \<Longrightarrow>
      wf (api (f ses w)) \<and> quiet R w (f ses w) \<and>
      (\<forall>t \<in> set (sessions (api w)). session_key t \<noteq> session_key ses \<longrightarrow> t \<in> set (sessions (api (f ses w))))"
  shows "wf (api w) \<Longrightarrow> set xs \<subseteq> set (sessions (api w)) \<Longrightarrow> distinct (map session_key xs) \<Longrightarrow>
    wf (api (fold f xs w)) \<and> quiet R w (fold f xs w)"
proof (induction xs arbitrary: w)
  case (Cons s xs)
  have s: "s \<in> set (sessions (api w))" using Cons.prems(2) by simp
  note b = body [OF Cons.prems(1) s]
  have "set xs \<subseteq> set (sessions (api (f s w)))"
  proof
    fix t assume t: "t \<in> set xs"
    then have "session_key t \<in> session_key ` set xs" by (rule imageI)
    then have "session_key t \<noteq> session_key s" using Cons.prems(3) by auto
    moreover have "t \<in> set (sessions (api w))" using t Cons.prems(2) by auto
    ultimately show "t \<in> set (sessions (api (f s w)))" using b by blast
  qed
  then have "wf (api (fold f xs (f s w))) \<and> quiet R (f s w) (fold f xs (f s w))"
    using Cons.IH b Cons.prems(3) by simp
  with b show ?case by (auto intro: rtranclp_trans)
qed simp

lemma put_keeps:
  assumes "wf (api w)" "UpdateBreakglassSessionStatus cl s w = (w', r)"
  shows "\<forall>t \<in> set (sessions (api w)). session_key t \<noteq> session_key s \<longrightarrow> t \<in> set (sessions (api w'))"
  using repo.put_other [OF assms] by blast

lemma expire_pending_one_sim:
  assumes "wf (api w)" "ses \<in> set (sessions (api w))"
  shows "wf (api (expire_pending_one now cl ses w)) \<and> quiet (system_step now) w (expire_pending_one now cl ses w) \<and>
    (\<forall>t \<in> set (sessions (api w)). session_key t \<noteq> session_key ses \<longrightarrow>
       t \<in> set (sessions (api (expire_pending_one now cl ses w))))"
proof (cases "IsSessionApprovalTimedOut now ses")
  case True
  then have step: "system_step now ses (timeout_status now ses)" by (rule system_step.time_out)
  obtain w1 x where u: "UpdateBreakglassSessionStatus cl (ses\<lparr>bs_status := timeout_status now ses\<rparr>) w = (w1, x)" by force
  have keep: "\<forall>t \<in> set (sessions (api w)). session_key t \<noteq> session_key ses \<longrightarrow> t \<in> set (sessions (api w1))"
    using put_keeps [OF assms(1) u] by simp
  show ?thesis
  proof (cases x)
    case None
    with put_step [where R = "system_step now", OF assms step] u keep True show ?thesis by (auto simp: expire_pending_one_def)
  next
    case (Some y)
    with repo.put_Some [OF assms(1)] u keep True show ?thesis by (auto simp: expire_pending_one_def)
  qed
qed (use assms in \<open>simp add: expire_pending_one_def\<close>)

lemma expire_pending_sim:
  assumes "wf (api w)"
  shows "wf (api (ExpirePendingSessions now cl w)) \<and> quiet (system_step now) w (ExpirePendingSessions now cl w)"
proof (cases "GetAllBreakglassSessions cl w")
  case (Inr xs)
  then have "xs = sessions (api w)" by (rule repo.all_sessions_Inr)
  with Inr fold_sim [of "expire_pending_one now cl" "system_step now", OF expire_pending_one_sim assms, of xs] keys_distinct [OF assms]
  show ?thesis by (simp add: ExpirePendingSessions_def)
qed (use assms in \<open>simp add: ExpirePendingSessions_def\<close>)

text \<open>Looking a stored session up by its own name can only find itself.\<close>

lemma by_name_self:
  assumes "wf (api w)" "ses \<in> set (sessions (api w))" "GetBreakglassSessionByName cl (Name (bs_meta ses)) w = Inr b"
  shows "b = ses"
proof (cases "get_session cl ([], Name (bs_meta ses)) (api w)")
  case (Inr x)
  from get_session_Inr [OF assms(1) Inr] stored_names [OF assms(1), of x] show ?thesis
    by (simp add: session_key_def)
next
  case (Inl e)
  let ?sel = "[(''metadata.name'', Name (bs_meta ses))]"
  have "plain_name (Name (bs_meta ses))" using stored_names [OF assms(1,2)] by simp
  from Inl assms(3) parse_name [OF this] obtain items where
    l: "list_sessions cl ?sel (api w) = Inr items" and items: "items = [b]"
    by (auto simp: GetBreakglassSessionByName_def Let_def split: sum.splits list.splits)
  have "index_matches session_index ?sel ses" by (simp add: index_matches_def session_index_def)
  with listing.lst_mem_iff [OF l, of ses] assms(2) have "ses \<in> set items" by simp
  with items show ?thesis by simp
qed

lemma attempt_updates_sim:
  assumes "system_step now ses (expire_status now ses)"
  shows "wf (api w) \<Longrightarrow> ses \<in> set (sessions (api w)) \<Longrightarrow>
    attempt_updates n cl (ses\<lparr>bs_status := expire_status now ses\<rparr>) w = (failed, s', w') \<Longrightarrow>
    wf (api w') \<and> quiet (system_step now) w w' \<and> (failed \<longrightarrow> s' = ses\<lparr>bs_status := expire_status now ses\<rparr>) \<and>
    (\<forall>t \<in> set (sessions (api w)). session_key t \<noteq> session_key ses \<longrightarrow> t \<in> set (sessions (api w')))"
proof (induction n arbitrary: w)
  case (Suc n)
  let ?s = "ses\<lparr>bs_status := expire_status now ses\<rparr>"
  obtain w1 x where u: "UpdateBreakglassSessionStatus cl ?s w = (w1, x)" by force
  have keep: "\<forall>t \<in> set (sessions (api w)). session_key t \<noteq> session_key ses \<longrightarrow> t \<in> set (sessions (api w1))"
    using put_keeps [OF Suc.prems(1) u] by simp
  show ?case
  proof (cases x)
    case None
    with put_step [where R = "system_step now", OF Suc.prems(1,2) assms] u have "wf (api w1)" "quiet_step (system_step now) (sessions (api w)) (sessions (api w1))"
      by auto
    with Suc.prems(3) u None keep show ?thesis by auto
  next
    case (Some y)
    with repo.put_Some [OF Suc.prems(1)] u have w1: "wf (api w1)" "sessions (api w1) = sessions (api w)" by auto
    then have stored: "ses \<in> set (sessions (api w1))" using Suc.prems(2) by simp
    show ?thesis
    proof (cases "GetBreakglassSessionByName cl (Name (bs_meta ses)) w1")
      case (Inl e)
      with Suc.prems(3) u Some w1 show ?thesis by auto
    next
      case (Inr b)
      have "b = ses" using by_name_self [OF w1(1) stored Inr] .
      moreover have "ses\<lparr>bs_status := (bs_status ses)\<lparr>State := State (expire_status now ses),
          Conditions := Conditions (expire_status now ses), ReasonEnded := ReasonEnded (expire_status now ses)\<rparr>\<rparr> = ?s"
        by (simp add: expire_status_def add_condition_def)
      ultimately have "attempt_updates n cl ?s w1 = (failed, s', w')"
        using Suc.prems(3) u Some Inr by simp
      from Suc.IH [OF w1(1) stored this] w1(2) show ?thesis by simp
    qed
  qed
qed simp

lemma plain_update_sim:
  assumes "wf (api w)" "UpdateBreakglassSession cl s w = (w', r)"
  shows "wf (api w') \<and> quiet R w w' \<and>
    (\<forall>t \<in> set (sessions (api w)). session_key t \<noteq> session_key s \<longrightarrow> t \<in> set (sessions (api w')))"
proof -
  obtain a x where u: "update_session cl s (api w) = (a, x)" by force
  show ?thesis
  proof (cases x)
    case None
    then have "update_session cl s (api w) = (a, None)" using u by simp
    note up = update_None [OF assms(1) this]
    have "sessions (api w') = sessions a" "wf (api w') = wf a" using assms(2) u None by (auto simp: UpdateBreakglassSession_def)
    with up show ?thesis by (auto intro: quiet_step.metadata)
  next
    case (Some e)
    with update_Some [OF assms(1)] u assms(2) show ?thesis by (auto simp: UpdateBreakglassSession_def)
  qed
qed

lemma expire_approved_one_sim:
  assumes "wf (api w)" "ses \<in> set (sessions (api w))"
  shows "wf (api (expire_approved_one now cl ses w)) \<and> quiet (system_step now) w (expire_approved_one now cl ses w) \<and>
    (\<forall>t \<in> set (sessions (api w)). session_key t \<noteq> session_key ses \<longrightarrow>
       t \<in> set (sessions (api (expire_approved_one now cl ses w))))"
proof (cases "State (bs_status ses) = SessionStateApproved \<and> IsSessionExpired now ses")
  case True
  let ?s = "ses\<lparr>bs_status := expire_status now ses\<rparr>"
  have step: "system_step now ses (expire_status now ses)" using True by (blast intro: system_step.expire)
  obtain failed s' w1 where at: "attempt_updates 3 cl ?s w = (failed, s', w1)" by (metis prod_cases3)
  note a = attempt_updates_sim [OF step assms at]
  obtain w2 r where up: "UpdateBreakglassSession cl s' w1 = (w2, r)" by force
  have run: "expire_approved_one now cl ses w = (if failed then w2 else w1)"
    using True at up by_name_self [OF assms]
    by (cases "GetBreakglassSessionByName cl (Name (bs_meta ses)) w") (auto simp: expire_approved_one_def Let_def)
  show ?thesis
  proof (cases failed)
    case True
    with a plain_update_sim [OF _ up, of "system_step now"] show ?thesis
      unfolding run by (auto intro: rtranclp_trans)
  qed (use a in \<open>simp add: run\<close>)
qed (use assms in \<open>auto simp: expire_approved_one_def\<close>)

lemma expire_approved_sim:
  assumes "wf (api w)"
  shows "wf (api (ExpireApprovedSessions now cl w)) \<and> quiet (system_step now) w (ExpireApprovedSessions now cl w)"
proof (cases "GetAllBreakglassSessions cl w")
  case (Inr xs)
  then have "xs = sessions (api w)" by (rule repo.all_sessions_Inr)
  with Inr fold_sim [of "expire_approved_one now cl" "system_step now", OF expire_approved_one_sim assms, of xs] keys_distinct [OF assms]
  show ?thesis by (simp add: ExpireApprovedSessions_def)
qed (use assms in \<open>simp add: ExpireApprovedSessions_def\<close>)

lemma cleanup_round_sim:
  assumes "wf (api w)"
  shows "wf (api (cleanup_round now cl w)) \<and> quiet (system_step now) w (cleanup_round now cl w)"
proof -
  let ?w1 = "ExpirePendingSessions now cl w"
  let ?w2 = "ExpireApprovedSessions now cl ?w1"
  note s1 = expire_pending_sim [OF assms, of now]
  then have s2: "wf (api ?w2) \<and> quiet (system_step now) ?w1 ?w2" using expire_approved_sim by blast
  then have s3: "wf (api (cleanup_round now cl w))"
    "set (sessions (api (cleanup_round now cl w))) \<subseteq> set (sessions (api ?w2))"
    using cleanup_keeps [OF _ refl, of ?w2 now] by (auto simp: cleanup_round_def)
  have "quiet (system_step now) ?w2 (cleanup_round now cl w)"
    using s3(2) by (intro r_into_rtranclp quiet_step.remove)
  with s1 s2 s3 show ?thesis by (meson rtranclp_trans)
qed

end

subsection \<open>Traces\<close>

lemma reachable_steps:
  assumes "reachable t xs" "t \<le> now" "(store_step (session_step now))\<^sup>*\<^sup>* xs ys"
  shows "reachable now ys"
  using assms(3)
proof (induction rule: rtranclp_induct)
  case base
  have "store_step (session_step now) xs xs" by (rule store_step.remove) simp
  with assms(1,2) show ?case by (rule reachable.step)
next
  case (step y z)
  then show ?case using reachable.step [of now y now z] by simp
qed

text \<open>The system by itself never approves.\<close>

lemma system_steps_approved:
  assumes "(store_step (system_step now))\<^sup>*\<^sup>* xs ys" "y \<in> set ys" "State (bs_status y) = SessionStateApproved"
  shows "\<exists>x \<in> set xs. session_key x = session_key y \<and> State (bs_status x) = SessionStateApproved"
  using assms
proof (induction arbitrary: y rule: rtranclp_induct)
  case (step ys zs)
  have "\<exists>x \<in> set ys. session_key x = session_key y \<and> State (bs_status x) = SessionStateApproved"
    using step.hyps(2)
  proof cases
    case (update bs st)
    show ?thesis
    proof (cases "session_key y = session_key (bs\<lparr>bs_status := st\<rparr>)")
      case True
      have "bs_status y = wire_status (bs_status (bs\<lparr>bs_status := st\<rparr>))"
        using update(3) step.prems(1) True unfolding status_written_def by blast
      with step.prems(2) have "State st = SessionStateApproved" by simp
      moreover from update(2) have "State st \<noteq> SessionStateApproved"
        by (cases rule: system_step.cases) (auto simp: status_defs zero_status_def)
      ultimately show ?thesis by simp
    next
      case False
      then have "y \<in> set ys" using update(3) step.prems(1) unfolding status_written_def by blast
      with step.prems(2) show ?thesis by blast
    qed
  next
    case (create s)
    with step.prems show ?thesis by (auto simp: zero_status_def)
  next
    case remove
    with step.prems show ?thesis by blast
  next
    case metadata
    have "session_payload y \<in> set (map session_payload ys)"
      using step.prems(1) metadata [symmetric] by simp
    then obtain x where "x \<in> set ys" "session_payload x = session_payload y" by (metis imageE list.set_map)
    with step.prems(2) show ?thesis by (auto simp: session_payload_def)
  qed
  with step.IH show ?case by metis
qed blast

context kube_sessions
begin

lemma run_event_sim:
  assumes "wc_client wc = cl" "wf (api w)"
  shows "wf (api (run_event wc (now, ev) w)) \<and> steps (session_step now) w (run_event wc (now, ev) w)"
proof (cases ev)
  case (RequestEvent c body)
  with request_sim [OF assms surjective_pairing, of now c body] show ?thesis
    by (auto intro: store_steps_mono session_step.system)
next
  case (ActionEvent c name act)
  with serve_action_sim [OF assms surjective_pairing, of now c name act] show ?thesis by (simp add: quiet_store_steps)
next
  case CleanupEvent
  with cleanup_round_sim [OF assms(2), of now] assms(1) show ?thesis
    by (auto dest!: quiet_store_steps intro: store_steps_mono session_step.system)
qed

lemma trace_reachable:
  assumes "wc_client wc = cl"
  shows "wf (api w) \<Longrightarrow> reachable t (sessions (api w)) \<Longrightarrow> chronological t evs \<Longrightarrow>
    wf (api (run_trace wc evs w)) \<and> reachable (end_time t evs) (sessions (api (run_trace wc evs w)))"
proof (induction evs arbitrary: t w)
  case (Cons e evs)
  obtain now ev where e: "e = (now, ev)" by force
  note sim = run_event_sim [OF assms Cons.prems(1), of now ev]
  have "reachable now (sessions (api (run_event wc (now, ev) w)))"
    using reachable_steps [OF Cons.prems(2)] Cons.prems(3) sim e by simp
  with Cons.IH [of "run_event wc (now, ev) w" now] sim Cons.prems(3) e show ?case
    by (simp add: run_trace_def)
qed (simp add: run_trace_def)

lemma run_event_approved:
  assumes "wc_client wc = cl" "wf (api w)" "y \<in> set (sessions (api (run_event wc (now, ev) w)))"
    "State (bs_status y) = SessionStateApproved"
  shows "\<exists>x \<in> set (sessions (api w)). session_key x = session_key y \<and>
    (State (bs_status x) = SessionStateApproved \<or>
     State (bs_status x) = SessionStatePending \<and>
     (\<exists>c name reason. ev = ActionEvent c name (Approve reason) \<and> isSessionApprover wc c x w))"
proof (cases ev)
  case (RequestEvent c body)
  with request_sim [OF assms(1,2) surjective_pairing, of now c body] system_steps_approved [OF _ assms(3,4), of now]
  show ?thesis by auto
next
  case CleanupEvent
  with cleanup_round_sim [OF assms(2), of now] system_steps_approved [OF quiet_store_steps assms(3,4), of now] assms(1)
  show ?thesis by auto
next
  case (ActionEvent c name act)
  obtain r w' where run: "serve_action now wc c name act w = (r, w')" by force
  have y: "y \<in> set (sessions (api w'))" using assms(3) ActionEvent run by simp
  note eff = serve_action_effect [OF assms(1,2) run]
  show ?thesis
  proof (cases "status_code r = 200")
    case False
    with eff y assms(4) show ?thesis by auto
  next
    case True
    with eff obtain bs where bs: "bs \<in> set (sessions (api w))" "action_permitted wc c act bs w"
      and sw: "status_written (sessions (api w)) (bs\<lparr>bs_status := action_status now (ctx_email c) act bs\<rparr>) (sessions (api w'))"
      (is "status_written _ ?b _") by auto
    show ?thesis
    proof (cases "session_key y = session_key ?b")
      case True
      have "bs_status y = wire_status (bs_status ?b)"
        using sw y True unfolding status_written_def by blast
      then have "State (action_status now (ctx_email c) act bs) = SessionStateApproved" using assms(4) by simp
      then obtain reason where "act = Approve reason"
        by (cases act) (auto simp: status_defs Let_def split: if_splits)
      with bs True ActionEvent show ?thesis by auto
    next
      case False
      then have "y \<in> set (sessions (api w))" using sw y unfolding status_written_def by blast
      with assms(4) show ?thesis by blast
    qed
  qed
qed

lemma trace_wf: "wc_client wc = cl \<Longrightarrow> wf (api w) \<Longrightarrow> wf (api (run_trace wc evs w))"
proof (induction evs arbitrary: w)
  case (Cons e evs)
  obtain now ev where e: "e = (now, ev)" by force
  with Cons.IH [of "run_event wc (now, ev) w"] run_event_sim [OF Cons.prems, of now ev] Cons.prems(1)
  show ?case by (simp add: run_trace_def)
qed (simp add: run_trace_def)

text \<open>An Approved session at the end of a trace goes back to an approval by an approver.\<close>

lemma trace_approved:
  assumes "wc_client wc = cl" "wf (api w)" "sessions (api w) = []"
  shows "y \<in> set (sessions (api (run_trace wc evs w))) \<Longrightarrow> State (bs_status y) = SessionStateApproved \<Longrightarrow>
    \<exists>before now c name reason rest x. evs = before @ (now, ActionEvent c name (Approve reason)) # rest \<and>
      x \<in> set (sessions (api (run_trace wc before w))) \<and> session_key x = session_key y \<and>
      State (bs_status x) = SessionStatePending \<and> isSessionApprover wc c x (run_trace wc before w)"
proof (induction evs arbitrary: y rule: rev_induct)
  case Nil
  with assms(3) show ?case by (simp add: run_trace_def)
next
  case (snoc e evs)
  obtain now ev where e: "e = (now, ev)" by force
  let ?w = "run_trace wc evs w"
  have y: "y \<in> set (sessions (api (run_event wc (now, ev) ?w)))" using snoc.prems(1) e by (simp add: run_trace_def)
  from run_event_approved [OF assms(1) trace_wf [OF assms(1,2)] y snoc.prems(2)]
  obtain x where x: "x \<in> set (sessions (api ?w))" "session_key x = session_key y"
    and cases: "State (bs_status x) = SessionStateApproved \<or> State (bs_status x) = SessionStatePending \<and>
      (\<exists>c name reason. ev = ActionEvent c name (Approve reason) \<and> isSessionApprover wc c x ?w)" by blast
  from cases show ?case
  proof
    assume "State (bs_status x) = SessionStateApproved"
    from snoc.IH [OF x(1) this] x(2) show ?thesis by (metis append_Cons append_assoc)
  next
    assume "State (bs_status x) = SessionStatePending \<and>
      (\<exists>c name reason. ev = ActionEvent c name (Approve reason) \<and> isSessionApprover wc c x ?w)"
    then obtain c name reason where "ev = ActionEvent c name (Approve reason)"
      "State (bs_status x) = SessionStatePending" "isSessionApprover wc c x ?w" by blast
    with x e show ?thesis by blast
  qed
qed

end

subsection \<open>Properties\<close>

text \<open>C5. Nobody but an approver makes a session Approved: if a session is Approved after an event,
  then before the event it was Approved already, or it was Pending and the event is an approval by a
  caller that the approver check accepts for this session.\<close>

theorem approved_only_by_approver:
  assumes "kube_sessions (wc_client wc) sessions ok" "ok (api w)"
    and "y \<in> set (sessions (api (run_event wc (now, ev) w)))" "State (bs_status y) = SessionStateApproved"
  shows "\<exists>x \<in> set (sessions (api w)). session_key x = session_key y \<and>
    (State (bs_status x) = SessionStateApproved \<or>
     State (bs_status x) = SessionStatePending \<and>
     (\<exists>c name reason. ev = ActionEvent c name (Approve reason) \<and> isSessionApprover wc c x w))"
  using kube_sessions.run_event_approved [OF assms(1) refl assms(2-4)] .

theorem approved_only_by_approver_witness:
  "\<exists>x \<in> {ex_pending}. State (bs_status x) = SessionStateApproved \<or>
     State (bs_status x) = SessionStatePending \<and> isSessionApprover ex_wc ex_lead x (ex_world [ex_pending])"
proof -
  let ?ev = "ActionEvent ex_lead ''s1'' (Approve ''ok'')"
  let ?ss = "m_sessions (api (run_event ex_wc (ex_now, ?ev) (ex_world [ex_pending])))"
  have k: "kube_sessions (wc_client ex_wc) m_sessions mem_wf"
    using mem.kube_sessions_axioms by (simp add: ex_wc_def)
  have "list_ex (\<lambda>y. State (bs_status y) = SessionStateApproved) ?ss" by code_simp
  then obtain y where "y \<in> set ?ss" "State (bs_status y) = SessionStateApproved" by (auto simp: list_ex_iff)
  moreover have "m_sessions (api (ex_world [ex_pending])) = [ex_pending]" by (simp add: ex_world_def ex_api_def)
  ultimately show ?thesis
    using approved_only_by_approver [OF k ex_api_wf(1), of y ex_now ?ev] by auto
qed

text \<open>C6. Consistency of every stored session after any chronological sequence of requests, actions and
  cleanup rounds on a store that was empty at the start: the timestamps fit the state (a Pending or
  timed-out session has no approval, rejection or end; an Approved one was approved, ends no earlier and
  is not rejected; a Rejected or Withdrawn one is rejected and has no validity; an Expired one was
  approved and was ended or has reached its end).\<close>

theorem lifecycle_invariant:
  assumes "kube_sessions (wc_client wc) sessions ok" "ok (api w)"
    and "sessions (api w) = []" "Second \<le> t" "chronological t evs"
    and "s \<in> set (sessions (api (run_trace wc evs w)))"
  shows "state_inv (end_time t evs) (bs_status s)"
proof -
  have "reachable t (sessions (api w))" using assms(3,4) by (simp add: reachable.init)
  from kube_sessions.trace_reachable [OF assms(1) refl assms(2) this assms(5)]
  have "store_inv (end_time t evs) (sessions (api (run_trace wc evs w)))" using reachable_inv by blast
  with assms(6) show ?thesis by (simp add: store_inv_def)
qed

definition ex_trace :: "(instant \<times> event) list" where
  "ex_trace = [(ex_now, RequestEvent ex_dev (Some ex_request)),
     (ex_now + Minute, ActionEvent ex_lead ''prod-admin-10'' (Approve ''ok'')),
     (ex_now + 2 * Minute, CleanupEvent)]"

theorem lifecycle_invariant_witness:
  "let xs = m_sessions (api (run_trace ex_wc ex_trace (ex_world []))) in
   xs \<noteq> [] \<and> State (bs_status (hd xs)) = SessionStateApproved \<and>
   state_inv (end_time ex_now ex_trace) (bs_status (hd xs))"
proof -
  let ?ss = "m_sessions (api (run_trace ex_wc ex_trace (ex_world [])))"
  have k: "kube_sessions (wc_client ex_wc) m_sessions mem_wf"
    using mem.kube_sessions_axioms by (simp add: ex_wc_def)
  have run: "?ss \<noteq> []" "State (bs_status (hd ?ss)) = SessionStateApproved" by code_simp+
  have empty: "m_sessions (api (ex_world [])) = []" and time: "Second \<le> ex_now" "chronological ex_now ex_trace"
    by code_simp+
  have "state_inv (end_time ex_now ex_trace) (bs_status (hd ?ss))"
    by (rule lifecycle_invariant [OF k ex_api_wf(3) empty time hd_in_set [OF run(1)]])
  with run show ?thesis by (simp only: Let_def simp_thms)
qed

end
