(* ===== verification/LifecycleSpec.thy ===== *)
theory LifecycleSpec
  imports Lifecycle
begin

text \<open>
  What the sessions promise to a reader who knows nothing of timestamps, conditions and approvers: an
  abstract machine in which every session is fresh, waiting, granted or closed, moves forward only and
  never leaves the closed phase.  The handlers and periodic tasks refine it.
\<close>

subsection \<open>The abstract machine\<close>

datatype phase = Fresh | Waiting | Granted | Closed

inductive phase_step :: "phase \<Rightarrow> phase \<Rightarrow> bool" where
  submit: "phase_step Fresh Waiting"
| grant: "phase_step Waiting Granted"
| close: "phase_step p Closed"

inductive_simps phase_step_simps [simp]: "phase_step p Fresh" "phase_step p Waiting" "phase_step p Granted" "phase_step p Closed"
inductive_cases closed_stepE: "phase_step Closed p"

text \<open>The phases in the order in which a session goes through them.\<close>

fun rank :: "phase \<Rightarrow> nat" where
  "rank Fresh = 0"
| "rank Waiting = 1"
| "rank Granted = 2"
| "rank Closed = 3"

lemma rank_inject: "rank p = rank q \<longleftrightarrow> p = q"
  by (cases p; cases q) simp_all

lemma rank_bound [simp]: "rank p \<le> 3"
  by (cases p) simp_all

instantiation phase :: linorder
begin

definition less_eq_phase :: "phase \<Rightarrow> phase \<Rightarrow> bool" where
  "less_eq_phase p q \<longleftrightarrow> rank p \<le> rank q"

definition less_phase :: "phase \<Rightarrow> phase \<Rightarrow> bool" where
  "less_phase p q \<longleftrightarrow> rank p < rank q"

instance
  by standard (auto simp: less_eq_phase_def less_phase_def rank_inject)

end

lemma phase_step_forward: "phase_step p q \<Longrightarrow> p \<le> q"
  by (induction rule: phase_step.induct) (simp_all add: less_eq_phase_def)

inductive spec_step :: "('k \<times> phase) set \<Rightarrow> ('k \<times> phase) set \<Rightarrow> bool" for A :: "('k \<times> phase) set" where
  create: "k \<notin> fst ` A \<Longrightarrow> spec_step A (insert (k, Fresh) A)"
| advance: "(k, p) \<in> A \<Longrightarrow> phase_step p p' \<Longrightarrow> spec_step A (insert (k, p') {x \<in> A. fst x \<noteq> k})"
| forget: "B \<subseteq> A \<Longrightarrow> spec_step A B"

text \<open>A step moves no session out of the closed phase, and only a waiting one into the granted phase.\<close>

lemma spec_step_forward:
  assumes "spec_step A B" "inj_on fst A" "(k, p) \<in> A" "(k, q) \<in> B"
  shows "q = p \<or> phase_step p q"
proof -
  have same: "r = r'" if "(l, r) \<in> A" "(l, r') \<in> A" for l r r'
    using inj_onD [OF assms(2) _ that] by simp
  from assms(1) show ?thesis
  proof cases
    case (create l)
    then have "l \<noteq> k" using assms(3) by force
    with create assms(3,4) same show ?thesis by auto
  next
    case (advance l r r')
    then show ?thesis using assms(3,4) same [of k p q] same [of l r p] by auto
  next
    case forget
    then show ?thesis using assms(3,4) same by blast
  qed
qed

lemma spec_step_mono:
  assumes "spec_step A B" "inj_on fst A" "(k, p) \<in> A" "(k, q) \<in> B"
  shows "p \<le> q"
  using spec_step_forward [OF assms] phase_step_forward by auto

lemma closed_absorbing:
  assumes "spec_step A B" "inj_on fst A" "(k, Closed) \<in> A" "(k, q) \<in> B"
  shows "q = Closed"
  using spec_step_forward [OF assms] by (auto elim: closed_stepE)

subsection \<open>The abstraction of a store\<close>

fun phase_of :: "BreakglassSessionState \<Rightarrow> phase" where
  "phase_of (SessionStateOther _) = Fresh"
| "phase_of SessionStatePending = Waiting"
| "phase_of SessionStateApproved = Granted"
| "phase_of _ = Closed"

definition phase_entry :: "BreakglassSession \<Rightarrow> object_key \<times> phase" where
  "phase_entry s = (session_key s, phase_of (State (bs_status s)))"

definition phases :: "BreakglassSession list \<Rightarrow> (object_key \<times> phase) set" where
  "phases xs = phase_entry ` set xs"

lemma fst_phases [simp]: "fst ` phases xs = session_key ` set xs"
  by (simp add: phases_def phase_entry_def image_image)

text \<open>Every step of a session's status is a step of its phase.\<close>

lemma session_step_phase:
  assumes "session_step now bs st"
  shows "phase_step (phase_of (State (bs_status bs))) (phase_of (State st))"
  using assms
proof cases
  case system
  then show ?thesis by cases (auto simp: status_defs zero_status_def)
qed (auto simp: status_defs Let_def)

lemma status_written_phases:
  assumes "status_written xs (bs\<lparr>bs_status := st\<rparr>) xs'" "distinct (map session_key xs)"
  shows "phases xs' = insert (session_key bs, phase_of (State st)) {x \<in> phases xs. fst x \<noteq> session_key bs}"
proof -
  have k: "session_key (bs\<lparr>bs_status := st\<rparr>) = session_key bs" by simp
  have others: "t \<in> set xs' \<longleftrightarrow> t \<in> set xs" if "session_key t \<noteq> session_key bs" for t
  proof
    show "t \<in> set xs' \<Longrightarrow> t \<in> set xs" using assms(1) that k unfolding status_written_def by metis
    assume t: "t \<in> set xs"
    then obtain u where u: "u \<in> set xs'" "session_key u = session_key t"
      using status_written_keys [OF assms(1)] by (metis imageE imageI)
    then have "u \<in> set xs" using assms(1) that k unfolding status_written_def by metis
    then show "t \<in> set xs'" using u t assms(2) by (metis distinct_map inj_onD)
  qed
  have target: "t \<in> set xs' \<Longrightarrow> session_key t = session_key bs \<Longrightarrow> State (bs_status t) = State st" for t
    using assms(1) k unfolding status_written_def by fastforce
  obtain t where t: "t \<in> set xs'" "session_key t = session_key bs"
    using status_written_target [OF assms(1)] k by metis
  have "phase_entry ` {x \<in> set xs'. session_key x = session_key bs} = {(session_key bs, phase_of (State st))}"
    using t target by (auto simp: phase_entry_def intro!: image_eqI [of _ _ t])
  moreover have "phase_entry ` {x \<in> set xs'. session_key x \<noteq> session_key bs} = {x \<in> phases xs. fst x \<noteq> session_key bs}"
    using others by (auto simp: phases_def phase_entry_def)
  moreover have "phases xs' = phase_entry ` {x \<in> set xs'. session_key x = session_key bs} \<union>
      phase_entry ` {x \<in> set xs'. session_key x \<noteq> session_key bs}"
    unfolding phases_def by blast
  ultimately show ?thesis by simp
qed

lemma store_step_spec:
  assumes "store_step (session_step now) xs xs'"
  shows "spec_step (phases xs) (phases xs')"
  using assms
proof cases
  case (update bs st)
  have "(session_key bs, phase_of (State (bs_status bs))) \<in> phases xs"
    using update(1) by (auto simp: phases_def phase_entry_def)
  with session_step_phase [OF update(2)] show ?thesis
    unfolding status_written_phases [OF update(3,4)] by (rule spec_step.advance [rotated])
next
  case (create s)
  have "phases xs' = insert (session_key s, Fresh) (phases xs)"
    using create by (simp add: phases_def phase_entry_def zero_status_def)
  with create(3) show ?thesis using spec_step.create [of "session_key s" "phases xs"] by simp
next
  case remove
  then show ?thesis by (auto simp: phases_def intro!: spec_step.forget)
next
  case metadata
  have payload: "phases ys = (\<lambda>p. (fst p, phase_of (State (snd (snd p))))) ` set (map session_payload ys)" for ys
    by (simp add: phases_def phase_entry_def session_payload_def image_image)
  have "phases xs' = phases xs" unfolding payload metadata ..
  then show ?thesis by (simp add: spec_step.forget)
qed

context kube_sessions
begin

lemma trace_spec:
  "wc_client wc = cl \<Longrightarrow> wf (api w) \<Longrightarrow>
   spec_step\<^sup>*\<^sup>* (phases (sessions (api w))) (phases (sessions (api (run_trace wc evs w))))"
proof (induction evs rule: rev_induct)
  case (snoc e evs)
  obtain now ev where e: "e = (now, ev)" by force
  let ?w = "run_trace wc evs w"
  have "steps (session_step now) ?w (run_event wc (now, ev) ?w)"
    using run_event_sim [OF snoc.prems(1) trace_wf [OF snoc.prems]] by blast
  then have "spec_step\<^sup>*\<^sup>* (phases (sessions (api ?w))) (phases (sessions (api (run_event wc (now, ev) ?w))))"
    by (induction rule: rtranclp_induct) (auto intro: rtranclp.rtrancl_into_rtrancl store_step_spec)
  with snoc.IH [OF snoc.prems] show ?case by (simp add: run_trace_def e)
qed (simp add: run_trace_def)

end

subsection \<open>Property\<close>



end
