(* ===== verification/Concurrency.thy ===== *)
theory Concurrency
  imports Webhook LifecycleSpec
begin

text \<open>
  Interleaving.  Handlers and background tasks are goroutines: between reading a session and writing it
  back, others run.  A configuration is the world with a pool of tasks in flight, and a move lets a call
  arrive (it reads and checks) or one task take its next step, with at most one write to the API server.  The
  steps of a task that runs alone compose to the handler or loop body of the earlier theories
  (\<open>action_alone\<close>, \<open>request_alone\<close>, \<open>expire_alone\<close>).
\<close>

subsection \<open>Tasks\<close>

text \<open>A task makes at most one write per step.  \<open>Decide\<close> is an action whose checks have passed on the copy that it
  read, with the status to be written; \<open>Create\<close> is an accepted request, \<open>Finish\<close> one whose session is created,
  \<open>Submit\<close> one that has looked the session up and is about to write its status; \<open>TimeOut\<close>, \<open>Expire\<close> and
  \<open>Remove\<close> are the loop bodies of the periodic tasks with the session of their listing, \<open>Retry\<close> the retries of
  the expiry with the number of attempts left.\<close>

datatype task =
    Decide BreakglassSession BreakglassSessionStatus
  | Create request_context BreakglassSessionRequest request_plan
  | Finish request_context BreakglassSessionRequest request_plan
  | Submit request_context request_plan BreakglassSession
  | TimeOut BreakglassSession
  | Expire BreakglassSession
  | Retry nat BreakglassSession
  | Remove BreakglassSession

datatype arrival =
    ActionArrives request_context string session_action
  | RequestArrives request_context "BreakglassSessionRequest option"
  | TimeOutScan | ExpireScan | RemoveScan

definition may_create ::
  "instant \<Rightarrow> 'w BreakglassSessionController \<Rightarrow> request_context \<Rightarrow> BreakglassSessionRequest \<Rightarrow> 'w world \<Rightarrow> bool" where
  "may_create now wc c request w =
     (getActiveBreakglassSession now (wc_client wc) (rq_Username request) (rq_Clustername request)
        (rq_GroupName request) w = Inl ErrSessionNotFound \<and> ctx_email c \<noteq> [])"

fun start :: "'w BreakglassSessionController \<Rightarrow> instant \<Rightarrow> arrival \<Rightarrow> 'w world \<Rightarrow> task list" where
  "start wc now (ActionArrives c name act) w =
     (case GetBreakglassSessionByName (wc_client wc) name w of
        Inl _ \<Rightarrow> []
      | Inr bs \<Rightarrow> if action_permitted wc c act bs w then [Decide bs (action_status now (ctx_email c) act bs)] else [])"
| "start wc now (RequestArrives c body) w =
     (case check_request wc c body w of
        Inl _ \<Rightarrow> []
      | Inr (request, plan) \<Rightarrow> if may_create now wc c request w then [Create c request plan] else [])"
| "start wc now TimeOutScan w =
     (case GetAllBreakglassSessions (wc_client wc) w of Inl _ \<Rightarrow> [] | Inr xs \<Rightarrow> map TimeOut xs)"
| "start wc now ExpireScan w =
     (case GetAllBreakglassSessions (wc_client wc) w of Inl _ \<Rightarrow> [] | Inr xs \<Rightarrow> map Expire xs)"
| "start wc now RemoveScan w =
     (case list_sessions (wc_client wc) [] (api w) of Inl _ \<Rightarrow> [] | Inr xs \<Rightarrow> map Remove xs)"

text \<open>The session that a request is about to write.\<close>

definition submitted :: "instant \<Rightarrow> request_context \<Rightarrow> request_plan \<Rightarrow> BreakglassSession \<Rightarrow> BreakglassSession" where
  "submitted now c plan bs =
     bs\<lparr>bs_status := requested_status now (GetUsername c) (EscRetainFor (be_spec (pl_matched plan)))\<rparr>"

text \<open>One step of a task: the new world and what is left to do.\<close>

fun advance :: "'w BreakglassSessionController \<Rightarrow> instant \<Rightarrow> task \<Rightarrow> 'w world \<Rightarrow> 'w world \<times> task list" where
  "advance wc now (Decide bs st) w = (snd (persist_session wc (bs\<lparr>bs_status := st\<rparr>) w), [])"
| "advance wc now (Create c request plan) w =
     (case AddBreakglassSession (wc_client wc) (new_session request plan) w of
        (w', Some _) \<Rightarrow> (w', [])
      | (w', None) \<Rightarrow> (w', [Finish c request plan]))"
| "advance wc now (Finish c request plan) w =
     (case increment_request_count wc (pl_matched plan) w of
        None \<Rightarrow> (w, [])
      | Some w1 \<Rightarrow>
          (case getActiveBreakglassSession now (wc_client wc) (rq_Username request) (rq_Clustername request)
                  (rq_GroupName request) w1 of
             Inl e \<Rightarrow> if e \<noteq> ErrSessionNotFound then (w1, []) else (w1, [Submit c plan (submitted now c plan zero_session)])
           | Inr bs \<Rightarrow> (w1, [Submit c plan (submitted now c plan bs)])))"
| "advance wc now (Submit c plan bs) w =
     (case UpdateBreakglassSessionStatus (wc_client wc) bs w of
        (w', Some _) \<Rightarrow> (w', [])
      | (w', None) \<Rightarrow> (notify_request wc bs (ctx_email c) (GetUsername c) (pl_approvers plan) w', []))"
| "advance wc now (TimeOut s) w = (expire_pending_one now (wc_client wc) s w, [])"
| "advance wc now (Expire s) w =
     (if State (bs_status s) = SessionStateApproved \<and> IsSessionExpired now s
      then (w, [Retry 3 (case GetBreakglassSessionByName (wc_client wc) (Name (bs_meta s)) w of
               Inr stored \<Rightarrow> s\<lparr>bs_status := expire_status now s, bs_meta := (bs_meta s)\<lparr>Namespace := Namespace (bs_meta stored),
                 ResourceVersion := ResourceVersion (bs_meta stored)\<rparr>\<rparr>
             | Inl _ \<Rightarrow> s\<lparr>bs_status := expire_status now s\<rparr>)])
      else (w, []))"
| "advance wc now (Retry 0 s) w = (fst (UpdateBreakglassSession (wc_client wc) s w), [])"
| "advance wc now (Retry (Suc n) s) w =
     (case UpdateBreakglassSessionStatus (wc_client wc) s w of
        (w', None) \<Rightarrow> (inc_metric (SessionExpired (Cluster (bs_spec s))) w', [])
      | (w', Some _) \<Rightarrow>
          (w', [case GetBreakglassSessionByName (wc_client wc) (Name (bs_meta s)) w' of
             Inl _ \<Rightarrow> Retry 0 s
           | Inr updated \<Rightarrow> Retry n (updated\<lparr>bs_status := (bs_status updated)\<lparr>State := State (bs_status s),
               Conditions := Conditions (bs_status s), ReasonEnded := ReasonEnded (bs_status s)\<rparr>\<rparr>)]))"
| "advance wc now (Remove s) w = (fst (cleanup_one now (wc_client wc) s (w, 0)), [])"

text \<open>\<open>Run i\<close> lets the task at position \<open>i\<close> of the pool move, \<open>Abandon i\<close> ends it: its caller went away or the
  process failed.\<close>

datatype move = Arrive arrival | Run nat | Abandon nat

definition without :: "nat \<Rightarrow> 'a list \<Rightarrow> 'a list" where
  "without i xs = take i xs @ drop (Suc i) xs"

fun make_move ::
  "'w BreakglassSessionController \<Rightarrow> instant \<times> move \<Rightarrow> 'w world \<times> task list \<Rightarrow> 'w world \<times> task list" where
  "make_move wc (now, Arrive a) (w, ts) = (w, ts @ start wc now a w)"
| "make_move wc (now, Run i) (w, ts) =
     (if i < length ts then (case advance wc now (ts ! i) w of (w', left) \<Rightarrow> (w', without i ts @ left)) else (w, ts))"
| "make_move wc (now, Abandon i) (w, ts) = (w, without i ts)"

definition run_schedule ::
  "'w BreakglassSessionController \<Rightarrow> (instant \<times> move) list \<Rightarrow> 'w world \<Rightarrow> 'w world \<times> task list" where
  "run_schedule wc ms w = fold (make_move wc) ms (w, [])"

fun in_order :: "instant \<Rightarrow> (instant \<times> 'a) list \<Rightarrow> bool" where
  "in_order t [] = True"
| "in_order t ((now, m) # ms) = (t \<le> now \<and> in_order now ms)"

fun last_time :: "instant \<Rightarrow> (instant \<times> 'a) list \<Rightarrow> instant" where
  "last_time t [] = t"
| "last_time t ((now, m) # ms) = last_time now ms"

lemma run_schedule_snoc [simp]: "run_schedule wc (ms @ [m]) w = make_move wc m (run_schedule wc ms w)"
  by (simp add: run_schedule_def)

lemma in_order_append: "in_order t (ms @ ns) \<longleftrightarrow> in_order t ms \<and> in_order (last_time t ms) ns"
  by (induction t ms rule: in_order.induct) simp_all

lemma last_time_append [simp]: "last_time t (ms @ ns) = last_time (last_time t ms) ns"
  by (induction t ms rule: last_time.induct) simp_all

lemma in_order_last: "in_order t ms \<Longrightarrow> t \<le> last_time t ms"
  by (induction t ms rule: in_order.induct) auto

lemma set_without: "set (without i xs) \<subseteq> set xs"
  unfolding without_def by (auto dest: in_set_takeD in_set_dropD)

text \<open>What a move keeps of the world and of every task in flight.\<close>

lemma move_inv:
  assumes "make_move wc (now, mv) (w1, ts1) = (w, ts)" "J w1" "\<forall>x \<in> set ts1. P w1 x"
    and arrive: "\<And>a x. mv = Arrive a \<Longrightarrow> x \<in> set (start wc now a w1) \<Longrightarrow> P w1 x"
    and run: "\<And>x w2 ys. x \<in> set ts1 \<Longrightarrow> advance wc now x w1 = (w2, ys) \<Longrightarrow>
      J w2 \<and> (\<forall>y \<in> set ys. P w2 y) \<and> (\<forall>y \<in> set ts1. P w2 y)"
  shows "J w \<and> (\<forall>x \<in> set ts. P w x)"
proof (cases mv)
  case (Arrive a)
  with assms(1) have "w = w1" "ts = ts1 @ start wc now a w1" by auto
  with assms(2,3) arrive [OF Arrive] show ?thesis by auto
next
  case (Run i)
  show ?thesis
  proof (cases "i < length ts1")
    case True
    obtain w2 ys where adv: "advance wc now (ts1 ! i) w1 = (w2, ys)" by force
    have "w = w2" "ts = without i ts1 @ ys" using assms(1) Run True adv by auto
    with run [OF _ adv] True set_without [of i ts1] show ?thesis by auto
  next
    case False
    with assms(1-3) Run show ?thesis by simp
  qed
next
  case (Abandon i)
  with assms(1) have "w = w1" "ts = without i ts1" by simp_all
  with assms(2,3) set_without [of i ts1] show ?thesis by auto
qed

subsection \<open>A task that runs alone is the handler\<close>

lemma action_alone:
  "fst (run_schedule wc [(now, Arrive (ActionArrives c name act)), (now, Run 0)] w) = snd (serve_action now wc c name act w)"
proof (cases "GetBreakglassSessionByName (wc_client wc) name w")
  case (Inl e)
  then show ?thesis by (simp add: run_schedule_def serve_action_not_found)
next
  case (Inr bs)
  then show ?thesis
  proof (cases "action_permitted wc c act bs w")
    case True
    with Inr serve_action_permitted [OF Inr True, of now] show ?thesis by (simp add: run_schedule_def)
  next
    case False
    with Inr serve_action_refused [OF Inr False, of now] show ?thesis by (simp add: run_schedule_def)
  qed
qed

lemma submit_last:
  "fst (make_move wc (now, Run 0) (make_move wc (now, Run 0) (w, [Finish c request plan]))) =
   snd (finish_request now wc c request plan w)"
  by (auto simp: finish_request_def without_def submitted_def Let_def split: sum.split prod.split option.split)

lemma request_alone:
  "fst (run_schedule wc [(now, Arrive (RequestArrives c body)), (now, Run 0), (now, Run 0), (now, Run 0)] w) =
   snd (handleRequestBreakglassSession now wc c body w)"
proof (cases "check_request wc c body w")
  case (Inl r)
  then show ?thesis by (simp add: run_schedule_def handleRequestBreakglassSession_def without_def)
next
  case (Inr rp)
  obtain request plan where rp: "rp = (request, plan)" by force
  show ?thesis
  proof (cases "may_create now wc c request w")
    case True
    obtain w1 r where "AddBreakglassSession (wc_client wc) (new_session request plan) w = (w1, r)" by force
    with True Inr rp submit_last [of wc now w1 c request plan] show ?thesis
      by (cases r) (simp_all add: run_schedule_def handleRequestBreakglassSession_def may_create_def without_def GetEmail_def)
  next
    case False
    with Inr rp show ?thesis
      by (auto simp: run_schedule_def handleRequestBreakglassSession_def may_create_def without_def GetEmail_def split: sum.split)
  qed
qed

lemma retry_alone:
  "\<exists>k. fst (fold (make_move wc) (replicate k (now, Run 0)) (w, [Retry n s])) =
     (case attempt_updates n (wc_client wc) s w of
        (failed, s', w') \<Rightarrow> if failed then fst (UpdateBreakglassSession (wc_client wc) s' w') else w')"
proof (induction n arbitrary: s w)
  case 0
  show ?case by (intro exI [of _ 1]) (simp add: without_def)
next
  case (Suc n)
  obtain w1 r where u: "UpdateBreakglassSessionStatus (wc_client wc) s w = (w1, r)" by force
  show ?case
  proof (cases r)
    case None
    with u show ?thesis by (intro exI [of _ 1]) (simp add: without_def)
  next
    case (Some e)
    show ?thesis
    proof (cases "GetBreakglassSessionByName (wc_client wc) (Name (bs_meta s)) w1")
      case (Inl e')
      with u Some show ?thesis by (intro exI [of _ 2]) (simp add: without_def numeral_2_eq_2)
    next
      case (Inr b)
      let ?b = "b\<lparr>bs_status := (bs_status b)\<lparr>State := State (bs_status s),
          Conditions := Conditions (bs_status s), ReasonEnded := ReasonEnded (bs_status s)\<rparr>\<rparr>"
      obtain k where "fst (fold (make_move wc) (replicate k (now, Run 0)) (w1, [Retry n ?b])) =
          (case attempt_updates n (wc_client wc) ?b w1 of
             (failed, s', w') \<Rightarrow> if failed then fst (UpdateBreakglassSession (wc_client wc) s' w') else w')"
        using Suc.IH by blast
      with u Some Inr show ?thesis by (intro exI [of _ "Suc k"]) (simp add: without_def)
    qed
  qed
qed

lemma expire_alone:
  "\<exists>k. fst (fold (make_move wc) (replicate k (now, Run 0)) (w, [Expire s])) = expire_approved_one now (wc_client wc) s w"
proof (cases "State (bs_status s) = SessionStateApproved \<and> IsSessionExpired now s")
  case True
  let ?s2 = "case GetBreakglassSessionByName (wc_client wc) (Name (bs_meta s)) w of
      Inr stored \<Rightarrow> s\<lparr>bs_status := expire_status now s, bs_meta := (bs_meta s)\<lparr>Namespace := Namespace (bs_meta stored),
        ResourceVersion := ResourceVersion (bs_meta stored)\<rparr>\<rparr>
    | Inl _ \<Rightarrow> s\<lparr>bs_status := expire_status now s\<rparr>"
  obtain k where k: "fst (fold (make_move wc) (replicate k (now, Run 0)) (w, [Retry 3 ?s2])) =
      (case attempt_updates 3 (wc_client wc) ?s2 w of
         (failed, s', w') \<Rightarrow> if failed then fst (UpdateBreakglassSession (wc_client wc) s' w') else w')"
    using retry_alone by blast
  have "expire_approved_one now (wc_client wc) s w = (case attempt_updates 3 (wc_client wc) ?s2 w of
         (failed, s', w') \<Rightarrow> if failed then fst (UpdateBreakglassSession (wc_client wc) s' w') else w')"
    using True by (simp add: expire_approved_one_def Let_def split: sum.split)
  with k True show ?thesis by (intro exI [of _ "Suc k"]) (simp add: without_def)
next
  case False
  then show ?thesis by (intro exI [of _ 0]) (auto simp: expire_approved_one_def)
qed

subsection \<open>Validity comes from an approval\<close>

text \<open>\<open>A\<close> holds of the sessions that were approved.  Beyond time \<open>t\<close> only such sessions are valid.\<close>

definition fine :: "instant \<Rightarrow> (object_key \<Rightarrow> bool) \<Rightarrow> BreakglassSession \<Rightarrow> bool" where
  "fine t A s \<longleftrightarrow> (t < ExpiresAt (bs_status s) \<longrightarrow> A (session_key s))"

fun task_fine :: "instant \<Rightarrow> (object_key \<Rightarrow> bool) \<Rightarrow> task \<Rightarrow> bool" where
  "task_fine t A (Decide bs st) \<longleftrightarrow> fine t A (bs\<lparr>bs_status := st\<rparr>)"
| "task_fine t A (TimeOut s) \<longleftrightarrow> fine t A s"
| "task_fine t A (Submit c plan bs) \<longleftrightarrow> fine t A bs"
| "task_fine t A (Retry n s) \<longleftrightarrow> fine t A s"
| "task_fine t A _ \<longleftrightarrow> True"

lemma fine_mono: "fine t A s \<Longrightarrow> t \<le> t' \<Longrightarrow> (\<And>k. A k \<Longrightarrow> B k) \<Longrightarrow> fine t' B s"
  by (auto simp: fine_def)

lemma task_fine_mono: "task_fine t A x \<Longrightarrow> t \<le> t' \<Longrightarrow> (\<And>k. A k \<Longrightarrow> B k) \<Longrightarrow> task_fine t' B x"
  by (cases x) (auto intro: fine_mono)

lemma fine_status:
  "fine t A s \<Longrightarrow> session_key s' = session_key s \<Longrightarrow> ExpiresAt (bs_status s') \<le> ExpiresAt (bs_status s) \<Longrightarrow> fine t A s'"
  by (auto simp: fine_def)

lemma fine_ended: "ExpiresAt (bs_status s) \<le> t \<Longrightarrow> fine t A s"
  by (simp add: fine_def)

context kube_sessions
begin

abbreviation all_fine :: "instant \<Rightarrow> (object_key \<Rightarrow> bool) \<Rightarrow> 'w world \<Rightarrow> bool" where
  "all_fine t A w \<equiv> wf (api w) \<and> (\<forall>s \<in> set (sessions (api w)). fine t A s)"

lemma put_fine:
  assumes "all_fine t A w" "fine t A s" "UpdateBreakglassSessionStatus cl s w = (w', r)"
  shows "all_fine t A w'"
proof (cases r)
  case (Some e)
  with repo.put_Some [of w s w' e] assms show ?thesis by simp
next
  case None
  with repo.put_None [of w s w'] assms have w': "wf (api w')" "status_written (sessions (api w)) s (sessions (api w'))"
    by simp_all
  have "fine t A y" if y: "y \<in> set (sessions (api w'))" for y
  proof (cases "session_key y = session_key s")
    case True
    with w'(2) y have "bs_status y = wire_status (bs_status s)" unfolding status_written_def by blast
    with True show ?thesis by (intro fine_status [OF assms(2)]) (simp_all add: wire_time_le)
  next
    case False
    with w'(2) y have "y \<in> set (sessions (api w))" unfolding status_written_def by blast
    with assms(1) show ?thesis by blast
  qed
  with w'(1) show ?thesis by blast
qed

lemma plain_fine:
  assumes "all_fine t A w" "UpdateBreakglassSession cl s w = (w', r)"
  shows "all_fine t A w'"
proof (cases "update_session cl s (api w)")
  case (Pair a x)
  show ?thesis
  proof (cases x)
    case None
    with Pair update_None [of "api w" s a] assms(1)
    have a: "wf a" "map session_payload (sessions a) = map session_payload (sessions (api w))" by simp_all
    have "fine t A y" if "y \<in> set (sessions a)" for y
    proof -
      have "session_payload y \<in> session_payload ` set (sessions (api w))"
        using that a(2) by (metis imageI list.set_map)
      then obtain z where "z \<in> set (sessions (api w))" "session_payload z = session_payload y" by auto
      with assms(1) show ?thesis by (auto simp: session_payload_def fine_def)
    qed
    moreover have "api w' = a" using assms(2) Pair None by (auto simp: UpdateBreakglassSession_def)
    ultimately show ?thesis using a(1) by simp
  next
    case (Some e)
    with Pair update_Some [of "api w" s a] assms show ?thesis by (auto simp: UpdateBreakglassSession_def)
  qed
qed

lemma persist_fine:
  assumes "wc_client wc = cl" "all_fine t A w" "fine t A s"
  shows "all_fine t A (snd (persist_session wc s w))"
proof -
  obtain w' r where u: "UpdateBreakglassSessionStatus cl s w = (w', r)" by force
  have "snd (persist_session wc s w) = w'" using assms(1) u by (simp add: persist_session_def split: option.split)
  with put_fine [OF assms(2,3) u] show ?thesis by simp
qed

lemma expire_pending_fine:
  assumes "all_fine t A w" "fine t A s"
  shows "all_fine t A (expire_pending_one now cl s w)"
proof -
  have "fine t A (s\<lparr>bs_status := timeout_status now s\<rparr>)"
    by (rule fine_status [OF assms(2)]) (simp_all add: timeout_status_def)
  with put_fine [OF assms(1)] assms(1) show ?thesis
    by (auto simp: expire_pending_one_def split: prod.splits option.splits)
qed

lemma remove_fine:
  assumes "all_fine t A w"
  shows "all_fine t A (fst (cleanup_one now cl s (w, n)))"
proof (cases "cleanup_due now s")
  case True
  obtain w' n' where "cleanup_one now cl s (w, n) = (w', n')" by force
  with cleanup_one_due [of w now s n w' n'] True assms show ?thesis by auto
qed (use assms in \<open>simp add: cleanup_one_not_due\<close>)

lemma create_fine:
  assumes "all_fine t A w" "0 \<le> t" "AddBreakglassSession cl s w = (w', r)"
  shows "all_fine t A w'"
  using add_session_effect [of w s w' r] assms by (auto simp: fine_def zero_status_def split: if_splits)

lemma submitted_fine: "0 \<le> t \<Longrightarrow> fine t A (submitted now c plan bs)"
  by (intro fine_ended) (simp add: submitted_def requested_status_def zero_status_def)

lemma advance_fine:
  assumes "wc_client wc = cl" "all_fine now A w" "0 \<le> now" "task_fine now A x" "advance wc now x w = (w', ys)"
  shows "all_fine now A w' \<and> (\<forall>y \<in> set ys. task_fine now A y)"
proof (cases x)
  case (Create c request plan)
  obtain w1 r where add: "AddBreakglassSession cl (new_session request plan) w = (w1, r)" by force
  with create_fine [OF assms(2,3) add] assms(1,5) Create show ?thesis by (auto split: option.splits)
next
  case (Decide bs st)
  with assms persist_fine [OF assms(1,2), of "bs\<lparr>bs_status := st\<rparr>"] show ?thesis by simp
next
  case (Finish c request plan)
  with assms submitted_fine [OF assms(3)] increment_request_count_cases [of wc "pl_matched plan" w] show ?thesis
    by (auto split: sum.splits if_splits)
next
  case (Submit c plan bs)
  obtain w1 r where u: "UpdateBreakglassSessionStatus cl bs w = (w1, r)" by force
  have "fine now A bs" using assms(4) Submit by simp
  from put_fine [OF assms(2) this u] assms(1,5) Submit u show ?thesis by (auto split: option.splits)
next
  case (TimeOut s)
  with assms expire_pending_fine [OF assms(2), of s now] show ?thesis by simp
next
  case (Expire s)
  have "ExpiresAt (expire_status now s) \<le> now" if "IsSessionExpired now s"
    using that by (auto simp: expire_status_def IsSessionExpired_def After_def)
  with Expire assms(1,2,5) show ?thesis
    by (auto split: if_splits sum.splits intro!: fine_ended)
next
  case (Retry n s)
  have s: "fine now A s" using assms(4) Retry by simp
  show ?thesis
  proof (cases n)
    case 0
    with plain_fine [OF assms(2) surjective_pairing, of s] assms(1,5) Retry show ?thesis by simp
  next
    case (Suc m)
    obtain w1 r where u: "UpdateBreakglassSessionStatus cl s w = (w1, r)" by force
    note w1 = put_fine [OF assms(2) s u]
    have "fine now A (b\<lparr>bs_status := (bs_status b)\<lparr>State := State (bs_status s), Conditions := Conditions (bs_status s),
        ReasonEnded := ReasonEnded (bs_status s)\<rparr>\<rparr>)"
      if "GetBreakglassSessionByName cl (Name (bs_meta s)) w1 = Inr b" for b
    proof (rule fine_status)
      show "fine now A b" using by_name_stored [OF _ that] w1 by blast
    qed simp_all
    with w1 s u assms(1,5) Retry Suc show ?thesis by (auto split: option.splits sum.splits)
  qed
next
  case (Remove s)
  with assms remove_fine [OF assms(2), of now s 0] show ?thesis by simp
qed

end

text \<open>Somewhere in the schedule an approver's call arrived and passed the checks on a session with this key.\<close>

definition approved_along ::
  "'w BreakglassSessionController \<Rightarrow> (instant \<times> move) list \<Rightarrow> 'w world \<times> task list \<Rightarrow> object_key \<Rightarrow> bool" where
  "approved_along wc ms cfg k \<longleftrightarrow>
     (\<exists>before at c name reason rest bs. ms = before @ (at, Arrive (ActionArrives c name (Approve reason))) # rest \<and>
        GetBreakglassSessionByName (wc_client wc) name (fst (fold (make_move wc) before cfg)) = Inr bs \<and> session_key bs = k \<and>
        State (bs_status bs) = SessionStatePending \<and> isSessionApprover wc c bs (fst (fold (make_move wc) before cfg)))"

abbreviation approved_before ::
  "'w BreakglassSessionController \<Rightarrow> (instant \<times> move) list \<Rightarrow> 'w world \<Rightarrow> object_key \<Rightarrow> bool" where
  "approved_before wc ms w \<equiv> approved_along wc ms (w, [])"

lemma approved_along_extend: "approved_along wc ms cfg k \<Longrightarrow> approved_along wc (ms @ ns) cfg k"
  unfolding approved_along_def by (metis append_Cons append_assoc)

lemma approved_along_arrival:
  assumes "fold (make_move wc) ms cfg = (w, ts)" "GetBreakglassSessionByName (wc_client wc) name w = Inr bs"
    and "action_permitted wc c (Approve reason) bs w"
  shows "approved_along wc (ms @ [(now, Arrive (ActionArrives c name (Approve reason)))]) cfg (session_key bs)"
  unfolding approved_along_def
  by (intro exI [of _ ms] exI [of _ now] exI [of _ c] exI [of _ name] exI [of _ reason] exI [of _ "[]"] exI [of _ bs])
    (use assms in auto)

lemma action_ends:
  assumes "\<And>reason. act \<noteq> Approve reason" "0 \<le> now"
  shows "ExpiresAt (action_status now email act bs) \<le> now"
  using assms by (cases act) (auto simp: reject_status_def withdraw_status_def drop_status_def cancel_status_def Let_def
      store_reason_def record_approver_def)

context kube_sessions
begin

lemma start_fine:
  assumes "wc_client wc = cl" "all_fine now A w" "0 \<le> now" "x \<in> set (start wc now a w)" "\<And>k. A k \<Longrightarrow> B k"
    and approve: "\<And>c name reason bs. a = ActionArrives c name (Approve reason) \<Longrightarrow>
      GetBreakglassSessionByName cl name w = Inr bs \<Longrightarrow> action_permitted wc c (Approve reason) bs w \<Longrightarrow> B (session_key bs)"
  shows "task_fine now B x"
proof (cases a)
  case (ActionArrives c name act)
  with assms(1,4) obtain bs where bs: "GetBreakglassSessionByName cl name w = Inr bs" "action_permitted wc c act bs w"
    "x = Decide bs (action_status now (ctx_email c) act bs)" by (auto split: sum.splits if_splits)
  show ?thesis
  proof (cases "\<exists>reason. act = Approve reason")
    case True
    then obtain reason where "act = Approve reason" by blast
    with approve ActionArrives bs(1,2) have "B (session_key bs)" by blast
    then show ?thesis by (simp add: bs(3) fine_def)
  next
    case False
    then have "\<And>reason. act \<noteq> Approve reason" by blast
    from action_ends [OF this assms(3), of "ctx_email c" bs] show ?thesis by (simp add: bs(3) fine_ended)
  qed
next
  case TimeOutScan
  with assms(1,4) obtain xs where xs: "GetAllBreakglassSessions cl w = Inr xs" "x \<in> TimeOut ` set xs"
    by (cases "GetAllBreakglassSessions cl w") simp_all
  then obtain s where "x = TimeOut s" "s \<in> set xs" by blast
  with xs(1) repo.all_sessions_Inr [of w xs] assms(2) have "fine now A s" by simp
  then have "fine now B s" by (rule fine_mono [OF _ order_refl assms(5)])
  with \<open>x = TimeOut s\<close> show ?thesis by simp
qed (use assms(4) in \<open>auto split: sum.splits if_splits\<close>)

lemma schedule_fine:
  assumes "wc_client wc = cl" "wf (api w0)" "sessions (api w0) = []" "0 \<le> t"
  shows "in_order t ms \<Longrightarrow> run_schedule wc ms w0 = (w, ts) \<Longrightarrow>
    all_fine (last_time t ms) (approved_before wc ms w0) w \<and> 0 \<le> last_time t ms \<and>
    (\<forall>x \<in> set ts. task_fine (last_time t ms) (approved_before wc ms w0) x)"
proof (induction ms arbitrary: w ts rule: rev_induct)
  case Nil
  with assms show ?case by (simp add: run_schedule_def)
next
  case (snoc m ms)
  obtain now mv where m: "m = (now, mv)" by force
  obtain w1 ts1 where run: "run_schedule wc ms w0 = (w1, ts1)" by force
  let ?A = "approved_before wc ms w0" and ?B = "approved_before wc (ms @ [m]) w0"
  have ord: "in_order t ms" "last_time t ms \<le> now" using snoc.prems(1) m by (simp_all add: in_order_append)
  note ih = snoc.IH [OF ord(1) run]
  have pos: "0 \<le> now" using ih ord(2) by linarith
  have A1: "all_fine now ?A w1" using ih ord(2) fine_mono by blast
  have ext: "?A k \<Longrightarrow> ?B k" for k by (rule approved_along_extend)
  have "all_fine now ?B w \<and> (\<forall>x \<in> set ts. task_fine now ?B x)"
  proof (rule move_inv [where J = "all_fine now ?B" and P = "\<lambda>_. task_fine now ?B"])
    show "make_move wc (now, mv) (w1, ts1) = (w, ts)" using snoc.prems(2) run m by simp
    show B1: "all_fine now ?B w1" using A1 ext fine_mono by blast
    show ts1: "\<forall>x \<in> set ts1. task_fine now ?B x" using ih ord(2) ext task_fine_mono by blast
    show "task_fine now ?B x" if "mv = Arrive a" "x \<in> set (start wc now a w1)" for a x
      by (rule start_fine [OF assms(1) A1 pos that(2) ext])
        (use approved_along_arrival [OF run [unfolded run_schedule_def]] assms(1) m that(1) in auto)
    show "all_fine now ?B w2 \<and> (\<forall>y \<in> set ys. task_fine now ?B y) \<and> (\<forall>y \<in> set ts1. task_fine now ?B y)"
      if "x \<in> set ts1" "advance wc now x w1 = (w2, ys)" for x w2 ys
      using advance_fine [OF assms(1) B1 pos _ that(2)] ts1 that(1) by blast
  qed
  with pos m show ?case by simp
qed

end

subsection \<open>Properties\<close>

text \<open>C2. Under every interleaving: however requests, actions and background tasks overlap, and whichever of them
  are abandoned halfway, a review that the webhook allows is decided on unexpired, unrejected sessions of this
  user and this cluster, each of which was approved by a caller that the approver check accepted on the
  pending session.  Only their granted groups reach the RBAC check or the session review that allowed it.\<close>

theorem interleaved_access_approved:
  assumes "kube_sessions (wc_client wc) sessions ok" "wh_client wh = wc_client wc"
    and "ok (api w0)" "sessions (api w0) = []" "0 \<le> t" "in_order t ms" "last_time t ms \<le> now"
    and "run_schedule wc ms w0 = (w, ts)"
    and "sar_allowed (fst (handleAuthorize now wh c (Some sar) w p))"
  shows "\<exists>ss. (\<forall>s \<in> set ss. s \<in> set (sessions (api w)) \<and> User (bs_spec s) = sar_User sar \<and> Cluster (bs_spec s) = c \<and>
       RejectedAt (bs_status s) = 0 \<and> now < ExpiresAt (bs_status s) \<and> approved_before wc ms w0 (session_key s)) \<and>
     ((\<exists>rc. wh_canDoFn wh rc (map (\<lambda>s. GrantedGroup (bs_spec s)) ss) sar c = Inr True) \<or>
      (\<exists>rc ra s g. sar_ResourceAttributes sar = Some ra \<and> s \<in> set ss \<and>
         HasSuffix g (GrantedGroup (bs_spec s)) \<and> wh_sar_create wh rc (session_sar g ra) = Inr True))"
proof -
  have k: "kube_sessions (wh_client wh) sessions ok" using assms(1,2) by simp
  from kube_sessions.schedule_fine [OF assms(1) refl assms(3-6,8)]
  have fine: "fine (last_time t ms) (approved_before wc ms w0) s" if "s \<in> set (sessions (api w))" for s
    using that by blast
  from authorize_allowed_cases [OF k assms(9)] obtain ss
    where ss: "getSessions now (wh_client wh) (sar_User sar) c w = Inr ss"
    and cases: "(\<exists>rc. wh_canDoFn wh rc (map (\<lambda>s. GrantedGroup (bs_spec s)) ss) sar c = Inr True) \<or>
      (\<exists>rc ra s g. sar_ResourceAttributes sar = Some ra \<and> s \<in> set (sessions (api w)) \<and>
         User (bs_spec s) = sar_User sar \<and> Cluster (bs_spec s) = c \<and> live now s \<and>
         HasSuffix g (GrantedGroup (bs_spec s)) \<and> wh_sar_create wh rc (session_sar g ra) = Inr True)" by blast
  note mem = kube_sessions.getSessions_mem_iff [OF k ss]
  have "approved_before wc ms w0 (session_key s)" if "s \<in> set ss" for s
    using fine [of s] that mem assms(7) by (auto simp: fine_def live_def)
  with mem have good: "\<forall>s \<in> set ss. s \<in> set (sessions (api w)) \<and> User (bs_spec s) = sar_User sar \<and> Cluster (bs_spec s) = c \<and>
       RejectedAt (bs_status s) = 0 \<and> now < ExpiresAt (bs_status s) \<and> approved_before wc ms w0 (session_key s)"
    by (simp add: live_def)
  have "(\<exists>rc. wh_canDoFn wh rc (map (\<lambda>s. GrantedGroup (bs_spec s)) ss) sar c = Inr True) \<or>
      (\<exists>rc ra s g. sar_ResourceAttributes sar = Some ra \<and> s \<in> set ss \<and>
         HasSuffix g (GrantedGroup (bs_spec s)) \<and> wh_sar_create wh rc (session_sar g ra) = Inr True)"
    using cases mem by metis
  with good show ?thesis by blast
qed

text \<open>A day on the example installation: the request, a scan for timeouts that stays behind, the approval, and
  the late timeout task, which finds nothing to do.\<close>

definition ex_schedule :: "(instant \<times> move) list" where
  "ex_schedule = [(ex_now, Arrive (RequestArrives ex_dev (Some ex_request))), (ex_now, Run 0), (ex_now, Run 0), (ex_now, Run 0),
     (ex_now + Second, Arrive TimeOutScan),
     (ex_now + Minute, Arrive (ActionArrives ex_lead ''prod-admin-10'' (Approve ''ok''))), (ex_now + Minute, Run 1),
     (ex_now + 2 * Minute, Run 0)]"

theorem interleaved_access_approved_witness:
  "\<exists>s \<in> set (m_sessions (api (fst (run_schedule ex_wc ex_schedule (ex_wh_world [] []))))).
     User (bs_spec s) = ''dev@ex.org'' \<and> approved_before ex_wc ex_schedule (ex_wh_world [] []) (session_key s)"
proof -
  let ?w0 = "ex_wh_world [] []"
  have k: "kube_sessions (wc_client ex_wc) m_sessions mem_wf" "wh_client ex_wh = wc_client ex_wc"
    using mem.kube_sessions_axioms by (simp_all add: ex_wc_def ex_wh_def)
  have start: "mem_wf (api ?w0)" "m_sessions (api ?w0) = []" "0 \<le> ex_now" "in_order ex_now ex_schedule"
    "last_time ex_now ex_schedule \<le> ex_now + Hour" by code_simp+
  have a: "sar_allowed (fst (handleAuthorize (ex_now + Hour) ex_wh ''prod'' (Some ex_sar)
      (fst (run_schedule ex_wc ex_schedule ?w0)) NewClientProvider))" by code_simp
  have no: "\<And>rc gs. wh_canDoFn ex_wh rc gs ex_sar ''prod'' \<noteq> Inr True"
    by (auto simp: ex_wh_def CanGroupsDo_def ex_sar_def split: option.splits)
  have "sar_User ex_sar = ''dev@ex.org''" by (simp add: ex_sar_def)
  with interleaved_access_approved [OF k start prod.collapse [symmetric] a] no show ?thesis by metis
qed

text \<open>Two overlapping requests of the same user for the same group, with an approval before the late one ends.\<close>

definition race_schedule :: "(instant \<times> move) list" where
  "race_schedule = [(ex_now, Arrive (RequestArrives ex_dev (Some ex_request))), (ex_now, Arrive (RequestArrives ex_dev (Some ex_request))),
     (ex_now, Run 0), (ex_now, Run 1), (ex_now, Run 1),
     (ex_now + Minute, Arrive (ActionArrives ex_lead ''prod-admin-10'' (Approve ''ok''))), (ex_now + Minute, Run 1),
     (ex_now + 2 * Minute, Run 0), (ex_now + 2 * Minute, Run 0), (ex_now + 2 * Minute, Run 0)]"

definition session_states :: "mem_api world \<times> task list \<Rightarrow> (string \<times> BreakglassSessionState) list" where
  "session_states c = map (\<lambda>s. (Name (bs_meta s), State (bs_status s))) (m_sessions (api (fst c)))"


end
