(* ===== verification/ConcurrencySpec.thy ===== *)
theory ConcurrencySpec
  imports Concurrency
begin

text \<open>
  Interleaved actions and background tasks still refine the abstract machine of \<^verbatim>\<open>LifecycleSpec\<close>.  What
  saves them is optimistic concurrency: a status is stored only over the version that it was computed from.
  This needs one more law of the API server, that a version is never given out twice.  Requests are left
  out: \<open>racing_requests_undo_approval\<close> shows that they break the refinement.
\<close>

subsection \<open>Versions\<close>

locale versioned_sessions = kube_sessions +
  fixes issued :: "'a \<Rightarrow> nat set"
  assumes stored_issued: "wf a \<Longrightarrow> s \<in> set (sessions a) \<Longrightarrow> ResourceVersion (bs_meta s) \<in> issued a"
    and status_issues: "wf a \<Longrightarrow> update_session_status cl s a = (a', r) \<Longrightarrow> issued a \<subseteq> issued a' \<and>
      (\<forall>x \<in> set (sessions a'). x \<in> set (sessions a) \<or> ResourceVersion (bs_meta x) \<notin> issued a)"
    and update_issues: "wf a \<Longrightarrow> update_session cl s a = (a', r) \<Longrightarrow> issued a \<subseteq> issued a' \<and>
      (\<forall>x \<in> set (sessions a'). x \<in> set (sessions a) \<or> ResourceVersion (bs_meta x) \<notin> issued a)"
    and delete_issues: "wf a \<Longrightarrow> delete_session cl s a = (a', r) \<Longrightarrow> issued a \<subseteq> issued a'"
    and create_issues: "wf a \<Longrightarrow> create_session cl s a = (a', r) \<Longrightarrow> issued a \<subseteq> issued a' \<and>
      (\<forall>x \<in> set (sessions a'). x \<in> set (sessions a) \<or> ResourceVersion (bs_meta x) \<notin> issued a)"
begin

text \<open>From one state of the server to a later one.\<close>

definition later :: "'a \<Rightarrow> 'a \<Rightarrow> bool" where
  "later a a' \<longleftrightarrow> issued a \<subseteq> issued a' \<and>
     (\<forall>x \<in> set (sessions a'). x \<in> set (sessions a) \<or> ResourceVersion (bs_meta x) \<notin> issued a)"

lemma later_refl [simp]: "later a a"
  by (simp add: later_def)

lemma later_trans: "later a b \<Longrightarrow> later b c \<Longrightarrow> later a c"
  unfolding later_def by blast

text \<open>A copy that was read at some time: whoever still carries its version has its status.\<close>

definition snapshot :: "'a \<Rightarrow> BreakglassSession \<Rightarrow> bool" where
  "snapshot a s \<longleftrightarrow> ResourceVersion (bs_meta s) \<in> issued a \<and>
     (\<forall>x \<in> set (sessions a). session_key x = session_key s \<and> ResourceVersion (bs_meta x) = ResourceVersion (bs_meta s) \<longrightarrow>
        bs_status x = bs_status s)"

lemma snapshot_stored:
  assumes "wf a" "s \<in> set (sessions a)"
  shows "snapshot a s"
  using stored_issued [OF assms] stored_unique [OF assms(1) _ assms(2)] by (auto simp: snapshot_def)

lemma snapshot_later:
  assumes "snapshot a s" "later a a'"
  shows "snapshot a' s"
  unfolding snapshot_def
proof (intro conjI ballI impI)
  show "ResourceVersion (bs_meta s) \<in> issued a'" using assms by (auto simp: snapshot_def later_def)
  fix x assume x: "x \<in> set (sessions a')"
    "session_key x = session_key s \<and> ResourceVersion (bs_meta x) = ResourceVersion (bs_meta s)"
  with assms have "x \<in> set (sessions a)" by (auto simp: snapshot_def later_def)
  with x(2) assms(1) show "bs_status x = bs_status s" by (simp add: snapshot_def)
qed

subsection \<open>Writes\<close>

abbreviation evolves :: "'a world \<Rightarrow> 'a world \<Rightarrow> bool" where
  "evolves w w' \<equiv> wf (api w') \<and> later (api w) (api w') \<and>
     spec_step\<^sup>*\<^sup>* (phases (sessions (api w))) (phases (sessions (api w')))"

lemma evolves_trans:
  assumes "evolves w w1" "evolves w1 w2"
  shows "evolves w w2"
proof (intro conjI)
  show "wf (api w2)" using assms by simp
  show "later (api w) (api w2)" using assms later_trans [of "api w" "api w1" "api w2"] by simp
  show "spec_step\<^sup>*\<^sup>* (phases (sessions (api w))) (phases (sessions (api w2)))"
    using assms rtranclp_trans [of spec_step "phases (sessions (api w))" "phases (sessions (api w1))"] by simp
qed

lemma put_evolves:
  assumes "wf (api w)" "UpdateBreakglassSessionStatus cl s w = (w', r)"
    and step: "\<And>x. x \<in> set (sessions (api w)) \<Longrightarrow> session_key x = session_key s \<Longrightarrow>
      ResourceVersion (bs_meta x) = ResourceVersion (bs_meta s) \<Longrightarrow>
      phase_step (phase_of (State (bs_status x))) (phase_of (State (bs_status s)))"
  shows "evolves w w'"
proof -
  obtain x where "update_session_status cl s (api w) = (api w', x)"
    using assms(2) by (auto simp: UpdateBreakglassSessionStatus_def split: prod.splits option.splits)
  from status_issues [OF assms(1) this] have l: "later (api w) (api w')" by (simp add: later_def)
  show ?thesis
  proof (cases r)
    case (Some e)
    with repo.put_Some [OF assms(1)] assms(2) l show ?thesis by simp
  next
    case None
    with repo.put_None [OF assms(1)] assms(2)
    have w': "wf (api w')" "status_written (sessions (api w)) s (sessions (api w'))" by simp_all
    from w'(2) obtain old where old: "old \<in> set (sessions (api w))" "session_key old = session_key s"
      "ResourceVersion (bs_meta old) = ResourceVersion (bs_meta s)" unfolding status_written_def by blast
    have "status_written (sessions (api w)) (s\<lparr>bs_status := bs_status s\<rparr>) (sessions (api w'))" using w'(2) by simp
    from status_written_phases [OF this keys_distinct [OF assms(1)]]
    have "phases (sessions (api w')) = insert (session_key s, phase_of (State (bs_status s)))
        {x \<in> phases (sessions (api w)). fst x \<noteq> session_key s}" .
    moreover have "(session_key s, phase_of (State (bs_status old))) \<in> phases (sessions (api w))"
      using old(1,2) unfolding phases_def phase_entry_def by (intro image_eqI [of _ _ old]) simp_all
    ultimately have "spec_step (phases (sessions (api w))) (phases (sessions (api w')))"
      using spec_step.advance [OF _ step [OF old]] by simp
    with w'(1) l show ?thesis by blast
  qed
qed

text \<open>A write that ends a session is a step whatever is stored.\<close>

lemma put_closed_evolves:
  assumes "wf (api w)" "phase_of (State (bs_status s)) = Closed" "UpdateBreakglassSessionStatus cl s w = (w', r)"
  shows "evolves w w'"
  using assms(2) by (intro put_evolves [OF assms(1,3)]) simp

lemma plain_evolves:
  assumes "wf (api w)" "UpdateBreakglassSession cl s w = (w', r)"
  shows "evolves w w'"
proof -
  obtain a x where u: "update_session cl s (api w) = (a, x)" by force
  have a: "api w' = a" using assms(2) u by (auto simp: UpdateBreakglassSession_def split: option.splits)
  have "later (api w) a" using update_issues [OF assms(1) u] by (simp add: later_def)
  moreover have same: "wf a \<and> map session_payload (sessions a) = map session_payload (sessions (api w))"
    using update_None [OF assms(1), of s a] update_Some [OF assms(1), of s a] u by (cases x) auto
  moreover have payload: "phases ys = (\<lambda>p. (fst p, phase_of (State (snd (snd p))))) ` set (map session_payload ys)" for ys
    by (simp add: phases_def phase_entry_def session_payload_def image_image)
  have "phases (sessions a) = phases (sessions (api w))" by (simp only: payload same)
  ultimately show ?thesis by (simp add: a)
qed

lemma expire_pending_evolves:
  assumes "wf (api w)"
  shows "evolves w (expire_pending_one now cl s w)"
proof -
  obtain w' r where u: "UpdateBreakglassSessionStatus cl (s\<lparr>bs_status := timeout_status now s\<rparr>) w = (w', r)" by force
  have "evolves w w'" by (rule put_closed_evolves [OF assms _ u]) (simp add: timeout_status_def)
  with assms u show ?thesis by (simp add: expire_pending_one_def split: option.split)
qed

lemma remove_evolves:
  assumes "wf (api w)"
  shows "evolves w (fst (cleanup_one now cl s (w, n)))"
proof (cases "cleanup_due now s")
  case True
  obtain w1 n1 where one: "cleanup_one now cl s (w, n) = (w1, n1)" by force
  obtain a x where d: "delete_session cl s (api w) = (a, x)" by force
  have "api w1 = a"
    using one d True by (auto simp: cleanup_one_def cleanup_due_def DeleteBreakglassSession_def split: option.splits if_splits)
  moreover have "set (sessions (api w1)) \<subseteq> set (sessions (api w)) \<and> wf (api w1)"
    using cleanup_one_due [OF assms True one] by auto
  ultimately have "later (api w) (api w1) \<and> wf (api w1) \<and> spec_step (phases (sessions (api w))) (phases (sessions (api w1)))"
    using delete_issues [OF assms d] by (auto simp: later_def phases_def intro!: spec_step.forget)
  with one show ?thesis by (simp add: r_into_rtranclp)
qed (use assms in \<open>simp add: cleanup_one_not_due\<close>)

subsection \<open>Schedules\<close>

text \<open>What holds of a task in flight; requests are excluded.\<close>

fun task_sound :: "'a \<Rightarrow> task \<Rightarrow> bool" where
  "task_sound a (Decide bs st) \<longleftrightarrow> snapshot a bs \<and> (\<exists>now. session_step now bs st)"
| "task_sound a (Create c request plan) \<longleftrightarrow> False"
| "task_sound a (Finish c request plan) \<longleftrightarrow> False"
| "task_sound a (Submit c plan bs) \<longleftrightarrow> False"
| "task_sound a (Retry n s) \<longleftrightarrow> phase_of (State (bs_status s)) = Closed"
| "task_sound a _ \<longleftrightarrow> True"

lemma task_sound_later: "task_sound a x \<Longrightarrow> later a a' \<Longrightarrow> task_sound a' x"
  by (cases x) (auto intro: snapshot_later)

lemma decide_evolves:
  assumes "wc_client wc = cl" "wf (api w)" "snapshot (api w) bs" "session_step n bs st"
  shows "evolves w (snd (persist_session wc (bs\<lparr>bs_status := st\<rparr>) w))"
proof -
  obtain w' r where u: "UpdateBreakglassSessionStatus cl (bs\<lparr>bs_status := st\<rparr>) w = (w', r)" by force
  have "evolves w w'"
  proof (rule put_evolves [OF assms(2) u])
    fix x assume "x \<in> set (sessions (api w))" "session_key x = session_key (bs\<lparr>bs_status := st\<rparr>)"
      "ResourceVersion (bs_meta x) = ResourceVersion (bs_meta (bs\<lparr>bs_status := st\<rparr>))"
    with assms(3) have "bs_status x = bs_status bs" unfolding snapshot_def by simp
    with session_step_phase [OF assms(4)]
    show "phase_step (phase_of (State (bs_status x))) (phase_of (State (bs_status (bs\<lparr>bs_status := st\<rparr>))))" by simp
  qed
  with assms(1) u show ?thesis by (simp add: persist_session_def split: option.split)
qed

lemma advance_evolves:
  assumes "wc_client wc = cl" "wf (api w)" "task_sound (api w) x" "advance wc now x w = (w', ys)"
  shows "evolves w w' \<and> (\<forall>y \<in> set ys. task_sound (api w') y)"
proof (cases x)
  case (Decide bs st)
  with assms decide_evolves [OF assms(1,2)] show ?thesis by auto
next
  case (TimeOut s)
  with assms expire_pending_evolves [OF assms(2), of now s] show ?thesis by simp
next
  case (Expire s)
  have "phase_of (State (expire_status now s)) = Closed" by (simp add: expire_status_def)
  with Expire assms(1,2,4) show ?thesis by (auto split: if_splits sum.splits)
next
  case (Retry n s)
  have s: "phase_of (State (bs_status s)) = Closed" using assms(3) Retry by simp
  show ?thesis
  proof (cases n)
    case 0
    with plain_evolves [OF assms(2) surjective_pairing, of s] assms(1,4) Retry show ?thesis by simp
  next
    case (Suc m)
    obtain w1 r where u: "UpdateBreakglassSessionStatus cl s w = (w1, r)" by force
    from put_closed_evolves [OF assms(2) s u] s u assms(1,4) Retry Suc show ?thesis
      by (auto split: option.splits sum.splits)
  qed
next
  case (Remove s)
  with assms remove_evolves [OF assms(2), of now s 0] show ?thesis by simp
qed (use assms in simp_all)

lemma start_sound:
  assumes "wc_client wc = cl" "wf (api w)" "\<And>c body. a \<noteq> RequestArrives c body" "x \<in> set (start wc now a w)"
  shows "task_sound (api w) x"
proof (cases a)
  case (ActionArrives c name act)
  with assms(1,4) obtain bs where bs: "GetBreakglassSessionByName cl name w = Inr bs" "action_permitted wc c act bs w"
    "x = Decide bs (action_status now (ctx_email c) act bs)" by (auto split: sum.splits if_splits)
  with permitted_step [OF bs(2)] snapshot_stored [OF assms(2) by_name_stored [OF assms(2) bs(1)]] show ?thesis by auto
qed (use assms in \<open>auto split: sum.splits\<close>)

lemma schedule_evolves:
  assumes "wc_client wc = cl" "wf (api w0)"
  shows "(\<And>now c body. (now, Arrive (RequestArrives c body)) \<notin> set ms) \<Longrightarrow> run_schedule wc ms w0 = (w, ts) \<Longrightarrow>
    wf (api w) \<and> spec_step\<^sup>*\<^sup>* (phases (sessions (api w0))) (phases (sessions (api w))) \<and> (\<forall>x \<in> set ts. task_sound (api w) x)"
proof (induction ms arbitrary: w ts rule: rev_induct)
  case Nil
  with assms show ?case by (simp add: run_schedule_def)
next
  case (snoc m ms)
  obtain now mv where m: "m = (now, mv)" by force
  obtain w1 ts1 where run: "run_schedule wc ms w0 = (w1, ts1)" by force
  have ih: "wf (api w1)" "spec_step\<^sup>*\<^sup>* (phases (sessions (api w0))) (phases (sessions (api w1)))"
    "\<forall>x \<in> set ts1. task_sound (api w1) x"
    using snoc.IH [OF _ run] snoc.prems(1) by auto
  let ?reached = "\<lambda>w. wf (api w) \<and> spec_step\<^sup>*\<^sup>* (phases (sessions (api w0))) (phases (sessions (api w)))"
  have "?reached w \<and> (\<forall>x \<in> set ts. task_sound (api w) x)"
  proof (rule move_inv [where J = ?reached and P = "\<lambda>w. task_sound (api w)"])
    show "make_move wc (now, mv) (w1, ts1) = (w, ts)" using snoc.prems(2) run m by simp
    show "?reached w1" "\<forall>x \<in> set ts1. task_sound (api w1) x" using ih by simp_all
    show "task_sound (api w1) x" if "mv = Arrive a" "x \<in> set (start wc now a w1)" for a x
    proof (rule start_sound [OF assms(1) ih(1) _ that(2)])
      show "a \<noteq> RequestArrives c body" for c body using snoc.prems(1) [of now c body] m that(1) by auto
    qed
    show "?reached w2 \<and> (\<forall>y \<in> set ys. task_sound (api w2) y) \<and> (\<forall>y \<in> set ts1. task_sound (api w2) y)"
      if "x \<in> set ts1" "advance wc now x w1 = (w2, ys)" for x w2 ys
    proof -
      have "task_sound (api w1) x" using ih(3) that(1) by blast
      from advance_evolves [OF assms(1) ih(1) this that(2)] have ev: "evolves w1 w2" "\<forall>y \<in> set ys. task_sound (api w2) y"
        by blast+
      moreover have "spec_step\<^sup>*\<^sup>* (phases (sessions (api w0))) (phases (sessions (api w2)))"
        using rtranclp_trans [OF ih(2)] ev(1) by blast
      moreover have "\<forall>y \<in> set ts1. task_sound (api w2) y" using ih(3) ev(1) task_sound_later by blast
      ultimately show ?thesis by blast
    qed
  qed
  then show ?case by blast
qed

end

subsection \<open>The in-memory server gives every version out once\<close>

lemma mem_write_issues:
  assumes "mem_wf m" "mem_write_session f s m = (m', r)"
  shows "{v. v < m_next m} \<subseteq> {v. v < m_next m'} \<and>
    (\<forall>x \<in> set (m_sessions m'). x \<in> set (m_sessions m) \<or> ResourceVersion (bs_meta x) \<notin> {v. v < m_next m})"
  using assms(2) by (auto simp: mem_write_session_def Let_def split: option.splits if_splits)

interpretation mem_versions: versioned_sessions mem_client m_sessions mem_wf "\<lambda>m. {v. v < m_next m}"
proof
  fix a s assume "mem_wf a" "s \<in> set (m_sessions a)"
  then show "ResourceVersion (bs_meta s) \<in> {v. v < m_next a}" by (simp add: mem_wf_def)
next
  fix a s a' r assume "mem_wf a" "delete_session mem_client s a = (a', r)"
  then show "{v. v < m_next a} \<subseteq> {v. v < m_next a'}"
    by (auto simp: mem_client_def mem_delete_session_def split: if_splits)
next
  fix a s a' r assume "mem_wf a" "update_session_status mem_client s a = (a', r)"
  then show "{v. v < m_next a} \<subseteq> {v. v < m_next a'} \<and>
    (\<forall>x \<in> set (m_sessions a'). x \<in> set (m_sessions a) \<or> ResourceVersion (bs_meta x) \<notin> {v. v < m_next a})"
    by (intro mem_write_issues) (simp_all add: mem_client_def)
next
  fix a s a' r assume "mem_wf a" "update_session mem_client s a = (a', r)"
  then show "{v. v < m_next a} \<subseteq> {v. v < m_next a'} \<and>
    (\<forall>x \<in> set (m_sessions a'). x \<in> set (m_sessions a) \<or> ResourceVersion (bs_meta x) \<notin> {v. v < m_next a})"
    by (intro mem_write_issues) (simp_all add: mem_client_def)
next
  fix a s a' r assume "mem_wf a" "create_session mem_client s a = (a', r)"
  then show "{v. v < m_next a} \<subseteq> {v. v < m_next a'} \<and>
    (\<forall>x \<in> set (m_sessions a'). x \<in> set (m_sessions a) \<or> ResourceVersion (bs_meta x) \<notin> {v. v < m_next a})"
    by (auto simp: mem_client_def mem_create_session_def mem_created_meta_def Let_def split: if_splits)
qed

subsection \<open>Properties\<close>


text \<open>An approval and a withdrawal that overlap: both pass their checks on the pending session, the approval is
  stored first and the withdrawal is refused by the server, as its copy is out of date.\<close>

definition ex_overlap :: "(instant \<times> move) list" where
  "ex_overlap = [(ex_now, Arrive (ActionArrives ex_lead ''s1'' (Approve ''ok''))), (ex_now, Arrive (ActionArrives ex_dev ''s1'' Withdraw)),
     (ex_now, Arrive TimeOutScan), (ex_now, Run 0), (ex_now + 2 * Hour, Run 0), (ex_now + 3 * Hour, Arrive ExpireScan), (ex_now + 3 * Hour, Run 1), (ex_now + 3 * Hour, Run 1)]"


end
