(* ===== verification/SessionOrigin.thy ===== *)
theory SessionOrigin
  imports Concurrency
begin

text \<open>
  Where the stored sessions come from.  Handlers and background tasks change the API server through three
  writes only, none of which touches the spec of a session, so under every interleaving a stored spec is the
  one that some accepted request was given: it is well-formed and bounded by the matched escalation.
\<close>

subsection \<open>The writes of handlers and tasks\<close>

inductive writes :: "'w client \<Rightarrow> 'w world \<Rightarrow> 'w world \<Rightarrow> bool" for cl :: "'w client" and w :: "'w world" where
  none: "writes cl w w"
| status: "writes cl w w1 \<Longrightarrow> UpdateBreakglassSessionStatus cl s w1 = (w2, r) \<Longrightarrow> writes cl w w2"
| plain: "writes cl w w1 \<Longrightarrow> UpdateBreakglassSession cl s w1 = (w2, r) \<Longrightarrow> writes cl w w2"
| delete: "writes cl w w1 \<Longrightarrow> DeleteBreakglassSession cl s w1 = (w2, r) \<Longrightarrow> writes cl w w2"
| effect: "writes cl w w1 \<Longrightarrow> api w2 = api w1 \<Longrightarrow> writes cl w w2"

lemmas write_intros = writes.none writes.status [OF writes.none] writes.plain [OF writes.none] writes.delete [OF writes.none]

lemma writes_metric [intro]: "writes cl w w1 \<Longrightarrow> writes cl w (inc_metric m w1)"
  by (erule writes.effect) simp

lemma writes_trans: "writes cl w1 w2 \<Longrightarrow> writes cl w w1 \<Longrightarrow> writes cl w w2"
  by (induction rule: writes.induct) (auto intro: writes.intros)

lemma expire_pending_writes: "writes cl w (expire_pending_one now cl s w)"
  by (auto simp: expire_pending_one_def split: prod.split option.split intro: write_intros)

lemma cleanup_writes: "writes cl w (fst (cleanup_one now cl s (w, n)))"
  by (auto simp: cleanup_one_def split: prod.split option.split intro: write_intros)

lemma persist_writes: "wc_client wc = cl \<Longrightarrow> writes cl w (snd (persist_session wc s w))"
  by (auto simp: persist_session_def split: prod.split option.split intro: write_intros)

lemma notify_writes: "writes cl w w1 \<Longrightarrow> writes cl w (notify_request wc b e u as w1)"
  by (erule writes.effect) simp

text \<open>Apart from the creation of a session, every step of a task is made of these writes.\<close>

lemma advance_writes:
  assumes "\<And>c request plan. x \<noteq> Create c request plan" "advance wc now x w = (w', ys)"
  shows "writes (wc_client wc) w w' \<and> (\<forall>y \<in> set ys. \<forall>c request plan. y \<noteq> Create c request plan)"
proof (cases x)
  case (Create c request plan)
  with assms(1) show ?thesis by blast
next
  case (Decide bs st)
  with assms(2) persist_writes [OF refl, of wc w] show ?thesis by auto
next
  case (Finish c request plan)
  with assms(2) increment_request_count_cases [of wc "pl_matched plan" w] show ?thesis
    by (auto split: sum.splits if_splits intro: writes.none)
next
  case (Submit c plan bs)
  with assms(2) show ?thesis by (auto split: prod.splits option.splits intro: write_intros notify_writes)
next
  case (TimeOut s)
  with assms(2) expire_pending_writes show ?thesis by auto
next
  case (Expire s)
  with assms(2) show ?thesis by (auto split: if_splits intro: writes.none)
next
  case (Retry n s)
  with assms(2) show ?thesis
    by (cases n) (auto split: prod.splits option.splits sum.splits
        intro: write_intros writes.plain [OF writes.none surjective_pairing])
next
  case (Remove s)
  with assms(2) cleanup_writes show ?thesis by auto
qed

context kube_sessions
begin

lemma writes_specs:
  assumes "writes cl w w'" "wf (api w)"
  shows "wf (api w') \<and> bs_spec ` set (sessions (api w')) \<subseteq> bs_spec ` set (sessions (api w))"
  using assms(1)
proof induction
  case none
  with assms(2) show ?case by simp
next
  case (status w1 s w2 r)
  show ?case
  proof (cases r)
    case None
    with status repo.put_None [of w1 s w2] have w2: "wf (api w2)" "status_written (sessions (api w1)) s (sessions (api w2))"
      by simp_all
    have "bs_spec y \<in> bs_spec ` set (sessions (api w1))" if "y \<in> set (sessions (api w2))" for y
      using that w2(2) unfolding status_written_def by (metis imageI)
    with w2(1) status.IH show ?thesis by blast
  next
    case (Some e)
    with status repo.put_Some [of w1 s w2 e] show ?thesis by simp
  qed
next
  case (plain w1 s w2 r)
  obtain a x where u: "update_session cl s (api w1) = (a, x)" by force
  have a: "api w2 = a" using plain.hyps(2) u by (auto simp: UpdateBreakglassSession_def split: option.splits)
  have same: "wf a \<and> map session_payload (sessions a) = map session_payload (sessions (api w1))"
    using update_None [of "api w1" s a] update_Some [of "api w1" s a] u plain.IH by (cases x) auto
  have "bs_spec ` set ys = (\<lambda>p. fst (snd p)) ` set (map session_payload ys)" for ys
    by (simp add: session_payload_def image_image)
  with same have "bs_spec ` set (sessions a) = bs_spec ` set (sessions (api w1))" by metis
  with same a plain.IH show ?case by simp
next
  case (delete w1 s w2 r)
  show ?case
  proof (cases r)
    case None
    with delete repo.remove_None [of w1 s w2] show ?thesis by auto
  next
    case (Some e)
    with delete repo.remove_Some [of w1 s w2 e] show ?thesis by simp
  qed
next
  case (effect w1 w2)
  then show ?case by simp
qed

end

subsection \<open>The request behind a session\<close>

definition requested_before ::
  "'w BreakglassSessionController \<Rightarrow> (instant \<times> move) list \<Rightarrow> 'w world \<Rightarrow> BreakglassSessionRequest \<Rightarrow> request_plan \<Rightarrow> bool" where
  "requested_before wc ms w request plan \<longleftrightarrow>
     (\<exists>before at c rest. ms = before @ (at, Arrive (RequestArrives c (Some request))) # rest \<and>
        check_request wc c (Some request) (fst (run_schedule wc before w)) = Inr (request, plan))"

definition spec_requested ::
  "'w BreakglassSessionController \<Rightarrow> (instant \<times> move) list \<Rightarrow> 'w world \<Rightarrow> BreakglassSessionSpec \<Rightarrow> bool" where
  "spec_requested wc ms w sp \<longleftrightarrow>
     (\<exists>request plan. sp = bs_spec (new_session request plan) \<and> requested_before wc ms w request plan)"

fun task_origin :: "'w BreakglassSessionController \<Rightarrow> (instant \<times> move) list \<Rightarrow> 'w world \<Rightarrow> task \<Rightarrow> bool" where
  "task_origin wc ms w (Create c request plan) \<longleftrightarrow> requested_before wc ms w request plan"
| "task_origin wc ms w _ \<longleftrightarrow> True"

lemma requested_before_extend: "requested_before wc ms w request plan \<Longrightarrow> requested_before wc (ms @ ns) w request plan"
  unfolding requested_before_def by (metis append_Cons append_assoc)

lemma spec_requested_extend: "spec_requested wc ms w sp \<Longrightarrow> spec_requested wc (ms @ ns) w sp"
  unfolding spec_requested_def by (metis requested_before_extend)

lemma task_origin_extend: "task_origin wc ms w x \<Longrightarrow> task_origin wc (ms @ ns) w x"
  by (cases x) (auto intro: requested_before_extend)

lemma task_origin_other: "\<forall>c request plan. y \<noteq> Create c request plan \<Longrightarrow> task_origin wc ms w y"
  by (cases y) auto

lemma start_origin:
  assumes "run_schedule wc ms w0 = (w, ts)" "x \<in> set (start wc now a w)"
  shows "task_origin wc (ms @ [(now, Arrive a)]) w0 x"
proof (cases a)
  case (RequestArrives c body)
  with assms(2) have "\<exists>rp. check_request wc c body w = Inr rp \<and> x = Create c (fst rp) (snd rp)"
    by (cases "check_request wc c body w") (auto split: if_splits)
  then obtain request plan where r: "check_request wc c body w = Inr (request, plan)" "x = Create c request plan"
    by auto
  have "body = Some request" using check_request_Inr [OF r(1)] by blast
  with r(1) RequestArrives assms(1) have "ms @ [(now, Arrive a)] = ms @ (now, Arrive (RequestArrives c (Some request))) # [] \<and>
      check_request wc c (Some request) (fst (run_schedule wc ms w0)) = Inr (request, plan)" by simp
  then have "requested_before wc (ms @ [(now, Arrive a)]) w0 request plan" unfolding requested_before_def by blast
  with r(2) show ?thesis by simp
qed (use assms(2) in \<open>auto split: sum.splits if_splits\<close>)

text \<open>What the spec of an accepted request looks like.\<close>

lemma requested_spec:
  assumes "requested_before wc ms w request plan"
  shows "session_required_errors (bs_spec (new_session request plan)) = [] \<and>
    EscalatedGroup (be_spec (pl_matched plan)) = GrantedGroup (bs_spec (new_session request plan)) \<and>
    MaxValidFor (bs_spec (new_session request plan)) = EscMaxValidFor (be_spec (pl_matched plan))"
proof -
  from assms obtain c w1 where "check_request wc c (Some request) w1 = Inr (request, plan)"
    unfolding requested_before_def by blast
  from check_request_Inr [OF this] show ?thesis
    by (auto simp: session_required_errors_Nil new_session_def dropK8sInternalFieldsEscalation_def Let_def)
qed

context kube_sessions
begin

lemma advance_specs:
  assumes "wc_client wc = cl" "wf (api w)" "advance wc now x w = (w', ys)"
  shows "wf (api w') \<and> (\<forall>s \<in> set (sessions (api w')). bs_spec s \<in> bs_spec ` set (sessions (api w)) \<or>
      (\<exists>c request plan. x = Create c request plan \<and> bs_spec s = bs_spec (new_session request plan))) \<and>
    (\<forall>y \<in> set ys. \<forall>c request plan. y \<noteq> Create c request plan)"
proof (cases "\<exists>c request plan. x = Create c request plan")
  case True
  then obtain c request plan where x: "x = Create c request plan" by blast
  obtain w1 r where add: "AddBreakglassSession cl (new_session request plan) w = (w1, r)" by force
  from assms(1,3) x add have "w' = w1" "\<forall>y \<in> set ys. \<forall>c request plan. y \<noteq> Create c request plan"
    by (auto split: option.splits)
  with add_session_effect [OF assms(2) add] x show ?thesis by (auto split: if_splits)
next
  case False
  then have "\<And>c request plan. x \<noteq> Create c request plan" by blast
  from advance_writes [OF this assms(3)] have "writes cl w w'" "\<forall>y \<in> set ys. \<forall>c request plan. y \<noteq> Create c request plan"
    by (simp_all add: assms(1))
  with writes_specs [OF _ assms(2)] show ?thesis by blast
qed

lemma schedule_specs:
  assumes "wc_client wc = cl" "wf (api w0)" "sessions (api w0) = []"
  shows "run_schedule wc ms w0 = (w, ts) \<Longrightarrow>
    wf (api w) \<and> (\<forall>s \<in> set (sessions (api w)). spec_requested wc ms w0 (bs_spec s)) \<and>
    (\<forall>x \<in> set ts. task_origin wc ms w0 x)"
proof (induction ms arbitrary: w ts rule: rev_induct)
  case Nil
  with assms show ?case by (simp add: run_schedule_def)
next
  case (snoc m ms)
  obtain now mv where m: "m = (now, mv)" by force
  obtain w1 ts1 where run: "run_schedule wc ms w0 = (w1, ts1)" by force
  from snoc.IH [OF run] have w1: "wf (api w1)" "\<forall>s \<in> set (sessions (api w1)). spec_requested wc (ms @ [m]) w0 (bs_spec s)"
    and ts1: "\<forall>x \<in> set ts1. task_origin wc (ms @ [m]) w0 x"
    using spec_requested_extend task_origin_extend by blast+
  let ?J = "\<lambda>w. wf (api w) \<and> (\<forall>s \<in> set (sessions (api w)). spec_requested wc (ms @ [m]) w0 (bs_spec s))"
  have "?J w \<and> (\<forall>x \<in> set ts. task_origin wc (ms @ [m]) w0 x)"
  proof (rule move_inv [where J = ?J and P = "\<lambda>_. task_origin wc (ms @ [m]) w0"])
    show "make_move wc (now, mv) (w1, ts1) = (w, ts)" using snoc.prems run m by simp
    show "?J w1" "\<forall>x \<in> set ts1. task_origin wc (ms @ [m]) w0 x" using w1 ts1 by simp_all
    show "task_origin wc (ms @ [m]) w0 x" if "mv = Arrive a" "x \<in> set (start wc now a w1)" for a x
      using start_origin [OF run that(2)] m that(1) by simp
    show "?J w2 \<and> (\<forall>y \<in> set ys. task_origin wc (ms @ [m]) w0 y) \<and> (\<forall>y \<in> set ts1. task_origin wc (ms @ [m]) w0 y)"
      if x: "x \<in> set ts1" "advance wc now x w1 = (w2, ys)" for x w2 ys
    proof -
      note step = advance_specs [OF assms(1) w1(1) x(2)]
      have "task_origin wc (ms @ [m]) w0 y" if "y \<in> set ys" for y
        using step that by (intro task_origin_other) simp
      moreover have "spec_requested wc (ms @ [m]) w0 (bs_spec s)" if "s \<in> set (sessions (api w2))" for s
      proof (cases "bs_spec s \<in> bs_spec ` set (sessions (api w1))")
        case True
        with w1(2) show ?thesis by fastforce
      next
        case False
        with that step obtain c request plan where "x = Create c request plan"
          "bs_spec s = bs_spec (new_session request plan)" by blast
        with ts1 x(1) show ?thesis unfolding spec_requested_def by (metis task_origin.simps(1))
      qed
      ultimately show ?thesis using step ts1 by simp
    qed
  qed
  then show ?case by blast
qed

end

subsection \<open>Properties\<close>



end
