(* ===== verification/Revocation.thy ===== *)
theory Revocation
  imports ConcurrencySpec SessionOrigin
begin

text \<open>
  Ending a session is final.  Once a rejection, withdrawal, drop or cancellation has been stored, no task that was
  in flight at that time and no later call can bring the session back: copies that were read before carry
  a version that is no longer stored, and copies that are read later show a session that is closed off.
\<close>

subsection \<open>Closed sessions\<close>

definition closed_off :: "instant \<Rightarrow> BreakglassSessionStatus \<Rightarrow> bool" where
  "closed_off now st \<longleftrightarrow> phase_of (State st) = Closed \<and> (RejectedAt st \<noteq> 0 \<or> ExpiresAt st \<noteq> 0 \<and> ExpiresAt st < now)"

lemma closed_off_mono: "closed_off t st \<Longrightarrow> t \<le> t' \<Longrightarrow> closed_off t' st"
  by (auto simp: closed_off_def)

lemma closed_off_inactive: "closed_off now (bs_status s) \<Longrightarrow> \<not> IsSessionActive now s \<and> \<not> live now s"
  by (auto simp: closed_off_def session_predicate_defs live_def IsZero_def After_def)

lemma closed_off_state:
  assumes "closed_off now (wire_status st)" "phase_of (State st') = Closed" "RejectedAt st' = RejectedAt st"
    "ExpiresAt st' = ExpiresAt st"
  shows "closed_off now (wire_status st')"
  using assms by (simp add: closed_off_def)

text \<open>Every action but the approval closes the session that it is permitted on.\<close>

lemma action_closes:
  assumes "action_permitted wc c act bs w" "\<And>reason. act \<noteq> Approve reason"
  shows "phase_of (State (action_status now email act bs)) = Closed \<and> RejectedAt (action_status now email act bs) = now"
  using assms by (cases act) (auto simp: status_defs Let_def)

lemma approval_needs_pending:
  "action_permitted wc c (Approve reason) bs w \<Longrightarrow> phase_of (State (bs_status bs)) = Waiting"
  by simp

abbreviation wired :: "BreakglassSession \<Rightarrow> bool" where
  "wired s \<equiv> wire_status (bs_status s) = bs_status s"

context versioned_sessions
begin

subsection \<open>What a write keeps\<close>

abbreviation all_wired :: "'a world \<Rightarrow> bool" where
  "all_wired w \<equiv> wf (api w) \<and> (\<forall>s \<in> set (sessions (api w)). wired s)"

lemma put_later:
  assumes "wf (api w)" "UpdateBreakglassSessionStatus cl s w = (w', r)"
  shows "later (api w) (api w')"
proof -
  obtain x where "update_session_status cl s (api w) = (api w', x)"
    using assms(2) by (auto simp: UpdateBreakglassSessionStatus_def split: prod.splits option.splits)
  from status_issues [OF assms(1) this] show ?thesis by (simp add: later_def)
qed

lemma plain_status:
  assumes "wf (api w)" "UpdateBreakglassSession cl s w = (w', r)" "y \<in> set (sessions (api w'))"
  obtains z where "z \<in> set (sessions (api w))" "session_key z = session_key y" "bs_status z = bs_status y"
proof -
  obtain a x where u: "update_session cl s (api w) = (a, x)" by force
  have a: "api w' = a" using assms(2) u by (auto simp: UpdateBreakglassSession_def split: option.splits)
  have "map session_payload (sessions a) = map session_payload (sessions (api w))"
    using update_None [of "api w" s a] update_Some [of "api w" s a] u assms(1) by (cases x) auto
  then have "session_payload y \<in> session_payload ` set (sessions (api w))"
    using assms(3) a by (metis imageI list.set_map)
  then obtain z where "z \<in> set (sessions (api w))" "session_payload z = session_payload y" by auto
  with that show thesis by (auto simp: session_payload_def)
qed

lemma writes_keep:
  assumes "writes cl w w'" "all_wired w"
  shows "all_wired w' \<and> later (api w) (api w')"
  using assms(1)
proof induction
  case none
  with assms(2) show ?case by simp
next
  case (status w1 s w2 r)
  from put_later [OF _ status.hyps(2)] status.IH have l: "later (api w) (api w2)" using later_trans by blast
  show ?case
  proof (cases r)
    case None
    with status repo.put_None [of w1 s w2] have w2: "wf (api w2)" "status_written (sessions (api w1)) s (sessions (api w2))"
      by simp_all
    have "wired y" if y: "y \<in> set (sessions (api w2))" for y
    proof (cases "session_key y = session_key s")
      case True
      with w2(2) y have "bs_status y = wire_status (bs_status s)" unfolding status_written_def by blast
      then show ?thesis by simp
    next
      case False
      with w2(2) y have "y \<in> set (sessions (api w1))" unfolding status_written_def by blast
      with status.IH show ?thesis by blast
    qed
    with w2(1) l show ?thesis by blast
  next
    case (Some e)
    with status repo.put_Some [of w1 s w2 e] l show ?thesis by simp
  qed
next
  case (plain w1 s w2 r)
  obtain a x where u: "update_session cl s (api w1) = (a, x)" by force
  have a: "api w2 = a" using plain.hyps(2) u by (auto simp: UpdateBreakglassSession_def split: option.splits)
  have "wf a" using update_None [of "api w1" s a] update_Some [of "api w1" s a] u plain.IH by (cases x) auto
  moreover have "later (api w1) a" using update_issues [OF _ u] plain.IH by (simp add: later_def)
  moreover have "wired y" if "y \<in> set (sessions (api w2))" for y
    using plain_status [OF _ plain.hyps(2) that] plain.IH by metis
  ultimately show ?case using a plain.IH later_trans by blast
next
  case (delete w1 s w2 r)
  obtain a x where d: "delete_session cl s (api w1) = (a, x)" by force
  have a: "api w2 = a" using delete.hyps(2) d by (auto simp: DeleteBreakglassSession_def split: option.splits)
  have "wf (api w2) \<and> set (sessions (api w2)) \<subseteq> set (sessions (api w1))"
    using delete repo.remove_None [of w1 s w2] repo.remove_Some [of w1 s w2] by (cases r) auto
  moreover have "issued (api w1) \<subseteq> issued a" using delete_issues [OF _ d] delete.IH by blast
  ultimately have "wf (api w2)" "later (api w1) (api w2)" "set (sessions (api w2)) \<subseteq> set (sessions (api w1))"
    using a by (auto simp: later_def)
  with delete.IH later_trans show ?case by blast
next
  case (effect w1 w2)
  then show ?case by simp
qed

lemma advance_keeps:
  assumes "wc_client wc = cl" "all_wired w" "advance wc now x w = (w', ys)"
  shows "all_wired w' \<and> later (api w) (api w')"
proof (cases "\<exists>c request plan. x = Create c request plan")
  case True
  then obtain c request plan where x: "x = Create c request plan" by blast
  obtain w1 r where add: "AddBreakglassSession cl (new_session request plan) w = (w1, r)" by force
  obtain a e where cr: "create_session cl (new_session request plan) (api w) = (a, e)" by force
  have "api w1 = a" using add cr by (auto simp: AddBreakglassSession_def split: option.splits)
  with create_issues [OF _ cr] assms(2) have "later (api w) (api w1)" by (simp add: later_def)
  moreover have "all_wired w1" using add_session_effect [OF _ add] assms(2) by (auto split: if_splits)
  moreover have "w' = w1" using assms(1,3) x add by (auto split: option.splits)
  ultimately show ?thesis by blast
next
  case False
  then have "\<And>c request plan. x \<noteq> Create c request plan" by blast
  from advance_writes [OF this assms(3)] have "writes cl w w'" by (simp add: assms(1))
  from writes_keep [OF this assms(2)] show ?thesis .
qed

subsection \<open>Outdated copies\<close>

text \<open>A copy is outdated when its version has been given out and nobody stored under its key carries it any more.  It
  can not be written, and it stays outdated.\<close>

definition outdated :: "'a \<Rightarrow> BreakglassSession \<Rightarrow> bool" where
  "outdated a s \<longleftrightarrow> ResourceVersion (bs_meta s) \<in> issued a \<and>
     (\<forall>x \<in> set (sessions a). session_key x = session_key s \<longrightarrow> ResourceVersion (bs_meta x) \<noteq> ResourceVersion (bs_meta s))"

lemma outdated_later: "outdated a s \<Longrightarrow> later a a' \<Longrightarrow> outdated a' s"
  by (auto simp: outdated_def later_def)

lemma outdated_status [simp]: "outdated a (s\<lparr>bs_status := st\<rparr>) = outdated a s"
  by (simp add: outdated_def)

lemma outdated_refused: "wf (api w) \<Longrightarrow> outdated (api w) s \<Longrightarrow> UpdateBreakglassSessionStatus cl s w \<noteq> (w', None)"
proof
  assume "wf (api w)" "outdated (api w) s" "UpdateBreakglassSessionStatus cl s w = (w', None)"
  with repo.put_None [of w s w'] obtain x where "x \<in> set (sessions (api w))" "session_key x = session_key s"
    "ResourceVersion (bs_meta x) = ResourceVersion (bs_meta s)" unfolding status_written_def by blast
  with \<open>outdated (api w) s\<close> show False unfolding outdated_def by blast
qed

text \<open>After a successful write, every copy of that session that was in flight is outdated.\<close>

lemma write_outdates:
  assumes "wf (api w)" "UpdateBreakglassSessionStatus cl s w = (w', None)"
    and "session_key x = session_key s" "ResourceVersion (bs_meta x) \<in> issued (api w)"
  shows "outdated (api w') x"
proof -
  have upd: "update_session_status cl s (api w) = (api w', None)"
    using assms(2) by (auto simp: UpdateBreakglassSessionStatus_def split: prod.splits option.splits)
  from status_None [OF assms(1) upd] obtain old v
    where old: "old \<in> set (sessions (api w))" "session_key old = session_key s" "v \<noteq> ResourceVersion (bs_meta old)"
    and w': "sessions (api w') = map (\<lambda>x. if session_key x = session_key s
             then x\<lparr>bs_status := wire_status (bs_status s),
                    bs_meta := (bs_meta x)\<lparr>ResourceVersion := v\<rparr>\<rparr> else x) (sessions (api w))" by blast
  have "ResourceVersion (bs_meta y) \<notin> issued (api w)" if y: "y \<in> set (sessions (api w'))" "session_key y = session_key s" for y
  proof
    assume "ResourceVersion (bs_meta y) \<in> issued (api w)"
    with put_later [OF assms(1,2)] y(1) have "y \<in> set (sessions (api w))" unfolding later_def by blast
    with stored_unique [OF assms(1) _ old(1)] y(2) old(2) have "y = old" by simp
    moreover have "ResourceVersion (bs_meta y) = v" using y unfolding w' by (auto simp: session_key_def split: if_splits)
    ultimately show False using old(3) by simp
  qed
  with assms(3,4) have "ResourceVersion (bs_meta y) \<noteq> ResourceVersion (bs_meta x)"
    if "y \<in> set (sessions (api w'))" "session_key y = session_key x" for y using that by metis
  with put_later [OF assms(1,2)] assms(4) show ?thesis by (auto simp: outdated_def later_def)
qed

subsection \<open>Tasks in flight\<close>

text \<open>What every task carries: the versions of its copies have been given out.\<close>

fun known :: "'a \<Rightarrow> task \<Rightarrow> bool" where
  "known a (Decide bs st) \<longleftrightarrow> ResourceVersion (bs_meta bs) \<in> issued a \<and>
     (State st \<noteq> SessionStateApproved \<longrightarrow> phase_of (State st) = Closed \<and> RejectedAt (wire_status st) \<noteq> 0)"
| "known a (Submit c plan bs) \<longleftrightarrow> ResourceVersion (bs_meta bs) \<in> issued a \<or> Namespace (bs_meta bs) = []"
| "known a (TimeOut s) \<longleftrightarrow> ResourceVersion (bs_meta s) \<in> issued a"
| "known a (Expire s) \<longleftrightarrow> ResourceVersion (bs_meta s) \<in> issued a \<and> wired s"
| "known a (Retry n s) \<longleftrightarrow> ResourceVersion (bs_meta s) \<in> issued a \<and> phase_of (State (bs_status s)) = Closed"
| "known a _ \<longleftrightarrow> True"

text \<open>What it must not do to the closed session \<open>k\<close>.\<close>

definition harmless :: "object_key \<Rightarrow> instant \<Rightarrow> 'a \<Rightarrow> BreakglassSession \<Rightarrow> bool" where
  "harmless k now a s \<longleftrightarrow> (session_key s = k \<longrightarrow> outdated a s \<or> closed_off now (wire_status (bs_status s)))"

fun task_harmless :: "object_key \<Rightarrow> instant \<Rightarrow> 'a \<Rightarrow> task \<Rightarrow> bool" where
  "task_harmless k now a (Decide bs st) \<longleftrightarrow> harmless k now a (bs\<lparr>bs_status := st\<rparr>)"
| "task_harmless k now a (Submit c plan bs) \<longleftrightarrow> harmless k now a bs"
| "task_harmless k now a (TimeOut s) \<longleftrightarrow> harmless k now a s"
| "task_harmless k now a (Expire s) \<longleftrightarrow> wired s"
| "task_harmless k now a (Retry n s) \<longleftrightarrow> harmless k now a s \<and> phase_of (State (bs_status s)) = Closed"
| "task_harmless k now a _ \<longleftrightarrow> True"

lemma known_later: "known a x \<Longrightarrow> later a a' \<Longrightarrow> known a' x"
  by (cases x) (auto simp: later_def)

lemma harmless_later: "harmless k t a s \<Longrightarrow> later a a' \<Longrightarrow> t \<le> t' \<Longrightarrow> harmless k t' a' s"
  by (auto simp: harmless_def intro: outdated_later closed_off_mono)

lemma task_harmless_later: "task_harmless k t a x \<Longrightarrow> later a a' \<Longrightarrow> t \<le> t' \<Longrightarrow> task_harmless k t' a' x"
  by (cases x) (auto intro: harmless_later)

lemma started_copy:
  assumes "wc_client wc = cl" "wf (api w)" "x \<in> set (start wc now a w)"
  obtains (decide) c name act bs where "a = ActionArrives c name act" "bs \<in> set (sessions (api w))" "action_permitted wc c act bs w"
      "x = Decide bs (action_status now (ctx_email c) act bs)"
  | (create) c request plan where "x = Create c request plan"
  | (timeout) s where "s \<in> set (sessions (api w))" "x = TimeOut s"
  | (expire) s where "s \<in> set (sessions (api w))" "x = Expire s"
  | (remove) s where "x = Remove s"
proof (cases a)
  case (ActionArrives c name act)
  with assms(1,3) obtain bs where bs: "GetBreakglassSessionByName cl name w = Inr bs" "action_permitted wc c act bs w"
    "x = Decide bs (action_status now (ctx_email c) act bs)" by (auto split: sum.splits if_splits)
  with by_name_stored [OF assms(2) bs(1)] ActionArrives show thesis by (intro decide)
next
  case TimeOutScan
  with assms(1,3) repo.all_sessions_Inr [of w] show thesis
    by (cases "GetAllBreakglassSessions cl w") (auto intro: timeout)
next
  case ExpireScan
  with assms(1,3) repo.all_sessions_Inr [of w] show thesis
    by (cases "GetAllBreakglassSessions cl w") (auto intro: expire)
qed (use assms(3) create remove in \<open>auto split: sum.splits if_splits\<close>)

lemma start_known:
  assumes "wc_client wc = cl" "all_wired w" "Second \<le> now" "x \<in> set (start wc now a w)"
  shows "known (api w) x"
  using assms(1) conjunct1 [OF assms(2)] assms(4)
proof (cases rule: started_copy)
  case (decide c name act bs)
  have "phase_of (State (action_status now (ctx_email c) act bs)) = Closed \<and>
      RejectedAt (wire_status (action_status now (ctx_email c) act bs)) \<noteq> 0" if "\<And>reason. act \<noteq> Approve reason"
    using action_closes [OF decide(3) that] wire_time_pos [OF assms(3)] by simp
  moreover have "State (action_status now (ctx_email c) (Approve reason) bs) = SessionStateApproved" for reason
    by (simp add: status_defs Let_def)
  ultimately show ?thesis using decide stored_issued [OF _ decide(2)] assms(2) by (cases act) auto
qed (use assms(2) stored_issued in auto)

lemma advance_known:
  assumes "wc_client wc = cl" "all_wired w" "known (api w) x" "advance wc now x w = (w', ys)" "y \<in> set ys"
  shows "known (api w') y"
proof (cases x)
  case (Create c request plan)
  with assms(4,5) show ?thesis by (auto split: prod.splits option.splits)
next
  case (Finish c request plan)
  with assms(4,5) increment_request_count_cases [of wc "pl_matched plan" w] consider
      "y = Submit c plan (submitted now c plan zero_session)"
    | bs where "y = Submit c plan (submitted now c plan bs)" "w' = w"
        "getActiveBreakglassSession now cl (rq_Username request) (rq_Clustername request) (rq_GroupName request) w = Inr bs"
    by (auto simp: assms(1) split: sum.splits if_splits)
  then show ?thesis
  proof cases
    case 1
    then show ?thesis by (simp add: submitted_def zero_session_def zero_meta_def)
  next
    case 2
    with active_stored [OF 2(3)] stored_issued [of "api w" bs] assms(2) show ?thesis by (simp add: submitted_def)
  qed
next
  case (Submit c plan bs)
  with assms(4,5) show ?thesis by (auto split: prod.splits option.splits)
next
  case (Expire s)
  have "phase_of (State (expire_status now s)) = Closed" by (simp add: expire_status_def)
  moreover have "ResourceVersion (bs_meta b) \<in> issued (api w)"
    if "GetBreakglassSessionByName cl (Name (bs_meta s)) w = Inr b" for b
    using by_name_stored [OF _ that] stored_issued assms(2) by blast
  ultimately show ?thesis using Expire assms(1,3-5) by (auto split: if_splits sum.splits)
next
  case (Retry n s)
  from advance_keeps [OF assms(1,2,4)] have w': "all_wired w'" "later (api w) (api w')" by blast+
  have "ResourceVersion (bs_meta b) \<in> issued (api w')"
    if "GetBreakglassSessionByName cl (Name (bs_meta s)) w' = Inr b" for b
    using by_name_stored [OF _ that] stored_issued w'(1) by blast
  moreover have "ResourceVersion (bs_meta s) \<in> issued (api w')" "phase_of (State (bs_status s)) = Closed"
    using assms(3) Retry w'(2) by (auto simp: later_def)
  ultimately show ?thesis using Retry assms(1,4,5)
    by (cases n) (auto split: prod.splits option.splits sum.splits)
qed (use assms(4,5) in auto)

lemma schedule_known:
  assumes "wc_client wc = cl"
  shows "all_wired w1 \<Longrightarrow> \<forall>x \<in> set ts1. known (api w1) x \<Longrightarrow> Second \<le> t \<Longrightarrow> in_order t ms \<Longrightarrow>
    fold (make_move wc) ms (w1, ts1) = (w2, ts2) \<Longrightarrow> all_wired w2 \<and> (\<forall>x \<in> set ts2. known (api w2) x)"
proof (induction ms arbitrary: t w1 ts1)
  case Nil
  then show ?case by simp
next
  case (Cons m ms)
  obtain now mv where m: "m = (now, mv)" by force
  obtain w ts where move: "make_move wc (now, mv) (w1, ts1) = (w, ts)" by force
  have now: "Second \<le> now" "in_order now ms" using Cons.prems(3,4) m by simp_all
  have w: "all_wired w \<and> (\<forall>x \<in> set ts. known (api w) x)"
  proof (rule move_inv [where P = "\<lambda>w. known (api w)", OF move])
    show "all_wired w1" "\<forall>x \<in> set ts1. known (api w1) x" using Cons.prems(1,2) by blast+
    show "known (api w1) x" if "x \<in> set (start wc now a w1)" for a x
      by (rule start_known [OF assms Cons.prems(1) now(1) that])
    show "all_wired w2 \<and> (\<forall>y \<in> set ys. known (api w2) y) \<and> (\<forall>y \<in> set ts1. known (api w2) y)"
      if "x \<in> set ts1" "advance wc now x w1 = (w2, ys)" for x w2 ys
      using advance_keeps [OF assms Cons.prems(1) that(2)] advance_known [OF assms Cons.prems(1) _ that(2)]
        Cons.prems(2) that(1) known_later by blast
  qed
  have "fold (make_move wc) ms (w, ts) = (w2, ts2)" using Cons.prems(5) m move by simp
  from Cons.IH [OF conjunct1 [OF w] conjunct2 [OF w] now this] show ?case .
qed

subsection \<open>Nothing reopens a closed session\<close>

abbreviation settled :: "object_key \<Rightarrow> instant \<Rightarrow> 'a world \<Rightarrow> bool" where
  "settled k now w \<equiv> all_wired w \<and> (\<forall>s \<in> set (sessions (api w)). session_key s = k \<longrightarrow> closed_off now (bs_status s))"

lemma settled_mono: "settled k t w \<Longrightarrow> t \<le> t' \<Longrightarrow> settled k t' w"
  using closed_off_mono by blast

lemma put_settled:
  assumes "settled k now w" "harmless k now (api w) s" "UpdateBreakglassSessionStatus cl s w = (w', r)"
  shows "settled k now w'"
proof -
  have "writes cl w w'" by (rule writes.status [OF writes.none assms(3)])
  from writes_keep [OF this] assms(1) have wired: "all_wired w'" by blast
  have "closed_off now (bs_status y)" if y: "y \<in> set (sessions (api w'))" "session_key y = k" for y
  proof (cases r)
    case (Some e)
    with repo.put_Some [of w s w' e] assms(1,3) y show ?thesis by simp
  next
    case None
    with repo.put_None [of w s w'] assms(1,3) have w': "status_written (sessions (api w)) s (sessions (api w'))" by simp
    show ?thesis
    proof (cases "session_key s = k")
      case True
      with outdated_refused [of w s w'] assms None have "closed_off now (wire_status (bs_status s))"
        by (auto simp: harmless_def)
      moreover have "session_key y = session_key s" using y(2) True by simp
      with w' y(1) have "bs_status y = wire_status (bs_status s)" unfolding status_written_def by blast
      ultimately show ?thesis by simp
    next
      case False
      with w' y have "y \<in> set (sessions (api w))" unfolding status_written_def by simp
      with assms(1) y(2) show ?thesis by blast
    qed
  qed
  with wired show ?thesis by blast
qed

lemma plain_settled:
  assumes "settled k now w" "UpdateBreakglassSession cl s w = (w', r)"
  shows "settled k now w'"
proof -
  have "writes cl w w'" by (rule writes.plain [OF writes.none assms(2)])
  from writes_keep [OF this] assms(1) have "all_wired w'" by blast
  moreover have "closed_off now (bs_status y)" if "y \<in> set (sessions (api w'))" "session_key y = k" for y
    using plain_status [OF _ assms(2) that(1)] assms(1) that(2) by metis
  ultimately show ?thesis by blast
qed

lemma not_created_again:
  assumes "settled k now w" "k \<in> session_key ` set (sessions (api w))" "AddBreakglassSession cl s w = (w', r)"
    and "all_wired w'"
  shows "settled k now w'"
proof -
  have "sessions (api w') = sessions (api w) \<or> (\<exists>m. sessions (api w') = sessions (api w) @ [s\<lparr>bs_meta := m, bs_status := zero_status\<rparr>])"
    using add_session_effect [OF _ assms(3)] assms(1) by (auto split: if_splits)
  then show ?thesis
  proof
    assume "sessions (api w') = sessions (api w)"
    with assms(1,4) show ?thesis by simp
  next
    assume "\<exists>m. sessions (api w') = sessions (api w) @ [s\<lparr>bs_meta := m, bs_status := zero_status\<rparr>]"
    then obtain m where m: "sessions (api w') = sessions (api w) @ [s\<lparr>bs_meta := m, bs_status := zero_status\<rparr>]" by blast
    with keys_distinct [of "api w'"] assms(2,4) have "session_key (s\<lparr>bs_meta := m, bs_status := zero_status\<rparr>) \<noteq> k" by auto
    with m assms(1,4) show ?thesis by auto
  qed
qed

lemma start_harmless:
  assumes "wc_client wc = cl" "settled k now w" "Second \<le> now" "x \<in> set (start wc now a w)"
  shows "task_harmless k now (api w) x"
proof -
  have copy: "harmless k now (api w) s" if "s \<in> set (sessions (api w))" for s
    using assms(2) that by (auto simp: harmless_def)
  have wf: "wf (api w)" using assms(2) by blast
  from assms(1) wf assms(4) show ?thesis
  proof (cases rule: started_copy)
    case (decide c name act bs)
    let ?st = "action_status now (ctx_email c) act bs"
    have "closed_off now (wire_status ?st)" if k: "session_key bs = k"
    proof -
      have closed: "phase_of (State (bs_status bs)) = Closed" using assms(2) decide(2) k by (auto simp: closed_off_def)
      have "act \<noteq> Approve reason" for reason using decide(3) closed by auto
      from action_closes [OF decide(3) this] wire_time_pos [OF assms(3)] show ?thesis by (simp add: closed_off_def)
    qed
    with decide(4) show ?thesis by (simp add: harmless_def)
  qed (use assms(2) copy in auto)
qed

lemma advance_harmless:
  assumes "wc_client wc = cl" "settled k now w" "k \<in> session_key ` set (sessions (api w))"
    and "task_harmless k now (api w) x" "advance wc now x w = (w', ys)"
  shows "settled k now w' \<and> (\<forall>y \<in> set ys. task_harmless k now (api w') y)"
proof -
  have keep: "all_wired w'" "later (api w) (api w')"
    using advance_keeps [OF assms(1) _ assms(5)] assms(2) by blast+
  show ?thesis
  proof (cases x)
    case (Create c request plan)
    obtain w1 r where add: "AddBreakglassSession cl (new_session request plan) w = (w1, r)" by force
    with assms(1,5) Create have "w' = w1" "\<forall>y \<in> set ys. task_harmless k now (api w') y" by (auto split: option.splits)
    with not_created_again [OF assms(2,3) add] keep(1) show ?thesis by blast
  next
    case (Decide bs st)
    obtain w1 r where u: "UpdateBreakglassSessionStatus cl (bs\<lparr>bs_status := st\<rparr>) w = (w1, r)" by force
    have "w' = w1" "ys = []" using assms(1,5) Decide u by (auto simp: persist_session_def split: option.splits)
    with put_settled [OF assms(2) _ u] assms(4) Decide show ?thesis by simp
  next
    case (Finish c request plan)
    obtain s where s: "s \<in> set (sessions (api w))" "session_key s = k" using assms(3) by blast
    with stored_names [OF _ s(1)] assms(2) have zero: "session_key zero_session \<noteq> k"
      by (auto simp: session_key_def zero_session_def zero_meta_def)
    have "session_key bs \<noteq> k"
      if "getActiveBreakglassSession now cl (rq_Username request) (rq_Clustername request) (rq_GroupName request) w = Inr bs" for bs
      using active_stored [OF that] assms(2) closed_off_inactive by blast
    with zero Finish assms(1,2,5) increment_request_count_cases [of wc "pl_matched plan" w] show ?thesis
      by (auto simp: harmless_def submitted_def split: sum.splits if_splits)
  next
    case (Submit c plan bs)
    obtain w1 r where u: "UpdateBreakglassSessionStatus cl bs w = (w1, r)" by force
    have "settled k now w1" using put_settled [OF assms(2) _ u] assms(4) Submit by simp
    with u assms(1,5) Submit show ?thesis by (auto split: option.splits)
  next
    case (TimeOut s)
    obtain w1 r where u: "UpdateBreakglassSessionStatus cl (s\<lparr>bs_status := timeout_status now s\<rparr>) w = (w1, r)" by force
    have "harmless k now (api w) (s\<lparr>bs_status := timeout_status now s\<rparr>)"
      using assms(4) TimeOut by (auto simp: harmless_def timeout_status_def closed_off_def)
    from put_settled [OF assms(2) this u] u assms(1,2,5) TimeOut show ?thesis
      by (auto simp: expire_pending_one_def split: option.splits if_splits)
  next
    case (Expire s)
    have "closed_off now (wire_status (expire_status now s))" if "IsSessionExpired now s"
    proof -
      have "wire_time (ExpiresAt (bs_status s)) = ExpiresAt (bs_status s)"
        using assms(4) Expire wire_status_sel [of "bs_status s"] by simp
      with that show ?thesis by (simp add: closed_off_def expire_status_def session_predicate_defs IsZero_def After_def)
    qed
    moreover have "phase_of (State (expire_status now s)) = Closed" by (simp add: expire_status_def)
    ultimately show ?thesis using Expire assms(1,2,5) by (auto simp: harmless_def split: if_splits sum.splits)
  next
    case (Retry n s)
    have s: "harmless k now (api w) s" "phase_of (State (bs_status s)) = Closed" using assms(4) Retry by simp_all
    show ?thesis
    proof (cases n)
      case 0
      with plain_settled [OF assms(2) surjective_pairing, of s] assms(1,5) Retry show ?thesis by simp
    next
      case (Suc m)
      obtain w1 r where u: "UpdateBreakglassSessionStatus cl s w = (w1, r)" by force
      note w1 = put_settled [OF assms(2) s(1) u]
      have "harmless k now (api w1) (b\<lparr>bs_status := (bs_status b)\<lparr>State := State (bs_status s), Conditions := Conditions (bs_status s),
          ReasonEnded := ReasonEnded (bs_status s)\<rparr>\<rparr>)"
        if b: "GetBreakglassSessionByName cl (Name (bs_meta s)) w1 = Inr b" for b
      proof -
        have "b \<in> set (sessions (api w1))" using by_name_stored [OF _ b] w1 by blast
        with w1 have "closed_off now (wire_status (bs_status b))" if "session_key b = k" using that by simp
        from closed_off_state [OF this, of "(bs_status b)\<lparr>State := State (bs_status s), Conditions := Conditions (bs_status s),
            ReasonEnded := ReasonEnded (bs_status s)\<rparr>"] s(2) show ?thesis by (simp add: harmless_def)
      qed
      moreover have "harmless k now (api w') s" using harmless_later [OF s(1) keep(2)] by simp
      ultimately show ?thesis using w1 s(2) u assms(1,5) Retry Suc by (auto split: option.splits sum.splits)
    qed
  next
    case (Remove s)
    have "set (sessions (api w')) \<subseteq> set (sessions (api w))"
    proof (cases "cleanup_due now s")
      case True
      obtain w1 n where one: "cleanup_one now cl s (w, 0) = (w1, n)" by force
      with cleanup_one_due [OF _ True one] assms(1,2,5) Remove show ?thesis by auto
    next
      case False
      with assms(1,5) Remove show ?thesis by (simp add: cleanup_one_not_due)
    qed
    with keep(1) assms(2,5) Remove show ?thesis by auto
  qed
qed

lemma schedule_settled:
  assumes "wc_client wc = cl"
  shows "settled k t w1 \<Longrightarrow> \<forall>x \<in> set ts1. task_harmless k t (api w1) x \<Longrightarrow> Second \<le> t \<Longrightarrow> in_order t ms \<Longrightarrow>
    (\<And>n. k \<in> session_key ` set (sessions (api (fst (fold (make_move wc) (take n ms) (w1, ts1)))))) \<Longrightarrow>
    fold (make_move wc) ms (w1, ts1) = (w2, ts2) \<Longrightarrow> settled k (last_time t ms) w2"
proof (induction ms arbitrary: t w1 ts1)
  case Nil
  then show ?case by simp
next
  case (Cons m ms)
  obtain now mv where m: "m = (now, mv)" by force
  obtain w ts where move: "make_move wc (now, mv) (w1, ts1) = (w, ts)" by force
  have now: "Second \<le> now" "in_order now ms" "t \<le> now" using Cons.prems(3,4) m by simp_all
  have k: "k \<in> session_key ` set (sessions (api w1))" using Cons.prems(5) [of 0] by simp
  note w1 = settled_mono [OF Cons.prems(1) now(3)]
  have ts1: "\<forall>x \<in> set ts1. task_harmless k now (api w1) x"
    using Cons.prems(2) task_harmless_later [OF _ later_refl now(3)] by blast
  have w: "settled k now w \<and> (\<forall>x \<in> set ts. task_harmless k now (api w) x)"
  proof (rule move_inv [where J = "settled k now" and P = "\<lambda>w. task_harmless k now (api w)", OF move w1 ts1])
    show "task_harmless k now (api w1) x" if "x \<in> set (start wc now a w1)" for a x
      by (rule start_harmless [OF assms w1 now(1) that])
    show "settled k now w2 \<and> (\<forall>y \<in> set ys. task_harmless k now (api w2) y) \<and> (\<forall>y \<in> set ts1. task_harmless k now (api w2) y)"
      if x: "x \<in> set ts1" "advance wc now x w1 = (w2, ys)" for x w2 ys
    proof -
      have "later (api w1) (api w2)" using advance_keeps [OF assms conjunct1 [OF w1] x(2)] by blast
      with ts1 have "\<forall>y \<in> set ts1. task_harmless k now (api w2) y" using task_harmless_later by blast
      with advance_harmless [OF assms w1 k _ x(2)] ts1 x(1) show ?thesis by blast
    qed
  qed
  have "k \<in> session_key ` set (sessions (api (fst (fold (make_move wc) (take n ms) (w, ts)))))" for n
    using Cons.prems(5) [of "Suc n"] m move by simp
  moreover have "fold (make_move wc) ms (w, ts) = (w2, ts2)" using Cons.prems(6) m move by simp
  ultimately have "settled k (last_time now ms) w2"
    using Cons.IH [OF conjunct1 [OF w] conjunct2 [OF w] now(1,2)] by blast
  with m show ?case by simp
qed

text \<open>The moment of the revocation.\<close>

lemma write_settles:
  assumes "all_wired w" "\<forall>x \<in> set ts. known (api w) x" "UpdateBreakglassSessionStatus cl s w = (w', None)"
    and "closed_off now (wire_status (bs_status s))"
  shows "settled (session_key s) now w' \<and> (\<forall>x \<in> set ts. task_harmless (session_key s) now (api w') x)"
proof -
  have wf: "wf (api w)" using assms(1) by blast
  have w': "status_written (sessions (api w)) s (sessions (api w'))" using repo.put_None [OF wf assms(3)] by simp
  obtain old where "old \<in> set (sessions (api w))" "session_key old = session_key s"
    using w' unfolding status_written_def by blast
  with stored_names [OF wf] have named: "Namespace (bs_meta x) \<noteq> []" if "session_key x = session_key s" for x
    using that by (metis fst_conv session_key_def)
  have copy: "outdated (api w') x" if "session_key x = session_key s" "ResourceVersion (bs_meta x) \<in> issued (api w)" for x
    using write_outdates [OF wf assms(3) that] .
  have "writes cl w w'" by (rule writes.status [OF writes.none assms(3)])
  from writes_keep [OF this assms(1)] have "all_wired w'" by blast
  moreover have "closed_off now (bs_status y)" if "y \<in> set (sessions (api w'))" "session_key y = session_key s" for y
    using w' that assms(4) unfolding status_written_def by metis
  moreover have "task_harmless (session_key s) now (api w') x" if "x \<in> set ts" for x
    using bspec [OF assms(2) that] copy named by (cases x) (auto simp: harmless_def)
  ultimately show ?thesis by blast
qed

lemma revoked_stays_closed:
  assumes "wc_client wc = cl" "all_wired w0" "Second \<le> t" "in_order t (ms @ (at, Run i) # rest)"
    and "run_schedule wc ms w0 = (w, ts)" "i < length ts" "ts ! i = Decide bs st" "State st \<noteq> SessionStateApproved"
    and "status_code (fst (persist_session wc (bs\<lparr>bs_status := st\<rparr>) w)) = 200"
    and kept: "\<And>n. session_key bs \<in> session_key ` set (sessions (api (fst (run_schedule wc (ms @ (at, Run i) # take n rest) w0))))"
    and "run_schedule wc (ms @ (at, Run i) # rest) w0 = (w', ts')"
  shows "settled (session_key bs) (last_time at rest) w'"
proof -
  let ?s = "bs\<lparr>bs_status := st\<rparr>"
  have ord: "in_order t ms" "last_time t ms \<le> at" "in_order at rest" using assms(4) by (simp_all add: in_order_append)
  have pos: "Second \<le> at" using ord(1,2) assms(3) in_order_last by fastforce
  have "all_wired w \<and> (\<forall>x \<in> set ts. known (api w) x)"
    by (rule schedule_known [OF assms(1,2) _ assms(3) ord(1) assms(5) [unfolded run_schedule_def]]) simp
  then have w: "all_wired w" "\<forall>x \<in> set ts. known (api w) x" by blast+
  obtain w1 where u: "UpdateBreakglassSessionStatus cl ?s w = (w1, None)"
    using assms(1,9) by (metis persist_session_code prod.collapse)
  have move: "make_move wc (at, Run i) (w, ts) = (w1, without i ts)"
    using assms(1,6,7) u by (simp add: persist_session_def)
  have run: "run_schedule wc (ms @ (at, Run i) # xs) w0 = fold (make_move wc) xs (w1, without i ts)" for xs
    using assms(5) move by (simp add: run_schedule_def)
  have "closed_off at (wire_status (bs_status ?s))"
    using bspec [OF w(2) nth_mem [OF assms(6)]] assms(7,8) by (simp add: closed_off_def)
  with write_settles [OF w u] have "settled (session_key bs) at w1"
    "\<forall>x \<in> set (without i ts). task_harmless (session_key bs) at (api w1) x" using set_without [of i ts] by auto
  from schedule_settled [OF assms(1) this pos ord(3) kept [unfolded run] assms(11) [unfolded run]] show ?thesis .
qed

end

subsection \<open>Properties\<close>

text \<open>C3. Ending a session is final, under every interleaving.  Once a rejection, withdrawal, drop or cancellation has
  been answered 200, the session stays in a closed state for as long as it is stored, and the webhook never counts
  it again: neither tasks that read it before, approvals included, nor any later call, request or background
  task brings it back.\<close>

theorem revocation_final:
  assumes "versioned_sessions (wc_client wc) sessions ok issued" "ok (api w0)" "sessions (api w0) = []"
    and "Second \<le> t" "in_order t (ms @ (at, Run i) # rest)" "last_time t (ms @ (at, Run i) # rest) \<le> now"
    and "run_schedule wc ms w0 = (w, ts)" "i < length ts" "ts ! i = Decide bs st" "State st \<noteq> SessionStateApproved"
    and "status_code (fst (persist_session wc (bs\<lparr>bs_status := st\<rparr>) w)) = 200"
    and "\<forall>n. session_key bs \<in> session_key ` set (sessions (api (fst (run_schedule wc (ms @ (at, Run i) # take n rest) w0))))"
    and "run_schedule wc (ms @ (at, Run i) # rest) w0 = (w', ts')"
  shows "(\<forall>s \<in> set (sessions (api w')). session_key s = session_key bs \<longrightarrow> phase_of (State (bs_status s)) = Closed) \<and>
    (\<forall>u c ss. getSessions now (wc_client wc) u c w' = Inr ss \<longrightarrow> (\<forall>s \<in> set ss. session_key s \<noteq> session_key bs))"
proof -
  have "versioned_sessions.settled sessions ok (session_key bs) (last_time at rest) w'"
    by (rule versioned_sessions.revoked_stays_closed [OF assms(1) refl _ assms(4,5,7-11) _ assms(13)]) (use assms(2,3,12) in auto)
  with assms(6) have closed: "closed_off now (bs_status s)" if "s \<in> set (sessions (api w'))" "session_key s = session_key bs" for s
    using that by (auto intro: closed_off_mono)
  moreover have "session_key s \<noteq> session_key bs"
    if "getSessions now (wc_client wc) u c w' = Inr ss" "s \<in> set ss" for u c ss s
    using closed_off_inactive [OF closed] kube_sessions.getSessions_mem_iff [OF versioned_sessions.axioms(1) [OF assms(1)] that(1)]
      that(2) by blast
  ultimately show ?thesis by (auto simp: closed_off_def)
qed

text \<open>A rejection overtakes an approval that has passed its checks, while a timeout task is still in flight and the same
  user asks again.\<close>

definition before_rejection :: "(instant \<times> move) list" where
  "before_rejection = [(ex_now, Arrive (RequestArrives ex_dev (Some ex_request))), (ex_now, Run 0), (ex_now, Run 0), (ex_now, Run 0),
     (ex_now + Second, Arrive TimeOutScan),
     (ex_now + Minute, Arrive (ActionArrives ex_lead ''prod-admin-10'' (Approve ''ok''))),
     (ex_now + Minute, Arrive (ActionArrives ex_lead ''prod-admin-10'' (Reject ''no'')))]"

definition after_rejection :: "(instant \<times> move) list" where
  "after_rejection = [(ex_now + 2 * Minute, Run 1), (ex_now + 2 * Minute, Run 0),
     (ex_now + 3 * Minute, Arrive (ActionArrives ex_lead ''prod-admin-10'' (Approve ''ok''))),
     (ex_now + 3 * Minute, Arrive (RequestArrives ex_dev (Some ex_request))), (ex_now + 3 * Minute, Run 0),
     (ex_now + 3 * Minute, Run 0), (ex_now + 3 * Minute, Run 0)]"

lemma take_cases: "(\<forall>n. P (take n xs)) \<longleftrightarrow> list_all (\<lambda>n. P (take n xs)) [0..<Suc (length xs)]"
proof
  assume "list_all (\<lambda>n. P (take n xs)) [0..<Suc (length xs)]"
  then have all: "P (take n xs)" if "n \<le> length xs" for n using that by (auto simp: list_all_iff simp del: upt_Suc)
  show "\<forall>n. P (take n xs)"
  proof
    fix n show "P (take n xs)" using all [of n] all [of "length xs"] by (cases "n \<le> length xs") simp_all
  qed
qed (simp add: list_all_iff)

theorem revocation_final_witness:
  "session_states (run_schedule ex_wc (before_rejection @ (ex_now + Minute, Run 2) # after_rejection) (ex_world [])) =
     [(''prod-admin-10'', SessionStateRejected), (''prod-admin-13'', SessionStatePending)] \<and>
   (\<nexists>u c ss s. getSessions (ex_now + Hour) (wc_client ex_wc) u c
       (fst (run_schedule ex_wc (before_rejection @ (ex_now + Minute, Run 2) # after_rejection) (ex_world []))) = Inr ss \<and>
     s \<in> set ss \<and> session_key s = (''bg'', ''prod-admin-10''))"
proof (intro conjI)
  let ?empty = "ex_world []" and ?all = "before_rejection @ (ex_now + Minute, Run 2) # after_rejection"
  let ?w = "fst (run_schedule ex_wc before_rejection ?empty)" and ?ts = "snd (run_schedule ex_wc before_rejection ?empty)"
  let ?k = "(''bg'', ''prod-admin-10'')"
  show "session_states (run_schedule ex_wc ?all ?empty) =
     [(''prod-admin-10'', SessionStateRejected), (''prod-admin-13'', SessionStatePending)]" by code_simp
  have v: "versioned_sessions (wc_client ex_wc) m_sessions mem_wf (\<lambda>m. {v. v < m_next m})"
    using mem_versions.versioned_sessions_axioms by (simp add: ex_wc_def)
  have start: "mem_wf (api ?empty)" "m_sessions (api ?empty) = []" "Second \<le> ex_now" "in_order ex_now ?all"
    "last_time ex_now ?all \<le> ex_now + Hour" "2 < length ?ts" by code_simp+
  have "case ?ts ! 2 of Decide bs st \<Rightarrow> session_key bs = ?k \<and> State st \<noteq> SessionStateApproved \<and>
      status_code (fst (persist_session ex_wc (bs\<lparr>bs_status := st\<rparr>) ?w)) = 200 | _ \<Rightarrow> False" by code_simp
  then obtain bs st where bs: "?ts ! 2 = Decide bs st" "session_key bs = ?k" "State st \<noteq> SessionStateApproved"
    "status_code (fst (persist_session ex_wc (bs\<lparr>bs_status := st\<rparr>) ?w)) = 200" by (auto split: task.splits)
  have "list_all (\<lambda>n. List.member (map session_key (m_sessions (api (fst (run_schedule ex_wc
      (before_rejection @ (ex_now + Minute, Run 2) # take n after_rejection) ?empty))))) ?k) [0..<Suc (length after_rejection)]"
    by code_simp
  then have "\<forall>n. session_key bs \<in> session_key ` set (m_sessions (api (fst (run_schedule ex_wc
      (before_rejection @ (ex_now + Minute, Run 2) # take n after_rejection) ?empty))))"
    unfolding take_cases [of "\<lambda>xs. session_key bs \<in> session_key ` set (m_sessions (api (fst (run_schedule ex_wc
      (before_rejection @ (ex_now + Minute, Run 2) # xs) ?empty))))"] by (simp add: bs(2) list_all_iff)
  from revocation_final [OF v start(1-5) prod.collapse [symmetric] start(6) bs(1,3,4) this prod.collapse [symmetric]]
  show "\<nexists>u c ss s. getSessions (ex_now + Hour) (wc_client ex_wc) u c (fst (run_schedule ex_wc ?all ?empty)) = Inr ss \<and>
     s \<in> set ss \<and> session_key s = ?k" by (simp add: bs(2))
qed

end
