(* ===== verification/UniqueSession.thy ===== *)
theory UniqueSession
  imports Lifecycle
begin

text \<open>
  One session at a time: as long as events do not overlap, a user has at most one active session for a
  group on a cluster.  The request handler looks for an active session first, and no other operation makes a
  session active.  (\<open>racing_requests_undo_approval\<close> shows that overlapping requests break this.)
\<close>

subsection \<open>Active sessions\<close>

definition active_status :: "instant \<Rightarrow> BreakglassSessionStatus \<Rightarrow> bool" where
  "active_status now st \<longleftrightarrow> RejectedAt st = 0 \<and> \<not> (ExpiresAt st \<noteq> 0 \<and> ExpiresAt st < now)"

lemma active_iff: "IsSessionActive now s \<longleftrightarrow> active_status now (bs_status s)"
  by (auto simp: active_status_def session_predicate_defs IsZero_def After_def)

definition same_grant :: "BreakglassSession \<Rightarrow> BreakglassSession \<Rightarrow> bool" where
  "same_grant s t \<longleftrightarrow> Cluster (bs_spec s) = Cluster (bs_spec t) \<and> User (bs_spec s) = User (bs_spec t) \<and>
     GrantedGroup (bs_spec s) = GrantedGroup (bs_spec t)"

definition one_active :: "instant \<Rightarrow> BreakglassSession list \<Rightarrow> bool" where
  "one_active now xs \<longleftrightarrow> (\<forall>s \<in> set xs. \<forall>t \<in> set xs.
     IsSessionActive now s \<and> IsSessionActive now t \<and> same_grant s t \<longrightarrow> session_key s = session_key t)"

text \<open>Every active session was active before.\<close>

definition none_activated :: "instant \<Rightarrow> BreakglassSession list \<Rightarrow> BreakglassSession list \<Rightarrow> bool" where
  "none_activated now xs ys \<longleftrightarrow> (\<forall>y \<in> set ys. IsSessionActive now y \<longrightarrow>
     (\<exists>x \<in> set xs. session_key x = session_key y \<and> bs_spec x = bs_spec y \<and> IsSessionActive now x))"

lemma none_activated_refl [simp]: "none_activated now xs xs"
  by (auto simp: none_activated_def)

lemma none_activated_trans: "none_activated now xs ys \<Longrightarrow> none_activated now ys zs \<Longrightarrow> none_activated now xs zs"
  unfolding none_activated_def by metis

lemma none_activated_keeps_one:
  assumes "none_activated now xs ys" "one_active now xs"
  shows "one_active now ys"
  unfolding one_active_def
proof (intro ballI impI)
  fix s t assume s: "s \<in> set ys" and t: "t \<in> set ys"
    and st: "IsSessionActive now s \<and> IsSessionActive now t \<and> same_grant s t"
  from assms(1) s st obtain s0 where s0: "s0 \<in> set xs" "session_key s0 = session_key s" "bs_spec s0 = bs_spec s"
    "IsSessionActive now s0" unfolding none_activated_def by blast
  from assms(1) t st obtain t0 where t0: "t0 \<in> set xs" "session_key t0 = session_key t" "bs_spec t0 = bs_spec t"
    "IsSessionActive now t0" unfolding none_activated_def by blast
  have "same_grant s0 t0" using st s0(3) t0(3) by (simp add: same_grant_def)
  with assms(2) s0(1,4) t0(1,4) have "session_key s0 = session_key t0" unfolding one_active_def by blast
  with s0(2) t0(2) show "session_key s = session_key t" by simp
qed

lemma one_active_later: "one_active now xs \<Longrightarrow> now \<le> now' \<Longrightarrow> one_active now' xs"
  by (auto simp: one_active_def active_iff active_status_def)

subsection \<open>No step activates a session\<close>

lemma session_step_inactive:
  assumes "session_step now bs st" "Second \<le> now" "wire_status (bs_status bs) = bs_status bs" "state_inv now (bs_status bs)"
    and "active_status now (wire_status st)"
  shows "active_status now (bs_status bs)"
proof -
  have pos: "wire_time now \<noteq> 0" using wire_time_pos [OF assms(2)] by simp
  note wired = wired_times [OF assms(3)]
  from assms(1) show ?thesis
  proof cases
    case system
    then show ?thesis
    proof cases
      case (submit username retain)
      then show ?thesis by (simp add: active_status_def zero_status_def)
    next
      case time_out
      with assms(5) wired show ?thesis by (simp add: active_status_def status_defs)
    next
      case expire
      with assms(5) wired show ?thesis by (simp add: active_status_def status_defs)
    qed
  next
    case (approve email reason)
    with assms(4) show ?thesis by (simp add: active_status_def state_inv_def)
  qed (use assms(5) pos in \<open>simp_all add: active_status_def status_defs Let_def split: if_splits\<close>)
qed

lemma quiet_step_activates_none:
  assumes "quiet_step (session_step now) xs ys" "Second \<le> now" "store_inv now xs"
  shows "none_activated now xs ys"
  using assms(1)
proof cases
  case (update bs st)
  have bs: "wire_status (bs_status bs) = bs_status bs" "state_inv now (bs_status bs)"
    using update(1) assms(3) by (auto simp: store_inv_def)
  show ?thesis
    unfolding none_activated_def
  proof (intro ballI impI)
    fix y assume y: "y \<in> set ys" "IsSessionActive now y"
    show "\<exists>x \<in> set xs. session_key x = session_key y \<and> bs_spec x = bs_spec y \<and> IsSessionActive now x"
    proof (cases "session_key y = session_key bs")
      case True
      then have k: "session_key y = session_key (bs\<lparr>bs_status := st\<rparr>)" by simp
      with update(3) y(1) obtain old where old: "old \<in> set xs" "session_key old = session_key bs" "bs_spec y = bs_spec old"
        and st: "bs_status y = wire_status st" unfolding status_written_def by auto
      have "old = bs" using update(4) old(1,2) update(1) by (meson distinct_map inj_onD)
      moreover have "IsSessionActive now bs"
        using session_step_inactive [OF update(2) assms(2) bs] y(2) st by (simp add: active_iff)
      ultimately show ?thesis using old True by auto
    next
      case False
      then have "y \<in> set xs" using update(3) y(1) unfolding status_written_def by auto
      with y(2) show ?thesis by blast
    qed
  qed
next
  case remove
  then show ?thesis by (auto simp: none_activated_def)
next
  case metadata
  show ?thesis
    unfolding none_activated_def
  proof (intro ballI impI)
    fix y assume y: "y \<in> set ys" "IsSessionActive now y"
    then have "session_payload y \<in> session_payload ` set xs" using metadata by (metis imageI list.set_map)
    then obtain x where "x \<in> set xs" "session_payload x = session_payload y" by auto
    with y(2) show "\<exists>x \<in> set xs. session_key x = session_key y \<and> bs_spec x = bs_spec y \<and> IsSessionActive now x"
      by (auto simp: session_payload_def active_iff)
  qed
qed

lemma quiet_steps_activate_none:
  assumes "(quiet_step (session_step now))\<^sup>*\<^sup>* xs ys" "Second \<le> now" "store_inv now xs"
  shows "none_activated now xs ys \<and> store_inv now ys"
  using assms(1)
proof (induction rule: rtranclp_induct)
  case base
  with assms(3) show ?case by simp
next
  case (step ys zs)
  have "store_step (session_step now) ys zs" using step.hyps(2) by cases (auto intro: store_step.intros)
  with store_step_inv [OF _ assms(2)] step.IH have "store_inv now zs" by blast
  with quiet_step_activates_none [OF step.hyps(2) assms(2)] step.IH none_activated_trans [of now xs ys zs] show ?case by blast
qed

lemma quiet_steps_mono:
  "(quiet_step R)\<^sup>*\<^sup>* xs ys \<Longrightarrow> (\<And>bs st. R bs st \<Longrightarrow> S bs st) \<Longrightarrow> (quiet_step S)\<^sup>*\<^sup>* xs ys"
  by (erule rtranclp_mono [THEN predicate2D, rotated]) (auto elim!: quiet_step.cases intro: quiet_step.intros)

subsection \<open>Events\<close>

lemma new_session_grant:
  assumes "check_request wc c body w = Inr (request, plan)"
  shows "Cluster (bs_spec (new_session request plan)) = rq_Clustername request \<and>
    User (bs_spec (new_session request plan)) = rq_Username request \<and>
    GrantedGroup (bs_spec (new_session request plan)) = rq_GroupName request"
  by (simp add: new_session_def Let_def)

context kube_sessions
begin

lemma none_found_none_active:
  assumes "getActiveBreakglassSession now cl u c g w = Inl ErrSessionNotFound" "s \<in> set (sessions (api w))"
    and "Cluster (bs_spec s) = c" "User (bs_spec s) = u" "GrantedGroup (bs_spec s) = g"
  shows "\<not> IsSessionActive now s"
proof -
  let ?sel = "[(''spec.cluster'', c), (''spec.user'', u), (''spec.grantedGroup'', g)]"
  obtain xs where l: "list_sessions cl ?sel (api w) = Inr xs" and none: "filter (IsSessionActive now) xs = []"
    using assms(1)
    by (auto simp: getActiveBreakglassSession_def GetBreakglassSessionsWithSelector_def Let_def wrap_error_def
        map_error_def split: sum.splits if_splits)
  have "index_matches session_index ?sel s" using assms(3-5) by (simp add: index_matches_def session_index_def)
  with listing.lst_mem_iff [OF l, of s] assms(2) have "s \<in> set xs" by simp
  with none show ?thesis by (auto simp: filter_empty_conv)
qed

lemma event_keeps_one_active:
  assumes "wc_client wc = cl" "wf (api w)" "Second \<le> now" "store_inv now (sessions (api w))" "one_active now (sessions (api w))"
  shows "one_active now (sessions (api (run_event wc (now, ev) w)))"
proof (cases ev)
  case (ActionEvent c name act)
  with serve_action_sim [OF assms(1,2) surjective_pairing, of now c name act]
    quiet_steps_activate_none [OF _ assms(3,4)] none_activated_keeps_one [OF _ assms(5)] show ?thesis by simp
next
  case CleanupEvent
  have "quiet (session_step now) w (cleanup_round now cl w)"
    using cleanup_round_sim [OF assms(2), of now] by (blast intro: quiet_steps_mono session_step.system)
  from none_activated_keeps_one [OF conjunct1 [OF quiet_steps_activate_none [OF this assms(3,4)]] assms(5)]
  show ?thesis using CleanupEvent assms(1) by simp
next
  case (RequestEvent c body)
  let ?w' = "snd (handleRequestBreakglassSession now wc c body w)"
  from request_effect [OF assms(1,2) surjective_pairing, of now c body]
  have "one_active now (sessions (api ?w'))"
  proof (elim conjE disjE exE)
    assume "sessions (api ?w') = sessions (api w)"
    with assms(5) show ?thesis by simp
  next
    fix request plan m w1
    let ?new = "(new_session request plan)\<lparr>bs_meta := m, bs_status := zero_status\<rparr>"
    assume none: "getActiveBreakglassSession now cl (rq_Username request) (rq_Clustername request) (rq_GroupName request) w = Inl ErrSessionNotFound"
      and check: "check_request wc c body w = Inr (request, plan)"
      and w1: "wf (api w1)" "sessions (api w1) = sessions (api w) @ [?new]" and run: "quiet (system_step now) w1 ?w'"
    have alone: "\<not> IsSessionActive now s" if "s \<in> set (sessions (api w))" "same_grant s ?new" for s
      using none_found_none_active [OF none that(1)] that(2) new_session_grant [OF check] by (simp add: same_grant_def)
    have "one_active now (sessions (api w1))"
      unfolding one_active_def
    proof (intro ballI impI)
      fix s t assume s: "s \<in> set (sessions (api w1))" and t: "t \<in> set (sessions (api w1))"
        and st: "IsSessionActive now s \<and> IsSessionActive now t \<and> same_grant s t"
      then have "same_grant s t" "same_grant t s" by (simp_all add: same_grant_def)
      with alone s t st w1(2) consider "s = t" | "s \<in> set (sessions (api w))" "t \<in> set (sessions (api w))" by auto
      then show "session_key s = session_key t" using assms(5) st unfolding one_active_def by cases blast+
    qed
    moreover have "store_inv now (sessions (api w1))" using assms(4) by (auto simp: w1(2) store_inv_def state_inv_zero)
    moreover have "quiet (session_step now) w1 ?w'" using run by (blast intro: quiet_steps_mono session_step.system)
    ultimately show ?thesis
      using none_activated_keeps_one [OF conjunct1 [OF quiet_steps_activate_none [OF _ assms(3)]]] by blast
  qed
  with RequestEvent show ?thesis by simp
qed

lemma trace_one_active:
  assumes "wc_client wc = cl"
  shows "wf (api w) \<Longrightarrow> reachable t (sessions (api w)) \<Longrightarrow> one_active t (sessions (api w)) \<Longrightarrow> chronological t evs \<Longrightarrow>
    one_active (end_time t evs) (sessions (api (run_trace wc evs w)))"
proof (induction evs arbitrary: t w)
  case (Cons e evs)
  obtain now ev where e: "e = (now, ev)" by force
  let ?w = "run_event wc (now, ev) w"
  have t: "t \<le> now" using Cons.prems(4) e by simp
  note sim = run_event_sim [OF assms Cons.prems(1), of now ev]
  have inv: "Second \<le> now" "store_inv now (sessions (api w))"
    using reachable_inv [OF Cons.prems(2)] t by (auto simp: store_inv_def intro: state_inv_mono)
  have "reachable now (sessions (api ?w))" using reachable_steps [OF Cons.prems(2) t] sim by simp
  moreover have "one_active now (sessions (api ?w))"
    by (rule event_keeps_one_active [OF assms Cons.prems(1) inv one_active_later [OF Cons.prems(3) t]])
  ultimately have "one_active (end_time now evs) (sessions (api (run_trace wc evs ?w)))"
    using Cons.IH [of ?w now] sim Cons.prems(4) e by simp
  with e show ?case by (simp add: run_trace_def)
qed (simp add: run_trace_def)

end

subsection \<open>Properties\<close>

text \<open>C7. After every chronological sequence of requests, actions and cleanup rounds that starts on an empty store, no
  two stored sessions of the same user, cluster and granted group are active at the same time.\<close>

theorem at_most_one_active_session:
  assumes "kube_sessions (wc_client wc) sessions ok" "ok (api w)" "sessions (api w) = []"
    and "Second \<le> t" "chronological t evs" "end_time t evs \<le> now"
  shows "one_active now (sessions (api (run_trace wc evs w)))"
proof -
  have "reachable t (sessions (api w))" "one_active t (sessions (api w))"
    using assms(3,4) by (simp_all add: reachable.init one_active_def)
  from kube_sessions.trace_one_active [OF assms(1) refl assms(2) this assms(5)] one_active_later [OF _ assms(6)]
  show ?thesis by blast
qed

text \<open>A request, a second one while the session is pending, a rejection and a third request: the second one creates
  nothing, the third one a new session.\<close>

definition ex_requests :: "(instant \<times> event) list" where
  "ex_requests = [(ex_now, RequestEvent ex_dev (Some ex_request)), (ex_now + Second, RequestEvent ex_dev (Some ex_request)),
     (ex_now + Minute, ActionEvent ex_lead ''prod-admin-10'' (Reject ''no'')),
     (ex_now + 2 * Minute, RequestEvent ex_dev (Some ex_request)), (ex_now + 3 * Minute, CleanupEvent)]"

theorem at_most_one_active_session_witness:
  "map (\<lambda>s. (Name (bs_meta s), IsSessionActive (ex_now + Hour) s)) (m_sessions (api (run_trace ex_wc ex_requests (ex_world [])))) =
     [(''prod-admin-10'', False), (''prod-admin-13'', True)] \<and>
   one_active (ex_now + Hour) (m_sessions (api (run_trace ex_wc ex_requests (ex_world []))))"
proof
  show "map (\<lambda>s. (Name (bs_meta s), IsSessionActive (ex_now + Hour) s)) (m_sessions (api (run_trace ex_wc ex_requests (ex_world [])))) =
     [(''prod-admin-10'', False), (''prod-admin-13'', True)]" by code_simp
  have k: "kube_sessions (wc_client ex_wc) m_sessions mem_wf" using mem.kube_sessions_axioms by (simp add: ex_wc_def)
  show "one_active (ex_now + Hour) (m_sessions (api (run_trace ex_wc ex_requests (ex_world []))))"
    by (rule at_most_one_active_session [OF k, where t = ex_now]) code_simp+
qed

text \<open>A session whose approval timed out still counts as active: until it is deleted at the end of its retention, the
  same request is answered as already requested and creates nothing.\<close>

theorem timed_out_session_blocks:
  "(let w = run_trace ex_wc [(ex_now, RequestEvent ex_dev (Some ex_request)), (ex_now + 100 * Hour, CleanupEvent)] (ex_world []);
        (r, w') = handleRequestBreakglassSession (ex_now + 200 * Hour) ex_wc ex_dev (Some ex_request) w
    in map (\<lambda>s. State (bs_status s)) (m_sessions (api w)) = [SessionStateTimeout] \<and> status_code r = 409 \<and> api w' = api w)"
  by code_simp

end
