(* ===== verification/Access.thy ===== *)
theory Access
  imports Webhook Lifecycle
begin

text \<open>
  The promise to the users: once an approver has approved a session, the authorization webhook lets its user
  do what the granted group may do, until the validity ends.  This composes the handler of
  \<^verbatim>\<open>pkg/breakglass/session_controller.go\<close>, the API server and the webhook of \<^verbatim>\<open>pkg/webhook/controller.go\<close>.
\<close>

subsection \<open>The phases of the webhook on the way to an RBAC answer\<close>

lemma rest_config_api:
  assumes "api w = api w'"
  shows "GetRESTConfig d n w p = GetRESTConfig d n w' p"
proof -
  have load: "load_rest_config d cc w = load_rest_config d cc w'" for cc by (simp add: load_rest_config_def assms)
  show ?thesis unfolding GetRESTConfig_def across_api [OF assms] load by (rule refl)
qed

lemma not_denied: "list_denypolicies cl a = Inr ps \<Longrightarrow> (\<And>pol. pol \<in> set ps \<Longrightarrow> \<not> policy_denies act pol) \<Longrightarrow>
    Evaluator_Match cl act a \<noteq> Inr (True, n)"
  using Evaluator_Match_denied_iff [of cl act a] by auto

lemma session_policy_clear:
  "(\<And>sess n. Evaluator_Match cl (action_of ra c tn sess) a \<noteq> Inr (True, n)) \<Longrightarrow> session_policy cl ra c tn a ss = None"
  by (induction ss) (auto split: sum.split prod.split)

lemma deny_phase_clear:
  assumes "list_denypolicies (wh_client wh) (api w) = Inr ps"
    and "\<And>ra sess pol. sar_ResourceAttributes sar = Some ra \<Longrightarrow> pol \<in> set ps \<Longrightarrow> \<not> policy_denies (action_of ra c tn sess) pol"
  shows "deny_phase wh c sar gs ss tn w = None"
proof (cases "sar_ResourceAttributes sar")
  case (Some ra)
  have none: "Evaluator_Match (wh_client wh) (action_of ra c tn sess) (api w) \<noteq> Inr (True, n)" for sess n
    using not_denied [OF assms(1)] assms(2) [OF Some] by blast
  from session_policy_clear [OF none] none [of "[]"] show ?thesis
    by (auto simp: deny_phase_def Some split: sum.split prod.split bool.split)
qed (simp add: deny_phase_def)

lemma decide_phase_rbac:
  assumes "wh_provider wh = Some d" "GetRESTConfig d c w p = (Inr rc, p')" "wh_canDoFn wh (Some rc) gs sar c = Inr True"
  shows "sar_allowed (fst (decide_phase now wh c sar gs ss w p))"
proof -
  have "rbac_phase wh c sar gs w p = (Inr True, None, p')" using assms by (simp add: rbac_phase_def)
  then show ?thesis by (simp add: decide_phase_def Let_def case_prod_beta)
qed

lemma live_session_allows:
  assumes "getSessions t (wh_client wh) (sar_User sar) c w = Inr ss" "s \<in> set ss" "lookup_tenant wh c w p = (tn, p1)"
    and "list_denypolicies (wh_client wh) (api w) = Inr ps"
    and "\<And>ra sess pol. sar_ResourceAttributes sar = Some ra \<Longrightarrow> pol \<in> set ps \<Longrightarrow> \<not> policy_denies (action_of ra c tn sess) pol"
    and "wh_provider wh = Some d" "GetRESTConfig d c w p1 = (Inr rc, p2)"
    and "\<And>gs. GrantedGroup (bs_spec s) \<in> set gs \<Longrightarrow> wh_canDoFn wh (Some rc) gs sar c = Inr True"
  shows "sar_allowed (fst (handleAuthorize t wh c (Some sar) w p))"
proof -
  let ?gs = "map (\<lambda>s. GrantedGroup (bs_spec s)) ss"
  obtain w2 where api: "api w2 = api w" and run: "handleAuthorize t wh c (Some sar) w p =
       (case deny_phase wh c sar ?gs ss tn w2 of Some (r, w3) \<Rightarrow> (r, w3, p1) | None \<Rightarrow> decide_phase t wh c sar ?gs ss w2 p1)"
    by (rule handleAuthorize_run [OF assms(1,3)])
  have "deny_phase wh c sar ?gs ss tn w2 = None"
    by (rule deny_phase_clear [of _ _ ps]) (use api assms(4,5) in auto)
  moreover have "sar_allowed (fst (decide_phase t wh c sar ?gs ss w2 p1))"
  proof (rule decide_phase_rbac [OF assms(6)])
    show "GetRESTConfig d c w2 p1 = (Inr rc, p2)" using assms(7) rest_config_api [OF api] by simp
    show "wh_canDoFn wh (Some rc) ?gs sar c = Inr True" using assms(2) by (intro assms(8)) simp
  qed
  ultimately show ?thesis by (simp add: run)
qed

subsection \<open>An approved session is live until it ends\<close>

context kube_sessions
begin

lemma approval_stored:
  assumes "wc_client wc = cl" "wf (api w)"
    and "handleApproveBreakglassSession now wc c name reason w = (JSONSession 200 bs, w')"
  shows "wf (api w') \<and> (\<exists>y \<in> set (sessions (api w')). bs_spec y = bs_spec bs \<and> bs_status y = wire_status (bs_status bs) \<and>
    RejectedAt (bs_status bs) = 0)"
proof -
  have run: "serve_action now wc c name (Approve reason) w = (JSONSession 200 bs, w')" using assms(3) by simp
  then have "status_code (fst (serve_action now wc c name (Approve reason) w)) = 200" by simp
  then obtain x where x: "GetBreakglassSessionByName cl name w = Inr x"
    and put: "UpdateBreakglassSessionStatus cl (x\<lparr>bs_status := approve_status now (ctx_email c) reason x\<rparr>) w = (w', None)"
    and bs: "bs = x\<lparr>bs_status := approve_status now (ctx_email c) reason x\<rparr>"
    by (rule serve_action_200) (use run assms(1) in auto)
  from repo.put_None [OF assms(2) put] have w': "wf (api w')" "status_written (sessions (api w)) bs (sessions (api w'))"
    by (simp_all add: bs)
  have key: "session_key bs = session_key x" by (simp add: bs)
  have stored: "x \<in> set (sessions (api w))" using by_name_stored [OF assms(2) x] .
  then have "session_key bs \<in> session_key ` set (sessions (api w'))"
    unfolding status_written_keys [OF w'(2)] key by (rule imageI)
  then obtain y where y: "y \<in> set (sessions (api w'))" "session_key y = session_key bs" by auto
  from w'(2) y obtain old where "old \<in> set (sessions (api w))" "session_key old = session_key x"
    "bs_status y = wire_status (bs_status bs)" "bs_spec y = bs_spec old" unfolding status_written_def key by blast
  moreover from this stored have "old = x" using stored_unique [OF assms(2)] by metis
  moreover have "RejectedAt (bs_status bs) = 0"
    by (simp add: bs approve_status_def Let_def)
  ultimately show ?thesis using w'(1) y(1) bs by (intro conjI bexI [of _ y]) simp_all
qed

end

subsection \<open>Properties\<close>

text \<open>C4. Approval gives access: once the approval of a session is answered with 200, every review of its user on
  its cluster for an action that the cluster's RBAC allows to the granted group is answered with allowed, at
  every time before the end of the session (to the second that is stored) and of its retention, as long as
  the store is unchanged, the API server and the cluster's configuration can be read and no deny policy
  forbids the action.\<close>

theorem approval_gives_access:
  assumes "kube_sessions (wc_client wc) sessions ok" "wh_client wh = wc_client wc" "ok (api w)"
    and "handleApproveBreakglassSession now wc c name reason w = (JSONSession 200 bs, w')"
    and "0 \<le> t" "t < wire_time (ExpiresAt (bs_status bs))" "t \<le> wire_time (RetainedUntil (bs_status bs))"
    and "sar_User sar = User (bs_spec bs)" "cluster = Cluster (bs_spec bs)"
    and "getSessions t (wh_client wh) (sar_User sar) cluster w' = Inr ss" "lookup_tenant wh cluster w' p = (tn, p1)"
    and "list_denypolicies (wh_client wh) (api w') = Inr ps"
    and "\<And>ra sess pol. sar_ResourceAttributes sar = Some ra \<Longrightarrow> pol \<in> set ps \<Longrightarrow> \<not> policy_denies (action_of ra cluster tn sess) pol"
    and "wh_provider wh = Some d" "GetRESTConfig d cluster w' p1 = (Inr rc, p2)"
    and "\<And>gs. GrantedGroup (bs_spec bs) \<in> set gs \<Longrightarrow> wh_canDoFn wh (Some rc) gs sar cluster = Inr True"
  shows "sar_allowed (fst (handleAuthorize t wh cluster (Some sar) w' p))"
proof -
  from kube_sessions.approval_stored [OF assms(1) refl assms(3,4)] obtain y where y: "y \<in> set (sessions (api w'))"
    "bs_spec y = bs_spec bs" "bs_status y = wire_status (bs_status bs)" "RejectedAt (bs_status bs) = 0" by blast
  have k: "kube_sessions (wh_client wh) sessions ok" using assms(1,2) by simp
  have "live t y" using y assms(5-7) by (simp add: live_def)
  with kube_sessions.getSessions_mem_iff [OF k assms(10)] y assms(8,9) have "y \<in> set ss" by simp
  from live_session_allows [OF assms(10) this assms(11,12)] assms(13-16) y(2) show ?thesis by simp
qed

definition ex_rbac_wh :: "mem_api WebhookController" where
  "ex_rbac_wh = ex_wh\<lparr>wh_canDoFn := CanGroupsDo (\<lambda>rc gs. None) (\<lambda>rc gs ra. Inr (''admin'' \<in> set gs))\<rparr>"

theorem approval_gives_access_witness:
  "\<exists>bs w'. handleApproveBreakglassSession ex_now ex_wc ex_lead ''s1'' ''ok'' (ex_wh_world [ex_pending] []) = (JSONSession 200 bs, w') \<and>
     sar_allowed (fst (handleAuthorize (ex_now + Hour) ex_rbac_wh ''prod'' (Some ex_sar) w' NewClientProvider))"
proof -
  let ?run = "handleApproveBreakglassSession ex_now ex_wc ex_lead ''s1'' ''ok'' (ex_wh_world [ex_pending] [])"
  let ?w' = "snd ?run"
  define bs where "bs = (case fst ?run of JSONSession n s \<Rightarrow> s | _ \<Rightarrow> zero_session)"
  have "(case fst ?run of JSONSession n s \<Rightarrow> n = 200 | _ \<Rightarrow> False)" by code_simp
  then have r: "?run = (JSONSession 200 bs, ?w')" by (cases "fst ?run") (auto simp: bs_def prod_eq_iff)
  have bs: "ex_now + Hour < wire_time (ExpiresAt (bs_status bs))" "ex_now + Hour \<le> wire_time (RetainedUntil (bs_status bs))"
    "sar_User ex_sar = User (bs_spec bs)" "''prod'' = Cluster (bs_spec bs)" "GrantedGroup (bs_spec bs) = ''admin''"
    unfolding bs_def by code_simp+
  have k: "kube_sessions (wc_client ex_wc) m_sessions mem_wf" "wh_client ex_rbac_wh = wc_client ex_wc"
    using mem.kube_sessions_axioms by (simp_all add: ex_wc_def ex_rbac_wh_def ex_wh_def)
  have ok: "mem_wf (api (ex_wh_world [ex_pending] []))" "0 \<le> ex_now + Hour" by code_simp+
  have "\<not> isl (getSessions (ex_now + Hour) (wh_client ex_rbac_wh) (sar_User ex_sar) ''prod'' ?w')" by code_simp
  then obtain ss where ss: "getSessions (ex_now + Hour) (wh_client ex_rbac_wh) (sar_User ex_sar) ''prod'' ?w' = Inr ss"
    by (metis sum.collapse(2))
  obtain tn p1 where tn: "lookup_tenant ex_rbac_wh ''prod'' ?w' NewClientProvider = (tn, p1)" by force
  have "\<not> isl (fst (GetRESTConfig ex_deps ''prod'' ?w' (snd (lookup_tenant ex_rbac_wh ''prod'' ?w' NewClientProvider))))" by code_simp
  then obtain rc p2 where rc: "GetRESTConfig ex_deps ''prod'' ?w' p1 = (Inr rc, p2)"
    using tn by (metis prod.collapse snd_conv sum.collapse(2))
  have no: "list_denypolicies (wh_client ex_rbac_wh) (api ?w') = Inr []" by code_simp
  have "sar_allowed (fst (handleAuthorize (ex_now + Hour) ex_rbac_wh ''prod'' (Some ex_sar) ?w' NewClientProvider))"
    by (rule approval_gives_access [OF k ok(1) r ok(2) bs(1-4) ss tn no _ _ rc])
      (simp_all add: ex_rbac_wh_def ex_wh_def CanGroupsDo_def ex_sar_def bs(5))
  with r show ?thesis by blast
qed

end
