(* ===== verification/Progress.thy ===== *)
theory Progress
  imports Lifecycle
begin

text \<open>
  What a round of the cleanup task achieves, and what happens to a decision that was taken on an outdated
  copy of a session.  Progress needs an API server that answers: \<open>live_sessions\<close> extends the contract
  \<open>kube_sessions\<close> by the success of listings and of status writes that carry the current version.
\<close>

subsection \<open>A server that answers\<close>

locale live_sessions = kube_sessions +
  assumes list_answers: "\<exists>xs. list_sessions cl [] a = Inr xs"
    and write_answers: "wf a \<Longrightarrow> old \<in> set (sessions a) \<Longrightarrow> session_key old = session_key s \<Longrightarrow>
      ResourceVersion (bs_meta old) = ResourceVersion (bs_meta s) \<Longrightarrow> snd (update_session_status cl s a) = None"

text \<open>What a round must not leave behind: an Approved session past its end, a Pending one past its deadline.\<close>

definition lapsed :: "instant \<Rightarrow> BreakglassSession \<Rightarrow> bool" where
  "lapsed now s \<longleftrightarrow> State (bs_status s) = SessionStateApproved \<and> IsSessionExpired now s"

definition overdue :: "instant \<Rightarrow> BreakglassSession \<Rightarrow> bool" where
  "overdue now s \<longleftrightarrow> State (bs_status s) = SessionStatePending \<and> IsSessionApprovalTimedOut now s"

text \<open>The effect of one loop body: the session it is given is no longer bad, all others are as before.\<close>

definition settles :: "(BreakglassSession \<Rightarrow> bool) \<Rightarrow> BreakglassSession \<Rightarrow> BreakglassSession list \<Rightarrow> BreakglassSession list \<Rightarrow> bool" where
  "settles bad ses xs xs' \<longleftrightarrow>
     (\<forall>t \<in> set xs'. if session_key t = session_key ses then \<not> bad t else t \<in> set xs) \<and>
     (\<forall>t \<in> set xs. session_key t \<noteq> session_key ses \<longrightarrow> t \<in> set xs')"

lemma settles_written:
  assumes "status_written xs s xs'" "distinct (map session_key xs)" "session_key s = session_key ses"
    and "\<And>t. bs_status t = wire_status (bs_status s) \<Longrightarrow> \<not> bad t"
  shows "settles bad ses xs xs'"
proof -
  have keep: "t \<in> set xs'" if "t \<in> set xs" "session_key t \<noteq> session_key s" for t
  proof -
    have "session_key t \<in> session_key ` set xs'"
      using imageI [OF that(1)] by (simp only: status_written_keys [OF assms(1)])
    then obtain u where u: "u \<in> set xs'" "session_key u = session_key t" by auto
    have "u \<in> set xs" using assms(1) u that(2) unfolding status_written_def by simp
    moreover have "inj_on session_key (set xs)" using assms(2) by (simp add: distinct_map)
    ultimately have "u = t" using inj_onD u(2) that(1) by metis
    with u(1) show ?thesis by simp
  qed
  have new: "\<not> bad t" if "t \<in> set xs'" "session_key t = session_key s" for t
    using assms(1,4) that unfolding status_written_def by blast
  have old: "t \<in> set xs" if "t \<in> set xs'" "session_key t \<noteq> session_key s" for t
    using assms(1) that unfolding status_written_def by blast
  show ?thesis unfolding settles_def using keep new old assms(3) by simp
qed

context live_sessions
begin

lemma settles_same:
  assumes "wf (api w)" "ses \<in> set (sessions (api w))" "\<not> bad ses"
  shows "settles bad ses (sessions (api w)) (sessions (api w))"
  using stored_unique [OF assms(1) _ assms(2)] assms(3) unfolding settles_def by metis

lemma put_answers:
  assumes "wf (api w)" "ses \<in> set (sessions (api w))"
  obtains w' where "UpdateBreakglassSessionStatus cl (ses\<lparr>bs_status := st\<rparr>) w = (w', None)" "wf (api w')"
    "status_written (sessions (api w)) (ses\<lparr>bs_status := st\<rparr>) (sessions (api w'))"
proof -
  let ?s = "ses\<lparr>bs_status := st\<rparr>"
  have "snd (update_session_status cl ?s (api w)) = None"
    using write_answers [OF assms(1,2), of ?s] by simp
  then obtain w' where u: "UpdateBreakglassSessionStatus cl ?s w = (w', None)"
    by (cases "update_session_status cl ?s (api w)") (simp add: UpdateBreakglassSessionStatus_def)
  from that [OF u] status_write_shape [OF assms(1) u] show ?thesis by blast
qed

lemma expire_pending_settles:
  assumes "wf (api w)" "ses \<in> set (sessions (api w))"
  shows "settles (overdue now) ses (sessions (api w)) (sessions (api (expire_pending_one now cl ses w)))"
proof (cases "IsSessionApprovalTimedOut now ses")
  case True
  from put_answers [OF assms, of "timeout_status now ses"] obtain w'
    where u: "UpdateBreakglassSessionStatus cl (ses\<lparr>bs_status := timeout_status now ses\<rparr>) w = (w', None)"
    and sw: "status_written (sessions (api w)) (ses\<lparr>bs_status := timeout_status now ses\<rparr>) (sessions (api w'))" by blast
  have "settles (overdue now) ses (sessions (api w)) (sessions (api w'))"
    using keys_distinct [OF assms(1)] by (intro settles_written [OF sw]) (simp_all add: overdue_def timeout_status_def)
  with True u show ?thesis by (simp add: expire_pending_one_def)
next
  case False
  with settles_same [OF assms, of "overdue now"] show ?thesis by (simp add: expire_pending_one_def overdue_def)
qed

lemma expire_approved_settles:
  assumes "wf (api w)" "ses \<in> set (sessions (api w))" "\<not> overdue now ses"
  shows "settles (\<lambda>s. lapsed now s \<or> overdue now s) ses (sessions (api w))
    (sessions (api (expire_approved_one now cl ses w)))"
proof (cases "lapsed now ses")
  case True
  from put_answers [OF assms(1,2), of "expire_status now ses"] obtain w'
    where u: "UpdateBreakglassSessionStatus cl (ses\<lparr>bs_status := expire_status now ses\<rparr>) w = (w', None)"
    and sw: "status_written (sessions (api w)) (ses\<lparr>bs_status := expire_status now ses\<rparr>) (sessions (api w'))" by blast
  have "settles (\<lambda>s. lapsed now s \<or> overdue now s) ses (sessions (api w)) (sessions (api w'))"
    using keys_distinct [OF assms(1)]
    by (intro settles_written [OF sw]) (simp_all add: lapsed_def overdue_def expire_status_def)
  moreover have "expire_approved_one now cl ses w = inc_metric (SessionExpired (Cluster (bs_spec ses))) w'"
    using True u by_name_self [OF assms(1,2)]
    by (cases "GetBreakglassSessionByName cl (Name (bs_meta ses)) w")
      (auto simp: expire_approved_one_def lapsed_def Let_def numeral_3_eq_3)
  ultimately show ?thesis by simp
next
  case False
  with settles_same [OF assms(1,2), of "\<lambda>s. lapsed now s \<or> overdue now s"] assms(3) show ?thesis
    by (auto simp: expire_approved_one_def lapsed_def)
qed

text \<open>A loop over the stored sessions whose body settles each of them settles them all.\<close>

lemma fold_settles:
  assumes wf': "\<And>ses w. wf (api w) \<Longrightarrow> ses \<in> set (sessions (api w)) \<Longrightarrow> wf (api (f ses w))"
    and body: "\<And>ses w. wf (api w) \<Longrightarrow> ses \<in> set (sessions (api w)) \<Longrightarrow> pre ses \<Longrightarrow>
      settles bad ses (sessions (api w)) (sessions (api (f ses w)))"
  shows "wf (api w) \<Longrightarrow> set xs \<subseteq> set (sessions (api w)) \<Longrightarrow> distinct (map session_key xs) \<Longrightarrow> \<forall>s \<in> set xs. pre s \<Longrightarrow>
    \<forall>t \<in> set (sessions (api (fold f xs w))).
      if session_key t \<in> session_key ` set xs then \<not> bad t else t \<in> set (sessions (api w))"
proof (induction xs arbitrary: w)
  case (Cons s xs)
  let ?w = "f s w"
  have s: "s \<in> set (sessions (api w))" "pre s" using Cons.prems(2,4) by simp_all
  note b = body [OF Cons.prems(1) s]
  have "set xs \<subseteq> set (sessions (api ?w))"
  proof
    fix t assume t: "t \<in> set xs"
    then have "session_key t \<noteq> session_key s" using Cons.prems(3) by (metis distinct.simps(2) image_eqI list.set_map list.simps(9))
    with t Cons.prems(2) b show "t \<in> set (sessions (api ?w))" unfolding settles_def by auto
  qed
  from Cons.IH [OF wf' [OF Cons.prems(1) s(1)] this] Cons.prems(3,4)
  have ih: "\<forall>t \<in> set (sessions (api (fold f xs ?w))).
      if session_key t \<in> session_key ` set xs then \<not> bad t else t \<in> set (sessions (api ?w))" by simp
  show ?case
  proof
    fix t assume "t \<in> set (sessions (api (fold f (s # xs) w)))"
    with ih have t: "if session_key t \<in> session_key ` set xs then \<not> bad t else t \<in> set (sessions (api ?w))" by simp
    show "if session_key t \<in> session_key ` set (s # xs) then \<not> bad t else t \<in> set (sessions (api w))"
      using t b unfolding settles_def by (auto split: if_splits)
  qed
qed simp

lemma fold_all_settled:
  assumes "\<And>ses w. wf (api w) \<Longrightarrow> ses \<in> set (sessions (api w)) \<Longrightarrow> wf (api (f ses w))"
    and "\<And>ses w. wf (api w) \<Longrightarrow> ses \<in> set (sessions (api w)) \<Longrightarrow> pre ses \<Longrightarrow>
      settles bad ses (sessions (api w)) (sessions (api (f ses w)))"
    and "wf (api w)" "\<forall>s \<in> set (sessions (api w)). pre s" "t \<in> set (sessions (api (fold f (sessions (api w)) w)))"
  shows "\<not> bad t"
proof -
  from fold_settles [of f pre bad, OF assms(1,2,3) subset_refl keys_distinct [OF assms(3)] assms(4)] assms(5)
  have "if session_key t \<in> session_key ` set (sessions (api w)) then \<not> bad t else t \<in> set (sessions (api w))" by blast
  then show ?thesis by (auto split: if_splits)
qed

lemma cleanup_round_settles:
  assumes "wf (api w)" "s \<in> set (sessions (api (cleanup_round now cl w)))"
  shows "\<not> lapsed now s \<and> \<not> overdue now s"
proof -
  have listing: "GetAllBreakglassSessions cl v = Inr (sessions (api v))" for v
    using list_answers [of "api v"] listing.lst_all by (auto simp: GetAllBreakglassSessions_def)
  let ?w1 = "ExpirePendingSessions now cl w" and ?w2 = "ExpireApprovedSessions now cl (ExpirePendingSessions now cl w)"
  have w1: "?w1 = fold (expire_pending_one now cl) (sessions (api w)) w"
    by (simp add: ExpirePendingSessions_def listing)
  have w2: "?w2 = fold (expire_approved_one now cl) (sessions (api ?w1)) ?w1"
    by (simp add: ExpireApprovedSessions_def listing)
  have ok: "wf (api ?w1)" "wf (api ?w2)" using expire_pending_sim [OF assms(1)] expire_approved_sim by blast+
  have pending: "\<forall>t \<in> set (sessions (api ?w1)). \<not> overdue now t"
  proof
    fix t assume "t \<in> set (sessions (api ?w1))"
    then have t: "t \<in> set (sessions (api (fold (expire_pending_one now cl) (sessions (api w)) w)))" by (simp only: w1)
    show "\<not> overdue now t"
      by (rule fold_all_settled [where pre = "\<lambda>_. True", OF _ expire_pending_settles assms(1) _ t])
        (simp_all add: expire_pending_one_sim)
  qed
  have "\<not> (lapsed now t \<or> overdue now t)" if "t \<in> set (sessions (api ?w2))" for t
  proof -
    from that have t: "t \<in> set (sessions (api (fold (expire_approved_one now cl) (sessions (api ?w1)) ?w1)))"
      by (simp only: w2)
    show ?thesis
      by (rule fold_all_settled [where pre = "\<lambda>s. \<not> overdue now s", OF _ expire_approved_settles ok(1) pending t])
        (simp_all add: expire_approved_one_sim)
  qed
  moreover have "s \<in> set (sessions (api ?w2))"
    using assms(2) cleanup_keeps [OF ok(2) refl, of now] by (auto simp: cleanup_round_def)
  ultimately show ?thesis by blast
qed

end

lemma mem_status_answers:
  assumes "mem_wf a" "old \<in> set (m_sessions a)" "session_key old = session_key s"
    "ResourceVersion (bs_meta old) = ResourceVersion (bs_meta s)"
  shows "snd (update_session_status mem_client s a) = None"
proof -
  obtain x where x: "List.find (\<lambda>x. session_key x = session_key s) (m_sessions a) = Some x"
    using assms(2,3) by (cases "List.find (\<lambda>x. session_key x = session_key s) (m_sessions a)") (auto simp: find_None_iff)
  then have "x \<in> set (m_sessions a)" "session_key x = session_key s" by (auto simp: find_Some_iff)
  then have "x = old" using mem.stored_unique [OF assms(1) _ assms(2)] assms(3) by simp
  with x assms(4) show ?thesis by (simp add: mem_client_def mem_write_session_def)
qed

interpretation mem_live: live_sessions mem_client m_sessions mem_wf
  by unfold_locales (use mem_status_answers in \<open>auto simp: mem_client_def mem_list_def\<close>)

subsection \<open>Racing decisions\<close>

context kube_sessions
begin

lemma second_write_fails:
  assumes "wf (api w)" "session_key bs1 = session_key bs2"
    and "ResourceVersion (bs_meta bs1) = ResourceVersion (bs_meta bs2)"
    and "UpdateBreakglassSessionStatus cl bs1 w = (w1, None)" "UpdateBreakglassSessionStatus cl bs2 w1 = (w2, r)"
  shows "r \<noteq> None \<and> sessions (api w2) = sessions (api w1)"
proof -
  have upd: "update_session_status cl bs1 (api w) = (api w1, None)"
    using assms(4) by (auto simp: UpdateBreakglassSessionStatus_def split: prod.splits option.splits)
  from status_None [OF assms(1) upd] obtain v where wf1: "wf (api w1)" and v: "v \<noteq> ResourceVersion (bs_meta bs1)"
    and w1: "sessions (api w1) = map (\<lambda>x. if session_key x = session_key bs1
             then x\<lparr>bs_status := wire_status (bs_status bs1), bs_meta := (bs_meta x)\<lparr>ResourceVersion := v\<rparr>\<rparr> else x)
           (sessions (api w))" by auto
  have newer: "ResourceVersion (bs_meta x) = v" if "x \<in> set (sessions (api w1))" "session_key x = session_key bs2" for x
    using that assms(2) by (auto simp: w1 session_key_def split: if_splits)
  show ?thesis
  proof (cases r)
    case None
    then have "update_session_status cl bs2 (api w1) = (api w2, None)"
      using assms(5) by (auto simp: UpdateBreakglassSessionStatus_def split: prod.splits option.splits)
    from status_None [OF wf1 this] newer v assms(3) show ?thesis by metis
  next
    case (Some e)
    with repo.put_Some [OF wf1] assms(5) show ?thesis by blast
  qed
qed

end

subsection \<open>Properties\<close>

text \<open>C15. Sessions do end: on an API server that answers, a round of the cleanup task leaves no Approved session
  whose end has passed and no Pending session whose approval deadline has passed.\<close>

theorem cleanup_round_completes:
  assumes "live_sessions cl sessions ok" "ok (api w)" "s \<in> set (sessions (api (cleanup_round now cl w)))"
  shows "\<not> (State (bs_status s) = SessionStateApproved \<and> IsSessionExpired now s) \<and>
    \<not> (State (bs_status s) = SessionStatePending \<and> IsSessionApprovalTimedOut now s)"
  using live_sessions.cleanup_round_settles [OF assms] by (simp add: lapsed_def overdue_def)

theorem cleanup_round_completes_witness:
  "\<exists>s \<in> set (m_sessions (api (cleanup_round (ex_now + 2 * Hour) mem_client (ex_world [ex_approved])))).
     IsSessionExpired (ex_now + 2 * Hour) s \<and> State (bs_status s) \<noteq> SessionStateApproved"
proof -
  let ?ss = "m_sessions (api (cleanup_round (ex_now + 2 * Hour) mem_client (ex_world [ex_approved])))"
  have "list_ex (\<lambda>s. IsSessionExpired (ex_now + 2 * Hour) s) ?ss" by code_simp
  then obtain s where "s \<in> set ?ss" "IsSessionExpired (ex_now + 2 * Hour) s" by (auto simp: list_ex_iff)
  with cleanup_round_completes [OF mem_live.live_sessions_axioms ex_api_wf(2), of s "ex_now + 2 * Hour"] show ?thesis by blast
qed

text \<open>Two handlers that read the same version of a session cannot both decide on it: after the first has
  stored its status and answered 200, the write of the second is refused with 500 and nothing stored
  changes, whatever the two statuses are.\<close>

theorem racing_decision_refused:
  assumes "kube_sessions (wc_client wc) sessions ok" "ok (api w)"
    and "persist_session wc (bs\<lparr>bs_status := st1\<rparr>) w = (JSONSession 200 answer, w1)"
  shows "fst (persist_session wc (bs\<lparr>bs_status := st2\<rparr>) w1) = StatusOnly 500 \<and>
    sessions (api (snd (persist_session wc (bs\<lparr>bs_status := st2\<rparr>) w1))) = sessions (api w1)"
proof -
  from assms(3) have first: "UpdateBreakglassSessionStatus (wc_client wc) (bs\<lparr>bs_status := st1\<rparr>) w = (w1, None)"
    by (auto simp: persist_session_def split: prod.splits option.splits)
  obtain w2 r where second: "UpdateBreakglassSessionStatus (wc_client wc) (bs\<lparr>bs_status := st2\<rparr>) w1 = (w2, r)" by force
  have "r \<noteq> None \<and> sessions (api w2) = sessions (api w1)"
    by (rule kube_sessions.second_write_fails [OF assms(1,2) _ _ first second]) simp_all
  with second show ?thesis by (auto simp: persist_session_def)
qed

theorem racing_decision_refused_witness:
  "fst (persist_session ex_wc (ex_pending\<lparr>bs_status := withdraw_status ex_now ex_pending\<rparr>)
      (snd (handleApproveBreakglassSession ex_now ex_wc ex_lead ''s1'' ''ok'' (ex_world [ex_pending])))) = StatusOnly 500"
proof -
  let ?w = "ex_world [ex_pending]"
  let ?approved = "ex_pending\<lparr>bs_status := approve_status ex_now (ctx_email ex_lead) ''ok'' ex_pending\<rparr>"
  have k: "kube_sessions (wc_client ex_wc) m_sessions mem_wf"
    using mem.kube_sessions_axioms by (simp add: ex_wc_def)
  have run: "persist_session ex_wc ?approved ?w = (JSONSession 200 ?approved, snd (persist_session ex_wc ?approved ?w))"
    "snd (handleApproveBreakglassSession ex_now ex_wc ex_lead ''s1'' ''ok'' ?w) = snd (persist_session ex_wc ?approved ?w)"
    by code_simp+
  show ?thesis
    using racing_decision_refused [OF k ex_api_wf(1) run(1), of "withdraw_status ex_now ex_pending"] unfolding run(2) by simp
qed

end
