(* ===== verification/Encoding.thy ===== *)
theory Encoding
  imports Prelude
begin

text \<open>
  The data formats on the wire: JSON values with the rules by which Go's \<^verbatim>\<open>encoding/json\<close> fills a struct
  of strings, and the percent encoding of \<^verbatim>\<open>net/url\<close> (\<^verbatim>\<open>PathEscape\<close>, \<^verbatim>\<open>QueryEscape\<close>,
  \<^verbatim>\<open>Values.Encode\<close>).  Turning text into a JSON value is left to a parameter of the users of this theory.
\<close>

subsection \<open>JSON values\<close>

datatype json =
    JNull | JBool bool | JNumber string | JString string | JArray "json list" | JObject "(string \<times> json) list"

fun json_kind :: "json \<Rightarrow> string" where
  "json_kind JNull = ''null''"
| "json_kind (JBool _) = ''bool''"
| "json_kind (JNumber _) = ''number''"
| "json_kind (JString _) = ''string''"
| "json_kind (JArray _) = ''array''"
| "json_kind (JObject _) = ''object''"

definition EqualFold :: "string \<Rightarrow> string \<Rightarrow> bool" where
  "EqualFold a b = (ToLower a = ToLower b)"

text \<open>Filling the string fields of a struct from the members of an object: a member is matched to a field
  without regard to case, \<open>null\<close> leaves the field alone, another type is an error that does not stop the
  decoder; the first such error is reported.\<close>

fun fill_fields :: "(string \<times> json) list \<Rightarrow> (string \<times> string) list \<Rightarrow> error option \<Rightarrow>
    (string \<times> string) list \<times> error option" where
  "fill_fields [] fs err = (fs, err)"
| "fill_fields ((k, v) # kvs) fs err =
     (case List.find (\<lambda>f. EqualFold f k) (map fst fs) of
        None \<Rightarrow> fill_fields kvs fs err
      | Some f \<Rightarrow>
          (case v of
             JString s \<Rightarrow> fill_fields kvs (map_set f s fs) err
           | JNull \<Rightarrow> fill_fields kvs fs err
           | _ \<Rightarrow> fill_fields kvs fs
                    (if err = None then Some (Err (''json: cannot unmarshal '' @ json_kind v @
                       '' into Go struct field .'' @ f @ '' of type string'')) else err)))"

definition unmarshal_error :: "json \<Rightarrow> string \<Rightarrow> error" where
  "unmarshal_error v ty = Err (''json: cannot unmarshal '' @ json_kind v @ '' into Go value of type '' @ ty)"

definition decode_struct :: "string \<Rightarrow> string list \<Rightarrow> json \<Rightarrow> (string \<times> string) list \<times> error option" where
  "decode_struct ty names v =
     (let zero = map (\<lambda>n. (n, [])) names in
      case v of
        JObject kvs \<Rightarrow> fill_fields kvs zero None
      | JNull \<Rightarrow> (zero, None)
      | _ \<Rightarrow> (zero, Some (unmarshal_error v ty)))"

definition decode_structs :: "string \<Rightarrow> string list \<Rightarrow> json \<Rightarrow> (string \<times> string) list list result" where
  "decode_structs ty names v =
     (case v of
        JArray vs \<Rightarrow>
          (let ds = map (decode_struct ty names) vs in
           case List.find (\<lambda>d. snd d \<noteq> None) ds of
             Some (_, Some e) \<Rightarrow> Inl e
           | _ \<Rightarrow> Inr (map fst ds))
      | JNull \<Rightarrow> Inr []
      | _ \<Rightarrow> Inl (unmarshal_error v (''[]'' @ ty)))"

definition field_of :: "string \<Rightarrow> (string \<times> string) list \<Rightarrow> string" where
  "field_of f fs = (case map_of fs f of Some s \<Rightarrow> s | None \<Rightarrow> [])"

subsection \<open>Percent encoding\<close>

definition unreserved :: "char \<Rightarrow> bool" where
  "unreserved c = (let n = (of_char c :: int) in
     (97 \<le> n \<and> n \<le> 122) \<or> (65 \<le> n \<and> n \<le> 90) \<or> (48 \<le> n \<and> n \<le> 57) \<or> List.member ''-_.~'' c)"

definition upper_hex :: "int \<Rightarrow> char" where
  "upper_hex n = (if n < 10 then char_of (48 + n) else char_of (55 + n))"

definition percent :: "char \<Rightarrow> string" where
  "percent c = (let n = (of_char c :: int) in [CHR ''%'', upper_hex (n div 16), upper_hex (n mod 16)])"

definition query_char :: "char \<Rightarrow> string" where
  "query_char c = (if unreserved c then [c] else if c = CHR '' '' then ''+'' else percent c)"

definition path_char :: "char \<Rightarrow> string" where
  "path_char c = (if unreserved c \<or> List.member ''$&+:=@'' c then [c] else percent c)"

definition QueryEscape :: "string \<Rightarrow> string" where
  "QueryEscape s = concat (map query_char s)"

definition PathEscape :: "string \<Rightarrow> string" where
  "PathEscape s = concat (map path_char s)"

text \<open>\<^verbatim>\<open>url.Values.Encode\<close> for values given in the order of their keys.\<close>

definition EncodeValues :: "(string \<times> string) list \<Rightarrow> string" where
  "EncodeValues kvs = Join (map (\<lambda>(k, v). QueryEscape k @ ''='' @ QueryEscape v) kvs) ''&''"

subsection \<open>Escaping is injective\<close>

definition hex_value :: "char \<Rightarrow> int" where
  "hex_value c = (let n = (of_char c :: int) in if n < 65 then n - 48 else n - 55)"

fun decode_percent :: "(char \<Rightarrow> char) \<Rightarrow> string \<Rightarrow> string" where
  "decode_percent plain [] = []"
| "decode_percent plain (c # cs) =
     (if c = CHR ''%''
      then (case cs of h # l # rest \<Rightarrow> char_of (16 * hex_value h + hex_value l) # decode_percent plain rest | _ \<Rightarrow> [])
      else plain c # decode_percent plain cs)"

lemma hex_value_upper_hex: "0 \<le> n \<Longrightarrow> n < 16 \<Longrightarrow> hex_value (upper_hex n) = n"
  by (auto simp: hex_value_def upper_hex_def Let_def)

lemma of_char_bounds: "(0::int) \<le> of_char c" "of_char c < (256::int)"
proof -
  have "of_char c mod 256 = (of_char c :: int)" by simp
  then show "(0::int) \<le> of_char c" "of_char c < (256::int)"
    using pos_mod_sign [of 256 "of_char c :: int"] pos_mod_bound [of 256 "of_char c :: int"] by simp_all
qed

lemma decode_percent_percent:
  "decode_percent plain (percent c @ cs) = c # decode_percent plain cs"
proof -
  have "16 * hex_value (upper_hex (of_char c div 16)) + hex_value (upper_hex (of_char c mod 16)) = (of_char c :: int)"
    using of_char_bounds [of c] by (simp add: hex_value_upper_hex)
  then show ?thesis by (simp add: percent_def Let_def)
qed

lemma query_char_decode:
  "decode_percent (\<lambda>c. if c = CHR ''+'' then CHR '' '' else c) (query_char c @ cs) =
     c # decode_percent (\<lambda>c. if c = CHR ''+'' then CHR '' '' else c) cs"
  by (auto simp: query_char_def decode_percent_percent unreserved_def Let_def)

lemma QueryEscape_decode: "decode_percent (\<lambda>c. if c = CHR ''+'' then CHR '' '' else c) (QueryEscape s) = s"
  by (induction s) (simp_all add: QueryEscape_def query_char_decode)

lemma path_char_decode: "decode_percent id (path_char c @ cs) = c # decode_percent id cs"
  by (auto simp: path_char_def decode_percent_percent unreserved_def Let_def)

lemma PathEscape_decode: "decode_percent id (PathEscape s) = s"
  by (induction s) (simp_all add: PathEscape_def path_char_decode [unfolded id_def] id_def)

lemma QueryEscape_inject: "QueryEscape s = QueryEscape t \<longleftrightarrow> s = t"
  by (metis QueryEscape_decode)

lemma PathEscape_inject: "PathEscape s = PathEscape t \<longleftrightarrow> s = t"
  by (metis PathEscape_decode)

lemma percent_safe: "x \<in> set (percent c) \<Longrightarrow> unreserved x \<or> x = CHR ''%''"
proof -
  have hex: "unreserved (upper_hex n)" if "0 \<le> n" "n < 16" for n
    using that by (auto simp: unreserved_def upper_hex_def Let_def)
  have "unreserved (upper_hex (of_char c div 16))" "unreserved (upper_hex (of_char c mod 16))"
    using of_char_bounds [of c] by (auto intro!: hex)
  then show "x \<in> set (percent c) \<Longrightarrow> ?thesis" by (auto simp: percent_def Let_def)
qed

lemma PathEscape_no_slash: "CHR ''/'' \<notin> set (PathEscape s)"
proof -
  have "\<not> unreserved (CHR ''/'')" by code_simp
  then have "CHR ''/'' \<notin> set (percent c)" for c using percent_safe [of "CHR ''/''" c] by auto
  then have "CHR ''/'' \<notin> set (path_char c)" for c
    using \<open>\<not> unreserved (CHR ''/'')\<close> by (auto simp: path_char_def)
  then show ?thesis by (auto simp: PathEscape_def)
qed

end
