(* ===== verification/Auth.thy ===== *)
theory Auth
  imports SessionRequest Encoding
begin

text \<open>
  The bearer token middleware of \<^verbatim>\<open>pkg/api/auth.go\<close>: which requests pass, the identity and the groups
  that it puts into the request context, and what follows for the session handlers behind it.  Checking
  a token against a key set (\<^verbatim>\<open>jwt.ParseWithClaims\<close>) and fetching the key set are parameters; the claims
  of an accepted token are a JSON object without repeated keys.
\<close>

subsection \<open>The groups of a token\<close>

text \<open>The elements of a JSON array that are non-empty strings.\<close>

fun string_values :: "json list \<Rightarrow> string list" where
  "string_values [] = []"
| "string_values (v # vs) =
     (case v of JString s \<Rightarrow> if s \<noteq> [] then s # string_values vs else string_values vs
      | _ \<Rightarrow> string_values vs)"

definition claim_groups :: "(string \<times> json) list \<Rightarrow> string list" where
  "claim_groups claims =
     (case map_of claims ''groups'' of
        Some rawGroups \<Rightarrow> (case rawGroups of JArray g \<Rightarrow> string_values g | _ \<Rightarrow> [])
      | None \<Rightarrow>
          (case map_of claims ''realm_access'' of
             Some (JObject m) \<Rightarrow> (case map_of m ''roles'' of Some (JArray roles) \<Rightarrow> string_values roles | _ \<Rightarrow> [])
           | _ \<Rightarrow> []))"

fun strip_slashes :: "string \<Rightarrow> string" where
  "strip_slashes [] = []"
| "strip_slashes (c # cs) = (if c = CHR ''/'' then strip_slashes cs else c # cs)"

definition LastIndex :: "string \<Rightarrow> char \<Rightarrow> int" where
  "LastIndex s c = (if List.member s c then int (length s) - 1 - int (length (takeWhile (\<lambda>x. x \<noteq> c) (rev s))) else -1)"

definition normalize_group :: "string \<Rightarrow> string" where
  "normalize_group g0 =
     (let g = strip_slashes (TrimSpace g0);
          idx = LastIndex g (CHR ''/'')
      in if idx \<noteq> -1 \<and> idx < int (length g) - 1 then drop (nat (idx + 1)) g else g)"

fun normalize_groups_loop :: "string list \<Rightarrow> string list \<Rightarrow> string list \<Rightarrow> string list" where
  "normalize_groups_loop normalized seen [] = normalized"
| "normalize_groups_loop normalized seen (g # gs) =
     (if TrimSpace g = [] then normalize_groups_loop normalized seen gs
      else let n = normalize_group g in
           if n = [] then normalize_groups_loop normalized seen gs
           else if List.member seen n then normalize_groups_loop normalized seen gs
           else normalize_groups_loop (normalized @ [n]) (n # seen) gs)"

definition token_groups :: "(string \<times> json) list \<Rightarrow> string list" where
  "token_groups claims =
     (let groups = claim_groups claims in
      if length groups > 0 then normalize_groups_loop [] [] groups else groups)"

subsection \<open>The middleware\<close>

record incoming =
  in_Method :: string
  in_Authorization :: string

record 'k AuthHandler =
  au_parse :: "'k \<Rightarrow> string \<Rightarrow> (string \<times> json) list result"
  au_refresh :: "'k \<Rightarrow> 'k \<times> error option"

datatype auth_outcome = Continue request_context | Abort int string

text \<open>\<^verbatim>\<open>c.GetString\<close> on a claim: the string, or nothing for another type or a missing claim.\<close>

definition claim_string :: "(string \<times> json) list \<Rightarrow> string \<Rightarrow> string" where
  "claim_string claims k = (case map_of claims k of Some (JString s) \<Rightarrow> s | _ \<Rightarrow> [])"

definition anonymous :: request_context where
  "anonymous = \<lparr>ctx_email = [], ctx_username = [], ctx_user_id = [], ctx_groups = None\<rparr>"

definition context_of :: "(string \<times> json) list \<Rightarrow> request_context" where
  "context_of claims =
     \<lparr>ctx_email = claim_string claims ''email'', ctx_username = claim_string claims ''preferred_username'',
      ctx_user_id = claim_string claims ''sub'',
      ctx_groups = (if length (token_groups claims) > 0 then Some (token_groups claims) else None)\<rparr>"

text \<open>A token whose key is unknown is checked once more after a refresh of the key set.\<close>

definition check_token :: "'k AuthHandler \<Rightarrow> 'k \<Rightarrow> string \<Rightarrow> (string \<times> json) list result \<times> 'k" where
  "check_token a keys bearer =
     (case au_parse a keys bearer of
        Inr claims \<Rightarrow> (Inr claims, keys)
      | Inl e \<Rightarrow>
          if StrContains (error_text e) ''key ID''
          then (case au_refresh a keys of
                  (keys', None) \<Rightarrow> (au_parse a keys' bearer, keys')
                | (keys', Some _) \<Rightarrow> (Inl e, keys'))
          else (Inl e, keys))"

definition Middleware :: "'k AuthHandler \<Rightarrow> 'k \<Rightarrow> incoming \<Rightarrow> auth_outcome \<times> 'k" where
  "Middleware a keys rq =
     (if in_Method rq = ''OPTIONS'' then (Continue anonymous, keys)
      else if \<not> HasPrefix (in_Authorization rq) ''Bearer ''
      then (Abort 400 ''No Bearer token provided in Authorization header'', keys)
      else (case check_token a keys (drop 7 (in_Authorization rq)) of
              (Inl e, keys') \<Rightarrow> (Abort 401 (error_text e), keys')
            | (Inr claims, keys') \<Rightarrow> (Continue (context_of claims), keys')))"

subsection \<open>Normalised group names\<close>

lemma strip_slashes_dropWhile: "strip_slashes s = dropWhile (\<lambda>c. c = CHR ''/'') s"
  by (induction s) auto

lemma LastIndex_split:
  assumes "c \<in> set s"
  shows "drop (nat (LastIndex s c + 1)) s = rev (takeWhile (\<lambda>x. x \<noteq> c) (rev s))"
    and "LastIndex s c < int (length s) - 1 \<longleftrightarrow> last s \<noteq> c"
    and "0 \<le> LastIndex s c"
proof -
  let ?t = "takeWhile (\<lambda>x. x \<noteq> c) (rev s)"
  have ne: "s \<noteq> []" using assms by auto
  obtain d where d: "dropWhile (\<lambda>x. x \<noteq> c) (rev s) = d" by simp
  have split: "s = rev d @ rev ?t"
    using takeWhile_dropWhile_id [of "\<lambda>x. x \<noteq> c" "rev s"] d by (metis rev_append rev_rev_ident)
  then have len: "length s = length d + length ?t" by (metis length_append length_rev)
  have "d \<noteq> []" using assms d dropWhile_eq_Nil_conv [of "\<lambda>x. x \<noteq> c" "rev s"] by auto
  then have "length ?t < length s" using len by simp
  then show "0 \<le> LastIndex s c" using assms by (simp add: LastIndex_def)
  have "nat (LastIndex s c + 1) = length d" using assms len by (simp add: LastIndex_def)
  with split show "drop (nat (LastIndex s c + 1)) s = rev ?t"
    by (metis append_eq_conv_conj length_rev)
  have "?t = [] \<longleftrightarrow> last s = c"
    using ne by (cases s rule: rev_cases) auto
  then show "LastIndex s c < int (length s) - 1 \<longleftrightarrow> last s \<noteq> c"
    using assms by (auto simp: LastIndex_def)
qed

lemma normalize_group_cases:
  fixes g :: string
  defines "s \<equiv> strip_slashes (TrimSpace g)"
  shows "normalize_group g =
    (if CHR ''/'' \<in> set s \<and> last s \<noteq> CHR ''/'' then rev (takeWhile (\<lambda>x. x \<noteq> CHR ''/'') (rev s)) else s)"
proof (cases "CHR ''/'' \<in> set s")
  case True
  then have "LastIndex s (CHR ''/'') \<noteq> -1" using LastIndex_split(3) [OF True] by simp
  with True LastIndex_split [OF True] show ?thesis
    by (simp add: normalize_group_def s_def [symmetric] Let_def)
next
  case False
  then show ?thesis by (simp add: normalize_group_def s_def [symmetric] LastIndex_def)
qed

text \<open>A normalised name has no leading slash, and an inner slash only when the original ends in one.\<close>

lemma normalize_group_shape:
  assumes "normalize_group g \<noteq> []"
  shows "hd (normalize_group g) \<noteq> CHR ''/''"
    and "CHR ''/'' \<in> set (normalize_group g) \<Longrightarrow> last (normalize_group g) = CHR ''/''"
proof -
  let ?s = "strip_slashes (TrimSpace g)"
  let ?t = "rev (takeWhile (\<lambda>x. x \<noteq> CHR ''/'') (rev ?s))"
  have t: "CHR ''/'' \<notin> set ?t" by (auto dest: set_takeWhileD)
  have "?s \<noteq> [] \<Longrightarrow> hd ?s \<noteq> CHR ''/''"
    using hd_dropWhile [of "\<lambda>c. c = CHR ''/''" "TrimSpace g"] by (simp add: strip_slashes_dropWhile)
  moreover have "?t \<noteq> [] \<Longrightarrow> hd ?t \<noteq> CHR ''/''" using t hd_in_set by metis
  ultimately show "hd (normalize_group g) \<noteq> CHR ''/''" using assms by (auto simp: normalize_group_cases split: if_splits)
  show "CHR ''/'' \<in> set (normalize_group g) \<Longrightarrow> last (normalize_group g) = CHR ''/''"
    using t by (auto simp: normalize_group_cases split: if_splits)
qed

lemma normalize_group_blank: "TrimSpace g = [] \<Longrightarrow> normalize_group g = []"
  by (simp add: normalize_group_cases)

lemma normalize_groups_loop_spec:
  assumes "distinct out" "set seen = set out"
  shows "distinct (normalize_groups_loop out seen gs) \<and>
    set (normalize_groups_loop out seen gs) = set out \<union> (normalize_group ` set gs - {[]})"
  using assms
proof (induction gs arbitrary: out seen)
  case (Cons g gs)
  show ?case
  proof (cases "normalize_group g = [] \<or> List.member seen (normalize_group g)")
    case True
    then have "normalize_groups_loop out seen (g # gs) = normalize_groups_loop out seen gs"
      by (auto simp: Let_def)
    with Cons.IH [OF Cons.prems] True Cons.prems(2) show ?thesis by auto
  next
    case False
    then have "TrimSpace g \<noteq> []" using normalize_group_blank by blast
    with False have "normalize_groups_loop out seen (g # gs) =
        normalize_groups_loop (out @ [normalize_group g]) (normalize_group g # seen) gs"
      by (simp add: Let_def)
    with Cons.IH [of "out @ [normalize_group g]" "normalize_group g # seen"] False Cons.prems show ?thesis by auto
  qed
qed simp

lemma token_groups_spec:
  "distinct (token_groups claims) \<and> set (token_groups claims) = normalize_group ` set (claim_groups claims) - {[]}"
  using normalize_groups_loop_spec [of "[]" "[]" "claim_groups claims"] by (auto simp: token_groups_def Let_def)

text \<open>A trailing slash defeats the reduction to the last path segment.\<close>

lemma trailing_slash_keeps_path: "normalize_group ''/team/admin/'' = ''team/admin/''"
  by code_simp

text \<open>Groups of different paths with the same last segment become the same group.\<close>

lemma paths_collapse:
  assumes "CHR ''/'' \<notin> set g" "g \<noteq> []" "TrimSpace (''/'' @ p @ ''/'' @ g) = ''/'' @ p @ ''/'' @ g"
  shows "normalize_group (''/'' @ p @ ''/'' @ g) = g"
proof -
  let ?s = "strip_slashes (''/'' @ p @ ''/'' @ g)"
  have suffix: "\<exists>q. ?s = q @ g \<and> (q \<noteq> [] \<longrightarrow> last q = CHR ''/'')"
  proof (cases "strip_slashes p = []")
    case True
    have "strip_slashes (p @ ''/'' @ g) = g"
      using True assms(1,2) by (induction p) (auto simp: neq_Nil_conv split: if_splits)
    then show ?thesis by simp
  next
    case False
    then have "strip_slashes (p @ ''/'' @ g) = strip_slashes p @ ''/'' @ g"
      by (induction p) (auto split: if_splits)
    then show ?thesis by simp
  qed
  then obtain q where q: "?s = q @ g" "q \<noteq> [] \<longrightarrow> last q = CHR ''/''" by blast
  have "last ?s \<noteq> CHR ''/''" using q(1) assms(1,2) by (metis last_appendR last_in_set)
  moreover have "rev (takeWhile (\<lambda>x. x \<noteq> CHR ''/'') (rev ?s)) = g" if "q \<noteq> []"
  proof -
    have "rev q = CHR ''/'' # tl (rev q)" using that q(2) by (metis hd_rev list.collapse rev_is_Nil_conv)
    then have "takeWhile (\<lambda>x. x \<noteq> CHR ''/'') (rev g @ rev q) = rev g"
      using assms(1) takeWhile_append2 [of "rev g" "\<lambda>x. x \<noteq> CHR ''/''" "rev q"] by (metis (full_types) append_Nil2 set_rev takeWhile.simps(2))
    then show ?thesis using q(1) by simp
  qed
  ultimately show ?thesis
    using q assms(1,3) last_in_set [of q] by (cases "q = []") (auto simp: normalize_group_cases)
qed

subsection \<open>Who passes the middleware\<close>

lemma middleware_continue:
  "fst (Middleware a keys rq) = Continue c \<longleftrightarrow>
     in_Method rq = ''OPTIONS'' \<and> c = anonymous \<or>
     in_Method rq \<noteq> ''OPTIONS'' \<and>
     (\<exists>token claims. in_Authorization rq = ''Bearer '' @ token \<and> c = context_of claims \<and>
        (au_parse a keys token = Inr claims \<or>
         (\<exists>e keys'. au_parse a keys token = Inl e \<and> StrContains (error_text e) ''key ID'' \<and>
            au_refresh a keys = (keys', None) \<and> au_parse a keys' token = Inr claims)))"
proof -
  have check: "fst (check_token a keys t) = Inr claims \<longleftrightarrow> au_parse a keys t = Inr claims \<or>
      (\<exists>e keys'. au_parse a keys t = Inl e \<and> StrContains (error_text e) ''key ID'' \<and>
         au_refresh a keys = (keys', None) \<and> au_parse a keys' t = Inr claims)" for t claims
    by (auto simp: check_token_def split: sum.splits prod.splits option.splits)
  have bearer: "HasPrefix h ''Bearer '' \<longleftrightarrow> h = ''Bearer '' @ drop 7 h" for h :: string
    by (auto simp: prefix_def)
  show ?thesis
  proof (cases "HasPrefix (in_Authorization rq) ''Bearer ''")
    case True
    let ?t = "drop 7 (in_Authorization rq)"
    from True bearer have h: "in_Authorization rq = ''Bearer '' @ ?t" by blast
    have "fst (Middleware a keys rq) = Continue c \<longleftrightarrow> in_Method rq = ''OPTIONS'' \<and> c = anonymous \<or>
        in_Method rq \<noteq> ''OPTIONS'' \<and> (\<exists>claims. c = context_of claims \<and> fst (check_token a keys ?t) = Inr claims)"
      using True by (auto simp: Middleware_def split: prod.splits sum.splits)
    moreover have "in_Authorization rq = ''Bearer '' @ token \<longleftrightarrow> token = ?t" for token
      using h by (metis append_eq_append_conv same_append_eq)
    ultimately show ?thesis by (simp only: check) blast
  next
    case False
    then show ?thesis by (auto simp: Middleware_def prefix_def)
  qed
qed

subsection \<open>Properties\<close>

text \<open>C18. The middleware lets a request through in two cases only: an OPTIONS request, without any identity,
  and a request with a bearer token that the key set accepts, at once or after the one refresh that an
  unknown key ID triggers; identity and groups in the context are then those of the claims.\<close>

theorem middleware_passes_iff:
  "fst (Middleware a keys rq) = Continue c \<longleftrightarrow>
     in_Method rq = ''OPTIONS'' \<and> c = anonymous \<or>
     in_Method rq \<noteq> ''OPTIONS'' \<and>
     (\<exists>token claims. in_Authorization rq = ''Bearer '' @ token \<and> c = context_of claims \<and>
        (au_parse a keys token = Inr claims \<or>
         (\<exists>e keys'. au_parse a keys token = Inl e \<and> StrContains (error_text e) ''key ID'' \<and>
            au_refresh a keys = (keys', None) \<and> au_parse a keys' token = Inr claims)))"
  by (rule middleware_continue)


definition ex_claims :: "(string \<times> json) list" where
  "ex_claims = [(''sub'', JString ''1''), (''email'', JString ''dev@ex.org''), (''preferred_username'', JString ''dev''),
     (''groups'', JArray [JString ''/org/dev'', JNumber ''7'', JString '' ops '', JString ''dev''])]"


text \<open>C24. A caller without an email identity, such as one that passed the middleware on an OPTIONS request
  or with a token without email claim, changes nothing: no action and no request succeeds, and the state is
  the same afterwards.\<close>

theorem identity_required:
  assumes "ctx_email c = []"
  shows "snd (serve_action now wc c name act w) = w \<and> status_code (fst (serve_action now wc c name act w)) \<noteq> 200 \<and>
    snd (handleRequestBreakglassSession now wc c body w) = w \<and>
    status_code (fst (handleRequestBreakglassSession now wc c body w)) \<noteq> 201"
proof -
  have no: "\<not> isSessionApprover wc c s w" for s using assms isSessionApprover_iff by blast
  have "\<not> action_permitted wc c act bs w" for bs
    using no assms by (cases act) (auto simp: is_owner_def)
  then have "GetBreakglassSessionByName (wc_client wc) name w = Inr bs \<Longrightarrow>
      snd (serve_action now wc c name act w) = w \<and> status_code (fst (serve_action now wc c name act w)) \<noteq> 200" for bs
    using serve_action_refused by blast
  moreover have "GetBreakglassSessionByName (wc_client wc) name w = Inl e \<Longrightarrow>
      snd (serve_action now wc c name act w) = w \<and> status_code (fst (serve_action now wc c name act w)) \<noteq> 200" for e
    using serve_action_not_found [of wc name w e now c act] by simp
  ultimately have action: "snd (serve_action now wc c name act w) = w \<and> status_code (fst (serve_action now wc c name act w)) \<noteq> 200"
    using sum.exhaust by blast
  have "\<And>r. check_request wc c body w = Inl r \<Longrightarrow> status_code r \<noteq> 201"
    by (auto simp: check_request_def plan_request_def Let_def split: option.splits sum.splits if_splits)
  moreover have "status_code (existing_response s) \<noteq> 201" for s by (simp add: existing_response_def Let_def)
  ultimately have request: "snd (handleRequestBreakglassSession now wc c body w) = w \<and>
      status_code (fst (handleRequestBreakglassSession now wc c body w)) \<noteq> 201"
    using assms by (auto simp: handleRequestBreakglassSession_def GetEmail_def split: sum.splits)
  show ?thesis using action request by simp
qed

theorem identity_required_witness:
  "snd (serve_action ex_now ex_wc anonymous ''s1'' (Approve ''ok'') (ex_world [ex_pending])) = ex_world [ex_pending]"
  using identity_required [of anonymous ex_now ex_wc "''s1''" "Approve ''ok''" "ex_world [ex_pending]" None]
  by (simp add: anonymous_def)

end
