(* ===== verification/ApiServer.thy ===== *)
theory ApiServer
  imports Auth
begin

text \<open>
  The HTTP server: \<^verbatim>\<open>pkg/api/api.go\<close>, \<^verbatim>\<open>spa.go\<close> and the TLS settings of \<^verbatim>\<open>NewAuth\<close>, with the routes
  that the three controllers register.  The router of gin, URL parsing, certificate pools, the file
  system and the requests to the authority are parameters; what the routes rely on is the locale
  \<open>route_dispatch\<close>.
\<close>

subsection \<open>Routes\<close>

datatype middleware = AuthMiddleware

datatype handler =
    OIDCProxy | Metrics | GetConfig
  | GetBreakglassSessionStatus | GetBreakglassSessionByName | RequestBreakglassSession
  | ApproveBreakglassSession | RejectBreakglassSession | WithdrawMyRequest | DropMySession | ApproverCancel
  | GetEscalations | Authorize

text \<open>A group keeps the relative paths it was built from, outermost first, and its middlewares.\<close>

record RouterGroup =
  rg_path :: "string list"
  rg_handlers :: "middleware list"

record route =
  rt_Method :: string
  rt_path :: "string list"
  rt_middlewares :: "middleware list"
  rt_handler :: handler

definition engine_group :: RouterGroup where
  "engine_group = \<lparr>rg_path = [], rg_handlers = []\<rparr>"

definition Group :: "RouterGroup \<Rightarrow> string \<Rightarrow> middleware list \<Rightarrow> RouterGroup" where
  "Group rg path hs = \<lparr>rg_path = rg_path rg @ [path], rg_handlers = rg_handlers rg @ hs\<rparr>"

definition handle :: "string \<Rightarrow> RouterGroup \<Rightarrow> string \<Rightarrow> handler \<Rightarrow> route" where
  "handle method rg path h =
     \<lparr>rt_Method = method, rt_path = rg_path rg @ [path], rt_middlewares = rg_handlers rg, rt_handler = h\<rparr>"

record APIController =
  ctl_BasePath :: string
  ctl_Register :: "RouterGroup \<Rightarrow> route list result"
  ctl_Handlers :: "middleware list"

definition session_Register :: "RouterGroup \<Rightarrow> route list result" where
  "session_Register rg = Inr [
     handle ''GET'' rg [] GetBreakglassSessionStatus,
     handle ''GET'' rg '':name'' GetBreakglassSessionByName,
     handle ''POST'' rg [] RequestBreakglassSession,
     handle ''POST'' rg '':name/approve'' ApproveBreakglassSession,
     handle ''POST'' rg '':name/reject'' RejectBreakglassSession,
     handle ''POST'' rg '':name/withdraw'' WithdrawMyRequest,
     handle ''POST'' rg '':name/drop'' DropMySession,
     handle ''POST'' rg '':name/cancel'' ApproverCancel]"

definition escalation_Register :: "RouterGroup \<Rightarrow> route list result" where
  "escalation_Register rg = Inr [handle ''GET'' rg [] GetEscalations]"

definition webhook_Register :: "RouterGroup \<Rightarrow> route list result" where
  "webhook_Register rg = Inr [handle ''POST'' rg ''/authorize/:cluster_name'' Authorize]"

definition session_controller :: APIController where
  "session_controller = \<lparr>ctl_BasePath = ''breakglassSessions'', ctl_Register = session_Register,
     ctl_Handlers = [AuthMiddleware]\<rparr>"

definition escalation_controller :: APIController where
  "escalation_controller = \<lparr>ctl_BasePath = ''breakglassEscalations'', ctl_Register = escalation_Register,
     ctl_Handlers = [AuthMiddleware]\<rparr>"

definition webhook_controller :: APIController where
  "webhook_controller = \<lparr>ctl_BasePath = ''breakglass/webhook'', ctl_Register = webhook_Register, ctl_Handlers = []\<rparr>"

text \<open>The routes that \<^verbatim>\<open>NewServer\<close> adds itself, and the registration of the controllers; a failed
  registration keeps the routes added so far.\<close>

definition server_routes :: "route list" where
  "server_routes = [
     handle ''GET'' engine_group ''api/oidc/authority/*proxyPath'' OIDCProxy,
     handle ''GET'' engine_group ''/api/metrics'' Metrics,
     handle ''GET'' engine_group ''api/config'' GetConfig]"

fun RegisterAll :: "APIController list \<Rightarrow> route list \<Rightarrow> route list \<times> error option" where
  "RegisterAll [] routes = (routes, None)"
| "RegisterAll (c # cs) routes =
     (case ctl_Register c (Group (Group engine_group ''api'' []) (ctl_BasePath c) (ctl_Handlers c)) of
        Inl err \<Rightarrow> (routes, Some err)
      | Inr added \<Rightarrow>
          if ctl_BasePath c = ''breakglass/webhook''
          then (case ctl_Register c (Group (Group engine_group [] []) (ctl_BasePath c) (ctl_Handlers c)) of
                  Inl err \<Rightarrow> (routes @ added, Some err)
                | Inr legacy \<Rightarrow> RegisterAll cs (routes @ added @ legacy))
          else RegisterAll cs (routes @ added))"

definition main_controllers :: "APIController list" where
  "main_controllers = [session_controller, escalation_controller, webhook_controller]"

definition main_routes :: "route list" where
  "main_routes = fst (RegisterAll main_controllers server_routes)"

subsection \<open>TLS towards the authorization server\<close>

datatype tls_mode = SystemRoots | CustomRoots string | SkipVerify

text \<open>\<open>pem_ok\<close> is the answer of \<^verbatim>\<open>AppendCertsFromPEM\<close>.  \<^verbatim>\<open>NewAuth\<close> ends the process when it fails.\<close>

definition NewAuth_tls :: "(string \<Rightarrow> bool) \<Rightarrow> Config \<Rightarrow> tls_mode result" where
  "NewAuth_tls pem_ok cfg =
     (let ca = CertificateAuthority (cfg_AuthorizationServer cfg) in
      if ca \<noteq> [] then
        (if pem_ok ca then Inr (CustomRoots ca)
         else Inl (Err ''Could not parse certificateAuthority PEM from configuration''))
      else if as_InsecureSkipVerify (cfg_AuthorizationServer cfg) then Inr SkipVerify
      else Inr SystemRoots)"

definition jwks_url :: "Config \<Rightarrow> string" where
  "jwks_url cfg = as_URL (cfg_AuthorizationServer cfg) @ ''/'' @ JWKSEndpoint (cfg_AuthorizationServer cfg)"

definition proxy_tls :: "(string \<Rightarrow> bool) \<Rightarrow> Config \<Rightarrow> tls_mode" where
  "proxy_tls pem_ok cfg =
     (let ca = CertificateAuthority (cfg_AuthorizationServer cfg) in
      if ca \<noteq> [] then (if pem_ok ca then CustomRoots ca else SystemRoots) else SkipVerify)"

subsection \<open>The server\<close>

text \<open>A parsed URL is kept as what its \<^verbatim>\<open>String\<close> method gives.\<close>

record Server =
  srv_config :: Config
  srv_oidcAuthority :: "string option"

definition NewServer :: "(string \<Rightarrow> string result) \<Rightarrow> Config \<Rightarrow> Server" where
  "NewServer parse_url cfg =
     \<lparr>srv_config = cfg,
      srv_oidcAuthority =
        (if OIDCAuthority (cfg_Frontend cfg) \<noteq> []
         then (case parse_url (OIDCAuthority (cfg_Frontend cfg)) of Inr u \<Rightarrow> Some u | Inl _ \<Rightarrow> None)
         else None)\<rparr>"

record PublicConfig =
  pub_OIDCAuthority :: string
  pub_OIDCClientID :: string
  pub_BrandingName :: string
  pub_URL :: string
  pub_JWKSEndpoint :: string

definition getConfig :: "Server \<Rightarrow> PublicConfig" where
  "getConfig s =
     (let cfg = srv_config s;
          frontendAuthority = (if srv_oidcAuthority s \<noteq> None then ''/api/oidc/authority''
                               else OIDCAuthority (cfg_Frontend cfg))
      in \<lparr>pub_OIDCAuthority = frontendAuthority, pub_OIDCClientID = OIDCClientID (cfg_Frontend cfg),
          pub_BrandingName = BrandingName (cfg_Frontend cfg), pub_URL = as_URL (cfg_AuthorizationServer cfg),
          pub_JWKSEndpoint = JWKSEndpoint (cfg_AuthorizationServer cfg)\<rparr>)"

record upstream =
  up_StatusCode :: int
  up_Header :: "(string \<times> string list) list"
  up_Body :: string
  up_body_error :: "error option"

text \<open>\<open>Streamed\<close> is a response copied from the authority; \<open>Broken\<close> one whose body ended in an error, which
  can change the status only when nothing was written before.\<close>

datatype proxy_response =
    ProxyError int string
  | Streamed int "(string \<times> string) list" string
  | Broken int "(string \<times> string) list" string string

fun copy_header :: "(string \<times> string list) list \<Rightarrow> (string \<times> string) list" where
  "copy_header [] = []"
| "copy_header ((k, vs) # h) = map (\<lambda>v. (k, v)) vs @ copy_header h"

definition proxy_target :: "string \<Rightarrow> string \<Rightarrow> string" where
  "proxy_target authority proxyPath = TrimRight authority ''/'' @ proxyPath"

definition proxy_accept :: "string \<Rightarrow> (string \<times> string) list" where
  "proxy_accept accept = (if accept \<noteq> [] then [(''Accept'', accept)] else [])"

text \<open>\<open>new_request\<close> is the check of the URL by \<^verbatim>\<open>http.NewRequestWithContext\<close>; \<open>fetch\<close> sends the request.\<close>

definition handleOIDCProxy ::
  "(string \<Rightarrow> bool) \<Rightarrow> (string \<Rightarrow> error option) \<Rightarrow>
   (tls_mode \<Rightarrow> string \<Rightarrow> (string \<times> string) list \<Rightarrow> upstream result) \<Rightarrow>
   Server \<Rightarrow> string \<Rightarrow> string \<Rightarrow> proxy_response" where
  "handleOIDCProxy pem_ok new_request fetch s proxyPath accept =
     (case srv_oidcAuthority s of
        None \<Rightarrow> ProxyError 404 ''OIDC authority not configured''
      | Some authority \<Rightarrow>
          let target = proxy_target authority proxyPath in
          (case new_request target of
             Some _ \<Rightarrow> ProxyError 500 ''failed to build proxy request''
           | None \<Rightarrow>
               (case fetch (proxy_tls pem_ok (srv_config s)) target (proxy_accept accept) of
                  Inl _ \<Rightarrow> ProxyError 502 ''failed to fetch from authority''
                | Inr resp \<Rightarrow>
                    (case up_body_error resp of
                       None \<Rightarrow> Streamed (up_StatusCode resp) (copy_header (up_Header resp)) (up_Body resp)
                     | Some _ \<Rightarrow>
                         Broken (if up_Body resp = [] then 502 else up_StatusCode resp) (copy_header (up_Header resp))
                           (up_Body resp) ''failed to stream response from authority''))))"

datatype page = NotFoundJSON string | StaticFile string

definition ServeSPA :: "(string \<Rightarrow> bool) \<Rightarrow> string \<Rightarrow> page" where
  "ServeSPA exists_file path = (if exists_file path then StaticFile path else StaticFile ''/'')"

definition no_route :: "(string \<Rightarrow> bool) \<Rightarrow> string \<Rightarrow> page" where
  "no_route exists_file path =
     (if 5 \<le> length path \<and> take 5 path = ''/api/'' then NotFoundJSON path else ServeSPA exists_file path)"

definition request_cid :: "string \<Rightarrow> string \<Rightarrow> string" where
  "request_cid fresh header = (if header = [] then fresh else header)"

subsection \<open>What the router promises\<close>

text \<open>\<open>reaches r rq c\<close>: the router runs the handler of route \<open>r\<close> for the request \<open>rq\<close> in the context \<open>c\<close>.  It does
  so for requests of the registered method only, and after the middleware of the group has continued.\<close>

locale route_dispatch =
  fixes reaches :: "route \<Rightarrow> incoming \<Rightarrow> request_context \<Rightarrow> bool"
    and auth :: "'k AuthHandler" and keys :: 'k
  assumes reached_method: "reaches r rq c \<Longrightarrow> in_Method rq = rt_Method r"
    and reached_auth: "reaches r rq c \<Longrightarrow> rt_middlewares r = [AuthMiddleware] \<Longrightarrow>
      fst (Middleware auth keys rq) = Continue c"
begin

lemma authenticated:
  assumes "reaches r rq c" "rt_middlewares r = [AuthMiddleware]" "rt_Method r \<noteq> ''OPTIONS''"
  shows "\<exists>token claims. in_Authorization rq = ''Bearer '' @ token \<and> c = context_of claims \<and>
    (au_parse auth keys token = Inr claims \<or>
     (\<exists>e keys'. au_parse auth keys token = Inl e \<and> StrContains (error_text e) ''key ID'' \<and>
        au_refresh auth keys = (keys', None) \<and> au_parse auth keys' token = Inr claims))"
  using iffD1 [OF middleware_continue reached_auth [OF assms(1,2)]] reached_method [OF assms(1)] assms(3) by simp

end

text \<open>A router that runs the chain of a route in order.\<close>

fun run_chain :: "'k AuthHandler \<Rightarrow> 'k \<Rightarrow> middleware list \<Rightarrow> incoming \<Rightarrow> request_context \<Rightarrow> auth_outcome" where
  "run_chain a keys [] rq c = Continue c"
| "run_chain a keys (AuthMiddleware # ms) rq c =
     (case Middleware a keys rq of
        (Continue c', keys') \<Rightarrow> run_chain a keys' ms rq c'
      | (Abort code msg, keys') \<Rightarrow> Abort code msg)"

definition chain_reaches :: "'k AuthHandler \<Rightarrow> 'k \<Rightarrow> route \<Rightarrow> incoming \<Rightarrow> request_context \<Rightarrow> bool" where
  "chain_reaches a keys r rq c \<longleftrightarrow>
     in_Method rq = rt_Method r \<and> run_chain a keys (rt_middlewares r) rq anonymous = Continue c"

interpretation chain: route_dispatch "chain_reaches a keys" a keys for a :: "'k AuthHandler" and keys :: 'k
proof
  fix r rq c
  assume *: "chain_reaches a keys r rq c"
  then show "in_Method rq = rt_Method r" by (simp add: chain_reaches_def)
  assume "rt_middlewares r = [AuthMiddleware]"
  with * show "fst (Middleware a keys rq) = Continue c"
    by (auto simp: chain_reaches_def split: prod.splits auth_outcome.splits)
qed

subsection \<open>The registered routes\<close>

lemma main_routes_protected:
  assumes "r \<in> set main_routes" "rt_handler r \<notin> {OIDCProxy, Metrics, GetConfig, Authorize}"
  shows "rt_middlewares r = [AuthMiddleware] \<and> rt_Method r \<noteq> ''OPTIONS''"
proof -
  have "list_all (\<lambda>r. rt_handler r \<in> {OIDCProxy, Metrics, GetConfig, Authorize} \<or>
      rt_middlewares r = [AuthMiddleware] \<and> rt_Method r \<noteq> ''OPTIONS'') main_routes" by code_simp
  with assms show ?thesis by (auto simp: list_all_iff)
qed

lemma no_route_api: "no_route ex path = NotFoundJSON p \<longleftrightarrow> HasPrefix path ''/api/'' \<and> p = path"
proof -
  have "5 \<le> length path \<and> take 5 path = ''/api/'' \<longleftrightarrow> HasPrefix path ''/api/''"
  proof
    assume "5 \<le> length path \<and> take 5 path = ''/api/''"
    then show "HasPrefix path ''/api/''" by (metis take_is_prefix)
  qed (auto simp: prefix_def)
  then show ?thesis by (auto simp: no_route_def ServeSPA_def)
qed

subsection \<open>Properties\<close>


text \<open>C12. Every handler for sessions and escalations runs only for a request with a bearer token that the key
  set accepts (after at most one refresh), in the context of that token's claims: the exception that the
  middleware makes for OPTIONS requests reaches none of them, as they are registered for GET and POST.\<close>

theorem handlers_authenticated:
  assumes "route_dispatch reaches auth keys" "r \<in> set main_routes"
    and "rt_handler r \<notin> {OIDCProxy, Metrics, GetConfig, Authorize}" "reaches r rq c"
  shows "\<exists>token claims. in_Authorization rq = ''Bearer '' @ token \<and> c = context_of claims \<and>
    (au_parse auth keys token = Inr claims \<or>
     (\<exists>e keys'. au_parse auth keys token = Inl e \<and> StrContains (error_text e) ''key ID'' \<and>
        au_refresh auth keys = (keys', None) \<and> au_parse auth keys' token = Inr claims))"
  using route_dispatch.authenticated [OF assms(1,4)] main_routes_protected [OF assms(2,3)] by blast

definition ex_auth :: "unit AuthHandler" where
  "ex_auth = \<lparr>au_parse = (\<lambda>_ t. if t = ''good'' then Inr [(''email'', JString ''dev@ex.org'')] else Inl (Err ''bad token'')),
     au_refresh = (\<lambda>k. (k, None))\<rparr>"

definition ex_incoming :: incoming where
  "ex_incoming = \<lparr>in_Method = ''GET'', in_Authorization = ''Bearer good''\<rparr>"

theorem handlers_authenticated_witness:
  "\<exists>token claims. in_Authorization ex_incoming = ''Bearer '' @ token \<and> au_parse ex_auth () token = Inr claims \<and>
     ctx_email (context_of claims) = ''dev@ex.org''"
proof -
  let ?c = "context_of [(''email'', JString ''dev@ex.org'')]"
  let ?r = "handle ''GET'' (Group (Group engine_group ''api'' []) ''breakglassSessions'' [AuthMiddleware]) [] GetBreakglassSessionStatus"
  have r: "?r \<in> set main_routes" "rt_handler ?r \<notin> {OIDCProxy, Metrics, GetConfig, Authorize}"
    "chain_reaches ex_auth () ?r ex_incoming ?c" by code_simp+
  have e: "ctx_email ?c = ''dev@ex.org''" by code_simp
  from handlers_authenticated [OF chain.route_dispatch_axioms r] obtain token claims
    where t: "in_Authorization ex_incoming = ''Bearer '' @ token" "?c = context_of claims"
    "au_parse ex_auth () token = Inr claims" by (auto simp: ex_auth_def split: if_splits)
  with e show ?thesis by metis
qed

text \<open>The configuration that the server publishes without authentication depends on the frontend section and
  on the URL and key endpoint of the authorization server only: mail and Keycloak credentials, listener,
  Kubernetes and TLS settings never influence it.\<close>

theorem public_config_leaks_nothing:
  assumes "cfg_Frontend cfg = cfg_Frontend cfg'"
    and "as_URL (cfg_AuthorizationServer cfg) = as_URL (cfg_AuthorizationServer cfg')"
    and "JWKSEndpoint (cfg_AuthorizationServer cfg) = JWKSEndpoint (cfg_AuthorizationServer cfg')"
  shows "getConfig (NewServer parse_url cfg) = getConfig (NewServer parse_url cfg')"
  using assms by (simp add: getConfig_def NewServer_def Let_def split: sum.split)

theorem public_config_leaks_nothing_witness:
  "getConfig (NewServer Inr (zero_Config\<lparr>cfg_Mail := (cfg_Mail zero_Config)\<lparr>Password := ''secret''\<rparr>\<rparr>)) =
   getConfig (NewServer Inr zero_Config)"
  by (rule public_config_leaks_nothing) simp_all

text \<open>The OIDC proxy only ever asks the configured authority: its answer depends on the upstream at URLs below
  the authority alone, for every request path that the wildcard route can match.\<close>

theorem proxy_stays_below_authority:
  assumes "srv_oidcAuthority s = Some authority" "HasPrefix proxyPath ''/''"
    and "\<And>mode url hdrs. HasPrefix url (TrimRight authority ''/'' @ ''/'') \<Longrightarrow> fetch mode url hdrs = fetch' mode url hdrs"
  shows "handleOIDCProxy pem_ok new_request fetch s proxyPath accept =
    handleOIDCProxy pem_ok new_request fetch' s proxyPath accept"
proof -
  from assms(2) obtain p where "proxyPath = ''/'' @ p" by (auto simp: prefix_def)
  then have "HasPrefix (proxy_target authority proxyPath) (TrimRight authority ''/'' @ ''/'')"
    by (simp add: proxy_target_def)
  from assms(3) [OF this] show ?thesis by (simp add: handleOIDCProxy_def assms(1) Let_def split: option.split)
qed

definition ex_server :: Server where
  "ex_server = \<lparr>srv_config = zero_Config, srv_oidcAuthority = Some ''https://kc/''\<rparr>"

definition ex_fetch :: "tls_mode \<Rightarrow> string \<Rightarrow> (string \<times> string) list \<Rightarrow> upstream result" where
  "ex_fetch mode url hdrs = (if HasPrefix url ''https://kc/''
     then Inr \<lparr>up_StatusCode = 200, up_Header = [], up_Body = url, up_body_error = None\<rparr> else Inl (Err ''no route''))"

definition ex_everywhere :: "tls_mode \<Rightarrow> string \<Rightarrow> (string \<times> string) list \<Rightarrow> upstream result" where
  "ex_everywhere mode url hdrs = Inr \<lparr>up_StatusCode = 200, up_Header = [], up_Body = url, up_body_error = None\<rparr>"

theorem proxy_stays_below_authority_witness:
  "handleOIDCProxy (\<lambda>_. True) (\<lambda>_. None) ex_fetch ex_server ''/certs'' [] =
   handleOIDCProxy (\<lambda>_. True) (\<lambda>_. None) ex_everywhere ex_server ''/certs'' []"
proof (rule proxy_stays_below_authority)
  show "srv_oidcAuthority ex_server = Some ''https://kc/''" by (simp add: ex_server_def)
  show "HasPrefix ''/certs'' ''/''" by simp
  have trim: "TrimRight ''https://kc/'' ''/'' @ ''/'' = ''https://kc/''" by code_simp
  show "\<And>mode url hdrs. HasPrefix url (TrimRight ''https://kc/'' ''/'' @ ''/'') \<Longrightarrow>
      ex_fetch mode url hdrs = ex_everywhere mode url hdrs"
    unfolding trim by (simp add: ex_fetch_def ex_everywhere_def)
qed

text \<open>The key set and the proxy talk to the same server under different TLS rules: without a configured
  certificate authority the proxy does not verify the server, whatever \<^verbatim>\<open>insecureSkipVerify\<close> says.\<close>

lemma proxy_tls_differs:
  assumes "NewAuth_tls pem_ok cfg = Inr mode"
  shows "proxy_tls pem_ok cfg = mode \<longleftrightarrow>
    CertificateAuthority (cfg_AuthorizationServer cfg) \<noteq> [] \<or> as_InsecureSkipVerify (cfg_AuthorizationServer cfg)"
  using assms by (auto simp: NewAuth_tls_def proxy_tls_def Let_def split: if_splits)

end
