(* ===== verification/Middlewares.thy ===== *)
theory Middlewares
  imports ApiServer
begin

text \<open>
  The chain of middlewares that \<^verbatim>\<open>NewServer\<close> (\<^verbatim>\<open>pkg/api/api.go\<close>) puts in front of every route, and the request
  loggers of \<^verbatim>\<open>pkg/system/logging.go\<close> that the handlers take from it.  How gin runs a chain is the locale
  \<open>gin_engine\<close>; the access log, the recovery and the CORS middleware are libraries and parameters.  The times in
  log lines are left out.
\<close>

subsection \<open>Contexts and handler functions\<close>

text \<open>A logger is the list of fields that it adds to every line.\<close>

type_synonym logger = "(string \<times> string) list"

datatype ctx_value = VString string | VStrings "string list" | VLogger logger | VOther

datatype answer_body = NoBody | ErrorJSON string string string | Written string

record gin_error =
  ge_Err :: string
  ge_Meta :: "string option"

record gin_context =
  gc_request_id :: string
  gc_Method :: string
  gc_FullPath :: string
  gc_ClientIP :: string
  gc_Keys :: "(string \<times> ctx_value) list"
  gc_header :: "(string \<times> string) list"
  gc_Errors :: "gin_error list"
  gc_aborted :: bool
  gc_status :: int
  gc_body :: answer_body
  gc_lines :: "(logger \<times> string) list"

text \<open>A handler function with a call of \<^verbatim>\<open>c.Next()\<close> is the code before and the code after the call.\<close>

datatype handler_func =
    Plain "gin_context \<Rightarrow> gin_context"
  | Around "gin_context \<Rightarrow> gin_context" "gin_context \<Rightarrow> gin_context"

text \<open>\<^verbatim>\<open>c.Next()\<close> runs the pending handlers inside the calling one, a handler that returns without it is followed by
  the next one, and after \<^verbatim>\<open>c.Abort()\<close> no pending handler runs.\<close>

locale gin_engine =
  fixes run :: "handler_func list \<Rightarrow> gin_context \<Rightarrow> gin_context"
  assumes run_end: "run [] c = c"
    and run_aborted: "gc_aborted c \<Longrightarrow> run hs c = c"
    and run_plain: "\<not> gc_aborted c \<Longrightarrow> run (Plain f # hs) c = run hs (f c)"
    and run_around: "\<not> gc_aborted c \<Longrightarrow> run (Around before after # hs) c = after (run hs (before c))"

subsection \<open>Request loggers\<close>

definition ReqLoggerKey :: string where
  "ReqLoggerKey = ''reqLogger''"

definition GetReqLogger :: "gin_context option \<Rightarrow> logger \<Rightarrow> logger" where
  "GetReqLogger c fallback =
     (case c of
        None \<Rightarrow> fallback
      | Some c \<Rightarrow> (case map_of (gc_Keys c) ReqLoggerKey of Some (VLogger l) \<Rightarrow> l | _ \<Rightarrow> fallback))"

text \<open>The logger with more fields, and the debug line with the full list of groups.\<close>

definition EnrichReqLoggerWithAuth ::
  "gin_context option \<Rightarrow> logger option \<Rightarrow> logger option \<times> (logger \<times> string list) list" where
  "EnrichReqLoggerWithAuth c reqLogger =
     (case (c, reqLogger) of
        (Some c, Some l) \<Rightarrow>
          (let l1 = (case map_of (gc_Keys c) ''email'' of
                       Some (VString email) \<Rightarrow> if email \<noteq> [] then l @ [(''email'', email)] else l | _ \<Rightarrow> l);
               l2 = (case map_of (gc_Keys c) ''username'' of
                       Some (VString username) \<Rightarrow> if username \<noteq> [] then l1 @ [(''username'', username)] else l1 | _ \<Rightarrow> l1)
           in case map_of (gc_Keys c) ''groups'' of
                Some (VStrings groups) \<Rightarrow>
                  if length groups > 0
                  then (let l3 = l2 @ [(''groupCount'', Itoa (int (length groups)))] in (Some l3, [(l3, groups)]))
                  else (Some l2, [])
              | _ \<Rightarrow> (Some l2, []))
      | _ \<Rightarrow> (reqLogger, []))"

definition NamespacedFields :: "string \<Rightarrow> string \<Rightarrow> string list" where
  "NamespacedFields name ns =
     (if ns = [] then [''name'', name] else [''name'', name, ''namespace'', ns])"

subsection \<open>The middlewares of the server\<close>

definition cid_of :: "gin_context \<Rightarrow> string" where
  "cid_of c = (case map_of (gc_Keys c) ''cid'' of Some (VString cid) \<Rightarrow> cid | _ \<Rightarrow> [])"

text \<open>\<open>fresh\<close> is the new UUID.\<close>

definition correlation_id :: "string \<Rightarrow> handler_func" where
  "correlation_id fresh =
     Around (\<lambda>c. let cid = request_cid fresh (gc_request_id c) in
               c\<lparr>gc_Keys := map_set ''cid'' (VString cid) (gc_Keys c),
                 gc_header := map_set ''X-Request-ID'' cid (gc_header c)\<rparr>)
            (\<lambda>c. c)"

definition request_logger :: handler_func where
  "request_logger =
     Around (\<lambda>c. let reqLogger = [(''cid'', cid_of c), (''method'', gc_Method c), (''path'', gc_FullPath c),
                                   (''remote'', gc_ClientIP c)] in
               c\<lparr>gc_Keys := map_set ReqLoggerKey (VLogger reqLogger)
                   (map_set ''reqLoggerKey'' (VString ''reqLogger'')
                     (map_set ''reqLogger'' (VLogger reqLogger) (gc_Keys c)))\<rparr>)
            (\<lambda>c. c)"

definition http_request_log :: handler_func where
  "http_request_log =
     Around (\<lambda>c. c)
            (\<lambda>c. c\<lparr>gc_lines := gc_lines c @ [([(''cid'', cid_of c), (''method'', gc_Method c), (''path'', gc_FullPath c),
               (''status'', Itoa (gc_status c))], ''http_request'')]\<rparr>)"

text \<open>The function that is meant to propagate errors has no call of \<^verbatim>\<open>c.Next()\<close>.\<close>

definition error_propagation :: handler_func where
  "error_propagation =
     Plain (\<lambda>c. case gc_Errors c of
         [] \<Rightarrow> c
       | first # _ \<Rightarrow>
           let metaStr = (case ge_Meta first of Some m \<Rightarrow> m | None \<Rightarrow> []);
               fields = [(''error'', ge_Err first), (''meta'', metaStr)];
               line = (case map_of (gc_Keys c) ReqLoggerKey of
                         Some (VLogger rl) \<Rightarrow> (rl @ fields, ''handler_error'')
                       | _ \<Rightarrow> ((''cid'', cid_of c) # fields, ''handler_error''));
               c1 = c\<lparr>gc_lines := gc_lines c @ [line]\<rparr>
           in if gc_aborted c then c1 else c1\<lparr>gc_body := ErrorJSON (ge_Err first) (cid_of c) metaStr\<rparr>)"

record cors_config =
  AllowOrigins :: "string list"
  AllowMethods :: "string list"
  AllowHeaders :: "string list"
  ExposeHeaders :: "string list"
  AllowCredentials :: bool
  MaxAge :: duration

definition server_cors :: cors_config where
  "server_cors = \<lparr>AllowOrigins = [''https://localhost:8443'', ''http://localhost:28081'', ''http://localhost:28080'', ''*''],
     AllowMethods = [''GET'', ''PUT'', ''PATCH'', ''POST'', ''OPTIONS''],
     AllowHeaders = [''Origin'', ''Authorization'', ''Content-Type''], ExposeHeaders = [''Authorization''],
     AllowCredentials = True, MaxAge = 12 * Hour\<rparr>"

text \<open>The chain in the order of the calls of \<^verbatim>\<open>engine.Use\<close>: access log, recovery and CORS are the libraries'.\<close>

definition server_chain ::
  "string \<Rightarrow> handler_func \<Rightarrow> handler_func \<Rightarrow> (cors_config \<Rightarrow> handler_func) \<Rightarrow> handler_func list" where
  "server_chain fresh ginzap recovery cors =
     [correlation_id fresh, ginzap, recovery, request_logger, http_request_log, error_propagation, cors server_cors]"

subsection \<open>What the libraries leave alone\<close>

definition answer :: "gin_context \<Rightarrow> int \<times> answer_body \<times> gin_error list \<times> (string \<times> string) list" where
  "answer c = (gc_status c, gc_body c, gc_Errors c, gc_header c)"

text \<open>A middleware that only logs once the handlers are done, and one that only adds response headers.\<close>

definition observes :: "handler_func \<Rightarrow> bool" where
  "observes h \<longleftrightarrow> (\<exists>after. h = Around (\<lambda>c. c) after \<and> (\<forall>c. answer (after c) = answer c))"

definition adds_headers :: "handler_func \<Rightarrow> bool" where
  "adds_headers h \<longleftrightarrow> (\<exists>hdrs. h = Plain (\<lambda>c. c\<lparr>gc_header := gc_header c @ hdrs\<rparr>))"

context gin_engine
begin

lemma run_observer:
  assumes "observes h" "\<not> gc_aborted c"
  shows "answer (run (h # hs) c) = answer (run hs c)"
  using assms run_around by (auto simp: observes_def)

lemma run_request_logger:
  assumes "\<not> gc_aborted c" "cid_of c = cid"
    and "l = [(''cid'', cid), (''method'', gc_Method c), (''path'', gc_FullPath c), (''remote'', gc_ClientIP c)]"
  shows "run (request_logger # hs) c = run hs (c\<lparr>gc_Keys := map_set ReqLoggerKey (VLogger l)
      (map_set ''reqLoggerKey'' (VString ''reqLogger'') (map_set ''reqLogger'' (VLogger l) (gc_Keys c)))\<rparr>)"
  using assms by (simp add: request_logger_def run_around Let_def)

lemma run_http_request_log: "\<not> gc_aborted c \<Longrightarrow> answer (run (http_request_log # hs) c) = answer (run hs c)"
  by (simp add: http_request_log_def run_around answer_def)

lemma run_error_propagation: "\<not> gc_aborted c \<Longrightarrow> gc_Errors c = [] \<Longrightarrow> run (error_propagation # hs) c = run hs c"
  by (simp add: error_propagation_def run_plain)

lemma run_chain_prefix:
  assumes "observes ginzap" "observes recovery" "adds_headers (cors server_cors)"
    and "\<not> gc_aborted c" "gc_Errors c = []"
  shows "\<exists>c'. answer (run (server_chain fresh ginzap recovery cors @ hs) c) = answer (run hs c') \<and>
    gc_Errors c' = [] \<and> gc_body c' = gc_body c \<and> \<not> gc_aborted c' \<and>
    map_of (gc_header c') ''X-Request-ID'' = Some (request_cid fresh (gc_request_id c)) \<and>
    map_of (gc_Keys c') ''cid'' = Some (VString (request_cid fresh (gc_request_id c))) \<and>
    GetReqLogger (Some c') fallback = [(''cid'', request_cid fresh (gc_request_id c)), (''method'', gc_Method c),
      (''path'', gc_FullPath c), (''remote'', gc_ClientIP c)]"
proof -
  define cid where "cid = request_cid fresh (gc_request_id c)"
  define l where "l = [(''cid'', cid), (''method'', gc_Method c), (''path'', gc_FullPath c), (''remote'', gc_ClientIP c)]"
  define c1 where "c1 = c\<lparr>gc_Keys := map_set ''cid'' (VString cid) (gc_Keys c), gc_header := map_set ''X-Request-ID'' cid (gc_header c)\<rparr>"
  define c2 where "c2 = c1\<lparr>gc_Keys := map_set ReqLoggerKey (VLogger l) (map_set ''reqLoggerKey'' (VString ''reqLogger'')
      (map_set ''reqLogger'' (VLogger l) (gc_Keys c1)))\<rparr>"
  from assms(3) obtain hdrs where cors: "cors server_cors = Plain (\<lambda>c. c\<lparr>gc_header := gc_header c @ hdrs\<rparr>)"
    by (auto simp: adds_headers_def)
  define c3 where "c3 = c2\<lparr>gc_header := gc_header c2 @ hdrs\<rparr>"
  have c1: "\<not> gc_aborted c1" "cid_of c1 = cid" using assms(4) by (simp_all add: c1_def cid_of_def)
  have l: "l = [(''cid'', cid), (''method'', gc_Method c1), (''path'', gc_FullPath c1), (''remote'', gc_ClientIP c1)]"
    by (simp add: l_def c1_def)
  have c2: "\<not> gc_aborted c2" "gc_Errors c2 = []" using assms(4,5) by (simp_all add: c2_def c1_def)
  have "run (server_chain fresh ginzap recovery cors @ hs) c =
      run (ginzap # recovery # request_logger # http_request_log # error_propagation # cors server_cors # hs) c1"
    using assms(4) by (simp add: server_chain_def correlation_id_def run_around Let_def c1_def cid_def)
  then have "answer (run (server_chain fresh ginzap recovery cors @ hs) c) =
      answer (run (request_logger # http_request_log # error_propagation # cors server_cors # hs) c1)"
    by (simp add: run_observer assms(1,2) c1(1))
  also have "\<dots> = answer (run (http_request_log # error_propagation # cors server_cors # hs) c2)"
    unfolding c2_def by (subst run_request_logger [OF c1 l]) (rule refl)
  also have "\<dots> = answer (run (cors server_cors # hs) c2)"
    by (simp add: run_http_request_log [OF c2(1)] run_error_propagation [OF c2])
  also have "\<dots> = answer (run hs c3)" by (simp add: cors run_plain [OF c2(1)] c3_def)
  finally show ?thesis
    using assms(4,5) cid_def by (intro exI [of _ c3]) (simp add: c3_def c2_def c1_def l_def GetReqLogger_def ReqLoggerKey_def)
qed

end

subsection \<open>An engine that runs a chain\<close>

fun run_handlers :: "handler_func list \<Rightarrow> gin_context \<Rightarrow> gin_context" where
  "run_handlers [] c = c"
| "run_handlers (Plain f # hs) c = (if gc_aborted c then c else run_handlers hs (f c))"
| "run_handlers (Around before after # hs) c = (if gc_aborted c then c else after (run_handlers hs (before c)))"

interpretation engine: gin_engine run_handlers
proof
  fix hs :: "handler_func list" and c :: gin_context assume "gc_aborted c"
  then show "run_handlers hs c = c" by (cases "(hs, c)" rule: run_handlers.cases) auto
qed simp_all

subsection \<open>Properties\<close>

text \<open>C30. Every handler runs with the correlation ID of the request, the one of the header or a new one, in its
  context, in the response header and in each line of the logger that it takes from the context; and what it
  answers is what the client gets.  In particular the middleware that is documented to turn an error of the
  context into a JSON answer never does: it has already run when the handler records the error.\<close>

theorem handlers_run_under_correlation_id:
  assumes "gin_engine run" "observes ginzap" "observes recovery" "adds_headers (cors server_cors)"
    and "\<not> gc_aborted c" "gc_Errors c = []" "gc_body c = NoBody"
  shows "\<exists>c'. answer (run (server_chain fresh ginzap recovery cors @ hs) c) = answer (run hs c') \<and>
    gc_Errors c' = [] \<and> gc_body c' = NoBody \<and> \<not> gc_aborted c' \<and>
    (\<exists>cid. cid = (if gc_request_id c = [] then fresh else gc_request_id c) \<and>
       map_of (gc_header c') ''X-Request-ID'' = Some cid \<and> map_of (gc_Keys c') ''cid'' = Some (VString cid) \<and>
       (''cid'', cid) \<in> set (GetReqLogger (Some c') fallback))"
proof -
  from gin_engine.run_chain_prefix [of run ginzap recovery cors c fresh hs fallback, OF assms(1-6)] obtain c'
    where c': "answer (run (server_chain fresh ginzap recovery cors @ hs) c) = answer (run hs c')" "gc_Errors c' = []"
      "gc_body c' = gc_body c" "\<not> gc_aborted c'"
      "map_of (gc_header c') ''X-Request-ID'' = Some (request_cid fresh (gc_request_id c))"
      "map_of (gc_Keys c') ''cid'' = Some (VString (request_cid fresh (gc_request_id c)))"
      "GetReqLogger (Some c') fallback = [(''cid'', request_cid fresh (gc_request_id c)), (''method'', gc_Method c),
        (''path'', gc_FullPath c), (''remote'', gc_ClientIP c)]" by blast
  have "request_cid fresh (gc_request_id c) = (if gc_request_id c = [] then fresh else gc_request_id c)"
    by (simp add: request_cid_def)
  with c' assms(7) show ?thesis by (intro exI [of _ c']) simp
qed

definition ex_failing_handler :: handler_func where
  "ex_failing_handler = Plain (\<lambda>c. c\<lparr>gc_Errors := gc_Errors c @ [\<lparr>ge_Err = ''boom'', ge_Meta = None\<rparr>]\<rparr>)"

definition ex_gin_context :: gin_context where
  "ex_gin_context = \<lparr>gc_request_id = ''req-1'', gc_Method = ''GET'', gc_FullPath = ''/api/config'', gc_ClientIP = ''10.0.0.1'',
     gc_Keys = [], gc_header = [], gc_Errors = [], gc_aborted = False, gc_status = 200, gc_body = NoBody, gc_lines = []\<rparr>"

theorem handlers_run_under_correlation_id_witness:
  "let c = run_handlers (server_chain ''new'' (Around (\<lambda>c. c) (\<lambda>c. c)) (Around (\<lambda>c. c) (\<lambda>c. c)) (\<lambda>_. Plain (\<lambda>c. c)) @
       [ex_failing_handler]) ex_gin_context
   in map ge_Err (gc_Errors c) = [''boom''] \<and> gc_body c = NoBody \<and> map_of (gc_header c) ''X-Request-ID'' = Some ''req-1''"
proof -
  let ?o = "Around (\<lambda>c. c) (\<lambda>c. c)" and ?cors = "(\<lambda>_. Plain (\<lambda>c. c)) :: cors_config \<Rightarrow> handler_func"
  let ?c = "run_handlers (server_chain ''new'' ?o ?o ?cors @ [ex_failing_handler]) ex_gin_context"
  have o: "observes ?o" by (auto simp: observes_def)
  have cors: "adds_headers (?cors server_cors)" unfolding adds_headers_def by (rule exI [of _ "[]"]) simp
  have c: "\<not> gc_aborted ex_gin_context" "gc_Errors ex_gin_context = []" "gc_body ex_gin_context = NoBody"
    "gc_request_id ex_gin_context = ''req-1''" by (simp_all add: ex_gin_context_def)
  from handlers_run_under_correlation_id [where ?fresh = "''new''" and ?hs = "[ex_failing_handler]", OF engine.gin_engine_axioms o o cors c(1-3)] c(4)
  obtain c' where c': "answer ?c = answer (run_handlers [ex_failing_handler] c')" "gc_Errors c' = []" "gc_body c' = NoBody"
    "\<not> gc_aborted c'" "map_of (gc_header c') ''X-Request-ID'' = Some ''req-1''" by auto
  then show ?thesis by (simp add: answer_def ex_failing_handler_def Let_def)
qed

end
