(* ===== verification/Observability.thy ===== *)
theory Observability
  imports Middlewares
begin

text \<open>
  What the process reports about itself: the Prometheus counters of \<^verbatim>\<open>pkg/metrics/metrics.go\<close> with their
  registration, the set-up of the loggers (\<^verbatim>\<open>cmd/main.go\<close>, \<^verbatim>\<open>pkg/system\<close>), and the log lines and headers with which
  the authorization webhook ends a request.
\<close>

subsection \<open>Counters\<close>

record counter_vec =
  cv_Name :: string
  cv_Labels :: "string list"

definition cluster_counter :: "string \<Rightarrow> counter_vec" where
  "cluster_counter name = \<lparr>cv_Name = ''breakglass_'' @ name @ ''_total'', cv_Labels = [''cluster'']\<rparr>"

definition action_labels :: "string list" where
  "action_labels = [''cluster'', ''verb'', ''api_group'', ''resource'', ''namespace'', ''subresource'']"

definition session_counter :: "string \<Rightarrow> counter_vec" where
  "session_counter name = \<lparr>cv_Name = ''breakglass_webhook_'' @ name @ ''_total'', cv_Labels = [''cluster'', ''session'', ''group'']\<rparr>"

definition mail_counter :: "string \<Rightarrow> counter_vec" where
  "mail_counter name = \<lparr>cv_Name = ''breakglass_mail_'' @ name @ ''_total'', cv_Labels = [''host'']\<rparr>"

text \<open>The counter behind an increment, and the label values of the increment.\<close>

fun counter_of :: "metric \<Rightarrow> counter_vec" where
  "counter_of (ClusterConfigsChecked _) = cluster_counter ''clusterconfigs_checked''"
| "counter_of (ClusterConfigsFailed _) = cluster_counter ''clusterconfigs_failed''"
| "counter_of (WebhookSARRequests _) = cluster_counter ''webhook_sar_requests''"
| "counter_of (WebhookSARRequestsByAction _ _ _ _ _ _) =
     \<lparr>cv_Name = ''breakglass_webhook_sar_requests_by_action_total'', cv_Labels = action_labels\<rparr>"
| "counter_of (WebhookSARAllowed _) = cluster_counter ''webhook_sar_allowed''"
| "counter_of (WebhookSARDenied _) = cluster_counter ''webhook_sar_denied''"
| "counter_of (WebhookSARDecisionsByAction _ _ _ _ _ _ _ _) =
     \<lparr>cv_Name = ''breakglass_webhook_sar_decisions_by_action_total'', cv_Labels = action_labels @ [''decision'', ''deny_source'']\<rparr>"
| "counter_of (WebhookSessionSARsAllowed _ _ _) = session_counter ''session_sar_allowed''"
| "counter_of (WebhookSessionSARsDenied _ _ _) = session_counter ''session_sar_denied''"
| "counter_of (WebhookSessionSARErrors _ _ _) = session_counter ''session_sar_errors''"
| "counter_of (WebhookSessionSARSSkipped _) = cluster_counter ''webhook_session_sars_skipped''"
| "counter_of (SessionCreated _) = cluster_counter ''session_created''"
| "counter_of (SessionUpdated _) = cluster_counter ''session_updated''"
| "counter_of (SessionDeleted _) = cluster_counter ''session_deleted''"
| "counter_of (SessionExpired _) = cluster_counter ''session_expired''"
| "counter_of (MailSendSuccess _) = mail_counter ''send_success''"
| "counter_of (MailSendFailure _) = mail_counter ''send_failure''"

fun label_values :: "metric \<Rightarrow> string list" where
  "label_values (ClusterConfigsChecked c) = [c]"
| "label_values (ClusterConfigsFailed c) = [c]"
| "label_values (WebhookSARRequests c) = [c]"
| "label_values (WebhookSARRequestsByAction c verb grp res ns sub) = [c, verb, grp, res, ns, sub]"
| "label_values (WebhookSARAllowed c) = [c]"
| "label_values (WebhookSARDenied c) = [c]"
| "label_values (WebhookSARDecisionsByAction c verb grp res ns sub decision source) = [c, verb, grp, res, ns, sub, decision, source]"
| "label_values (WebhookSessionSARsAllowed c s g) = [c, s, g]"
| "label_values (WebhookSessionSARsDenied c s g) = [c, s, g]"
| "label_values (WebhookSessionSARErrors c s g) = [c, s, g]"
| "label_values (WebhookSessionSARSSkipped c) = [c]"
| "label_values (SessionCreated c) = [c]"
| "label_values (SessionUpdated c) = [c]"
| "label_values (SessionDeleted c) = [c]"
| "label_values (SessionExpired c) = [c]"
| "label_values (MailSendSuccess host) = [host]"
| "label_values (MailSendFailure host) = [host]"

text \<open>The counters in the order of their registration.\<close>

definition declared_counters :: "counter_vec list" where
  "declared_counters = map counter_of
     [ClusterConfigsChecked [], ClusterConfigsFailed [], WebhookSARRequests [], WebhookSARRequestsByAction [] [] [] [] [] [],
      WebhookSARAllowed [], WebhookSARDenied [], WebhookSARDecisionsByAction [] [] [] [] [] [] [] [],
      WebhookSessionSARsAllowed [] [] [], WebhookSessionSARsDenied [] [] [], WebhookSessionSARErrors [] [] [],
      WebhookSessionSARSSkipped [], SessionCreated [], SessionUpdated [], SessionDeleted [], SessionExpired [],
      MailSendSuccess [], MailSendFailure []]"

text \<open>\<open>MustRegister\<close> and \<open>WithLabelValues\<close> of the Prometheus library panic, here with \<open>None\<close>.\<close>

definition metrics_init :: "(counter_vec \<Rightarrow> 'r \<Rightarrow> 'r option) \<Rightarrow> 'r \<Rightarrow> 'r option" where
  "metrics_init MustRegister registry = fold (\<lambda>cv r. Option.bind r (MustRegister cv)) declared_counters (Some registry)"

lemma declared_names: "distinct (map cv_Name declared_counters)"
  by code_simp

lemma counter_declared: "counter_of m \<in> set declared_counters"
  by (cases m) (simp_all add: declared_counters_def)

lemma label_values_fit: "length (label_values m) = length (cv_Labels (counter_of m))"
  by (cases m) (simp_all add: cluster_counter_def session_counter_def mail_counter_def action_labels_def)

locale counter_registry =
  fixes MustRegister :: "counter_vec \<Rightarrow> 'r \<Rightarrow> 'r option"
    and WithLabelValues :: "counter_vec \<Rightarrow> string list \<Rightarrow> 'c option"
    and names :: "'r \<Rightarrow> string set"
  assumes register_new: "cv_Name cv \<notin> names r \<Longrightarrow> \<exists>r'. MustRegister cv r = Some r' \<and> names r' = insert (cv_Name cv) (names r)"
    and values_fit: "length vs = length (cv_Labels cv) \<Longrightarrow> WithLabelValues cv vs \<noteq> None"
begin

lemma register_all:
  assumes "distinct (map cv_Name cvs)" "names r \<inter> cv_Name ` set cvs = {}"
  shows "\<exists>r'. fold (\<lambda>cv r. Option.bind r (MustRegister cv)) cvs (Some r) = Some r' \<and> names r' = names r \<union> cv_Name ` set cvs"
  using assms
proof (induction cvs arbitrary: r)
  case Nil
  then show ?case by simp
next
  case (Cons cv cvs)
  from Cons.prems(2) register_new [of cv r] obtain r1 where r1: "MustRegister cv r = Some r1" "names r1 = insert (cv_Name cv) (names r)"
    by auto
  with Cons.prems have "names r1 \<inter> cv_Name ` set cvs = {}" by auto
  with Cons.IH [of r1] Cons.prems(1) r1 show ?case by auto
qed

text \<open>The registration at start-up does not panic, and neither does any increment, which finds its counter registered.\<close>

lemma metrics_registered:
  assumes "names r = {}"
  shows "(\<exists>r'. metrics_init MustRegister r = Some r' \<and> cv_Name (counter_of m) \<in> names r') \<and>
    WithLabelValues (counter_of m) (label_values m) \<noteq> None"
  using register_all [OF declared_names, of r] assms counter_declared [of m] values_fit [OF label_values_fit, of m]
  by (auto simp: metrics_init_def)

end

text \<open>A registry that holds the counters.\<close>

definition mem_register :: "counter_vec \<Rightarrow> counter_vec list \<Rightarrow> counter_vec list option" where
  "mem_register cv rs = (if List.member (map cv_Name rs) (cv_Name cv) then None else Some (rs @ [cv]))"

definition mem_values :: "counter_vec \<Rightarrow> string list \<Rightarrow> string list option" where
  "mem_values cv vs = (if length vs = length (cv_Labels cv) then Some vs else None)"

interpretation mem_counters: counter_registry mem_register mem_values "\<lambda>rs. cv_Name ` set rs"
  by unfold_locales (auto simp: mem_register_def mem_values_def)

subsection \<open>Loggers\<close>

text \<open>The configuration of the logging library, as far as the program sets it.\<close>

record zap_config =
  zc_Development :: bool
  zc_DisableStacktrace :: bool
  zc_TimeKey :: string
  zc_EncodeTime :: "instant \<Rightarrow> string"

text \<open>\<open>production\<close> and \<open>development\<close> are the presets of the library, \<open>rfc3339\<close> formats a UTC time; a logger that cannot
  be built ends the process.\<close>

definition setupLogger ::
  "zap_config \<Rightarrow> zap_config \<Rightarrow> (instant \<Rightarrow> string) \<Rightarrow> (zap_config \<Rightarrow> 'l result) \<Rightarrow> bool \<Rightarrow> 'l result" where
  "setupLogger production development rfc3339 build debug =
     (let cfg = (if debug then development else production)\<lparr>zc_DisableStacktrace := True, zc_EncodeTime := rfc3339, zc_TimeKey := ''ts''\<rparr>
      in case build cfg of
           Inl err \<Rightarrow> Inl (wrap_error ''failed to set up logger'' err)
         | Inr logger \<Rightarrow> Inr logger)"

text \<open>The loggers for tests; an error of the library leaves a nil logger.\<close>

definition NewTestZapLogger :: "zap_config \<Rightarrow> (zap_config \<Rightarrow> 'l result) \<Rightarrow> 'l option" where
  "NewTestZapLogger development build =
     (case build (development\<lparr>zc_DisableStacktrace := True\<rparr>) of Inl _ \<Rightarrow> None | Inr logger \<Rightarrow> Some logger)"

definition NewTestLogger :: "zap_config \<Rightarrow> (zap_config \<Rightarrow> 'l result) \<Rightarrow> ('l \<Rightarrow> 's) \<Rightarrow> 's option" where
  "NewTestLogger development build sugar =
     (case build (development\<lparr>zc_DisableStacktrace := True\<rparr>) of Inl _ \<Rightarrow> None | Inr logger \<Rightarrow> Some (sugar logger))"

definition Version :: string where
  "Version = ''0.0.0-dev''"

definition Commit :: string where
  "Commit = []"

lemma setupLogger_no_stacktraces:
  "setupLogger production development rfc3339 build debug = Inr logger \<Longrightarrow>
   \<exists>cfg. build cfg = Inr logger \<and> zc_DisableStacktrace cfg \<and> zc_TimeKey cfg = ''ts'' \<and> zc_EncodeTime cfg = rfc3339"
  by (auto simp: setupLogger_def Let_def split: sum.splits if_splits)

subsection \<open>The end of a webhook request\<close>

definition cut_log :: "nat \<Rightarrow> string \<Rightarrow> string" where
  "cut_log n s = (if length s > n then take n s @ ''...(truncated)'' else s)"

text \<open>The response in the debug line and in the summary: nothing when it could not be encoded.\<close>

definition response_log :: "string result \<Rightarrow> string" where
  "response_log marshalled = (case marshalled of Inl _ \<Rightarrow> [] | Inr body \<Rightarrow> cut_log 8192 body)"

definition summary_log :: "string result \<Rightarrow> string" where
  "summary_log marshalled =
     (let respLog = response_log marshalled in if respLog \<noteq> [] then cut_log 512 respLog else [])"

text \<open>The headers of the answer.\<close>

definition review_headers :: "gin_context \<Rightarrow> (string \<times> string) list" where
  "review_headers c =
     (let header = map_set ''Content-Type'' ''application/json; charset=utf-8'' (gc_header c)
      in case map_of (gc_Keys c) ''cid'' of
           Some (VString cid) \<Rightarrow> if cid \<noteq> [] then map_set ''X-Request-ID'' cid header else header
         | _ \<Rightarrow> header)"

lemma cut_log_bound: "length (cut_log n s) \<le> n + 14"
  by (simp add: cut_log_def)

lemma summary_log_bound: "length (summary_log r) \<le> 526"
  using cut_log_bound [of 512 "response_log r"] by (simp add: summary_log_def Let_def)

text \<open>The answer carries the correlation ID of its request.\<close>

lemma review_correlated:
  assumes "map_of (gc_Keys c) ''cid'' = Some (VString cid)" "cid \<noteq> []"
  shows "map_of (review_headers c) ''X-Request-ID'' = Some cid"
  using assms by (simp add: review_headers_def)

end
