(* ===== verification/KeycloakSync.thy ===== *)
theory KeycloakSync
  imports EscalationManager Encoding
begin

text \<open>
  \<^verbatim>\<open>pkg/breakglass/escalation_status_updater.go\<close>: the resolver that looks up the members of an approver
  group in Keycloak through a cache with a time to live, and the updater that writes them into the status
  of the escalations.

  The HTTP client is a parameter: a function from requests to the response with the body as read, or the
  error of the call.  So is the step from the text of a body to its JSON value.  One clock reading serves
  one call, and the configured base URL is taken to be well formed.
\<close>

subsection \<open>The member cache\<close>

record kcEntry =
  kce_members :: "string list"
  kce_expires :: instant

record kcCache =
  kcc_items :: "(string \<times> kcEntry) list"
  kcc_ttl :: duration

definition newKCCache :: "duration \<Rightarrow> kcCache" where
  "newKCCache ttl = \<lparr>kcc_items = [], kcc_ttl = ttl\<rparr>"

definition kcCache_get :: "instant \<Rightarrow> string \<Rightarrow> kcCache \<Rightarrow> string list option" where
  "kcCache_get now k c =
     (case map_of (kcc_items c) k of
        None \<Rightarrow> None
      | Some e \<Rightarrow> if After now (kce_expires e) then None else Some (kce_members e))"

definition kcCache_set :: "instant \<Rightarrow> string \<Rightarrow> string list \<Rightarrow> kcCache \<Rightarrow> kcCache" where
  "kcCache_set now k v c =
     c\<lparr>kcc_items := map_set k \<lparr>kce_members = v, kce_expires = now + kcc_ttl c\<rparr> (kcc_items c)\<rparr>"

subsection \<open>The resolver\<close>

record http_request =
  hr_Method :: string
  hr_URL :: string
  hr_Headers :: "(string \<times> string) list"
  hr_Body :: string

record http_response =
  hs_StatusCode :: int
  hs_Body :: string

record KeycloakGroupMemberResolver =
  kr_cfg :: KeycloakConfig
  kr_http :: "http_request \<Rightarrow> http_response result"
  kr_parse_json :: "string \<Rightarrow> json result"
  kr_timeout :: duration
  kr_cache :: kcCache

definition positive_duration :: "string \<Rightarrow> duration \<Rightarrow> duration" where
  "positive_duration s d = (case ParseDuration s of Some v \<Rightarrow> if v > 0 then v else d | None \<Rightarrow> d)"

definition NewKeycloakGroupMemberResolver ::
  "(http_request \<Rightarrow> http_response result) \<Rightarrow> (string \<Rightarrow> json result) \<Rightarrow> KeycloakConfig \<Rightarrow> KeycloakGroupMemberResolver" where
  "NewKeycloakGroupMemberResolver http parse cfg =
     \<lparr>kr_cfg = cfg, kr_http = http, kr_parse_json = parse,
      kr_timeout = positive_duration (RequestTimeout cfg) (10 * Second),
      kr_cache = newKCCache (positive_duration (CacheTTL cfg) (10 * Minute))\<rparr>"

definition resolver_disabled :: "KeycloakGroupMemberResolver \<Rightarrow> bool" where
  "resolver_disabled k = (Disable (kr_cfg k) \<or> kc_BaseURL (kr_cfg k) = [] \<or> Realm (kr_cfg k) = [] \<or> ClientID (kr_cfg k) = [])"

definition realm_url :: "KeycloakGroupMemberResolver \<Rightarrow> string" where
  "realm_url k = TrimRight (kc_BaseURL (kr_cfg k)) ''/'' @ ''/realms/'' @ PathEscape (Realm (kr_cfg k))"

definition token_struct :: string where
  "token_struct = ''struct { AccessToken string '' @
     Quote (''json:'' @ [CHR 0x22] @ ''access_token'' @ [CHR 0x22]) @ '' }''"

definition clientCredsToken :: "KeycloakGroupMemberResolver \<Rightarrow> string result" where
  "clientCredsToken k =
     (if ClientSecret (kr_cfg k) = []
      then Inl (Err ''keycloak clientSecret empty; only client_credentials supported now'')
      else
        (case kr_http k \<lparr>hr_Method = ''POST'', hr_URL = realm_url k @ ''/protocol/openid-connect/token'',
                hr_Headers = [(''Content-Type'', ''application/x-www-form-urlencoded'')],
                hr_Body = EncodeValues [(''client_id'', ClientID (kr_cfg k)), (''client_secret'', ClientSecret (kr_cfg k)),
                  (''grant_type'', ''client_credentials'')]\<rparr> of
           Inl e \<Rightarrow> Inl e
         | Inr resp \<Rightarrow>
             if hs_StatusCode resp \<noteq> 200 then Inl (Err (''keycloak token status '' @ Itoa (hs_StatusCode resp)))
             else bind_result (kr_parse_json k (hs_Body resp)) (\<lambda>v.
               (case decode_struct token_struct [''access_token''] v of
                  (_, Some e) \<Rightarrow> Inl e
                | (tr, None) \<Rightarrow>
                    if field_of ''access_token'' tr = [] then Inl (Err ''empty keycloak access_token'')
                    else Inr (field_of ''access_token'' tr)))))"

definition group_search_url :: "KeycloakGroupMemberResolver \<Rightarrow> string \<Rightarrow> string" where
  "group_search_url k grp = realm_url k @ ''/groups?search='' @ QueryEscape grp"

definition members_url :: "KeycloakGroupMemberResolver \<Rightarrow> string \<Rightarrow> string" where
  "members_url k groupID = realm_url k @ ''/groups/'' @ PathEscape groupID @ ''/members''"

definition authorized_get :: "string \<Rightarrow> string \<Rightarrow> http_request" where
  "authorized_get url token =
     \<lparr>hr_Method = ''GET'', hr_URL = url, hr_Headers = [(''Authorization'', ''Bearer '' @ token)], hr_Body = []\<rparr>"

text \<open>A GET whose answer is a JSON array of structs; \<open>what\<close> names the call in the error text.\<close>

definition get_structs ::
  "KeycloakGroupMemberResolver \<Rightarrow> string \<Rightarrow> http_request \<Rightarrow> string \<Rightarrow> string list \<Rightarrow> (string \<times> string) list list result" where
  "get_structs k what req ty names =
     (case kr_http k req of
        Inl e \<Rightarrow> Inl e
      | Inr resp \<Rightarrow>
          if hs_StatusCode resp \<noteq> 200 then Inl (Err (''keycloak '' @ what @ '' status '' @ Itoa (hs_StatusCode resp)))
          else bind_result (kr_parse_json k (hs_Body resp)) (decode_structs ty names))"

definition find_group_id :: "(string \<times> string) list list \<Rightarrow> string \<Rightarrow> string" where
  "find_group_id groups grp =
     (case List.find (\<lambda>g. EqualFold (field_of ''Name'' g) grp) groups of
        Some g \<Rightarrow> field_of ''ID'' g
      | None \<Rightarrow> [])"

fun member_names :: "(string \<times> string) list list \<Rightarrow> string list" where
  "member_names [] = []"
| "member_names (m # ms) =
     (if field_of ''Email'' m \<noteq> [] then field_of ''Email'' m # member_names ms
      else if field_of ''Username'' m \<noteq> [] then field_of ''Username'' m # member_names ms
      else member_names ms)"

definition lookup_members :: "KeycloakGroupMemberResolver \<Rightarrow> string \<Rightarrow> string list result" where
  "lookup_members k grp =
     bind_result (clientCredsToken k) (\<lambda>token.
       bind_result (get_structs k ''groups search'' (authorized_get (group_search_url k grp) token)
           ''struct { ID string; Name string }'' [''ID'', ''Name'']) (\<lambda>groups.
         let groupID = find_group_id groups grp in
         if groupID = [] then Inr []
         else bind_result (get_structs k ''members'' (authorized_get (members_url k groupID) token)
                ''struct { Username string; Email string }'' [''Username'', ''Email'']) (\<lambda>raw.
           Inr (normalizeMembers (member_names raw)))))"

definition static_members :: "(string \<times> string list) list" where
  "static_members = [(''emergency-response'', [''senior-approver@example.com'', ''security-lead@example.com''])]"

definition resolve_uncached :: "KeycloakGroupMemberResolver \<Rightarrow> string \<Rightarrow> string list result" where
  "resolve_uncached k grp =
     (if ClientSecret (kr_cfg k) = []
      then Inr (case map_of static_members grp of Some ms \<Rightarrow> ms | None \<Rightarrow> [])
      else lookup_members k grp)"

definition Members ::
  "instant \<Rightarrow> string \<Rightarrow> KeycloakGroupMemberResolver \<Rightarrow> string list result \<times> KeycloakGroupMemberResolver" where
  "Members now grp k =
     (if resolver_disabled k then (Inr [], k)
      else case kcCache_get now grp (kr_cache k) of
             Some v \<Rightarrow> (Inr v, k)
           | None \<Rightarrow>
               (case resolve_uncached k grp of
                  Inl e \<Rightarrow> (Inl e, k)
                | Inr out \<Rightarrow> (Inr out, k\<lparr>kr_cache := kcCache_set now grp out (kr_cache k)\<rparr>)))"

subsection \<open>The updater\<close>

definition group_members :: "BreakglassEscalationStatus \<Rightarrow> string \<Rightarrow> string list" where
  "group_members st g = (case map_of (ApproverGroupMembers st) g of Some ms \<Rightarrow> ms | None \<Rightarrow> [])"

definition set_resolution :: "string \<Rightarrow> string \<Rightarrow> BreakglassEscalationStatus \<Rightarrow> BreakglassEscalationStatus" where
  "set_resolution g v st = st\<lparr>GroupResolutionStatus := map_set g v (GroupResolutionStatus st)\<rparr>"

text \<open>The loop over the approver groups of one escalation; \<open>None\<close> is a missing resolver.\<close>

fun sync_groups ::
  "(string \<Rightarrow> 'r \<Rightarrow> string list result \<times> 'r) option \<Rightarrow> string list \<Rightarrow> BreakglassEscalationStatus \<Rightarrow> bool \<Rightarrow> 'r \<Rightarrow>
   BreakglassEscalationStatus \<times> bool \<times> 'r" where
  "sync_groups resolver [] st changed r = (st, changed, r)"
| "sync_groups resolver (g # gs) st changed r =
     (case resolver of
        None \<Rightarrow> sync_groups resolver gs (set_resolution g ''disabled'' st) changed r
      | Some f \<Rightarrow>
          (case f g r of
             (Inl e, r') \<Rightarrow> sync_groups resolver gs (set_resolution g (error_text e) st) changed r'
           | (Inr members, r') \<Rightarrow>
               let norm = normalizeMembers members;
                   st1 = set_resolution g ''ok'' st
               in if \<not> equalStringSlices norm (group_members st1 g)
                  then sync_groups resolver gs
                         (st1\<lparr>ApproverGroupMembers := map_set g norm (ApproverGroupMembers st1)\<rparr>) True r'
                  else sync_groups resolver gs st1 changed r'))"

fun sync_escalations ::
  "'w client \<Rightarrow> (string \<Rightarrow> 'r \<Rightarrow> string list result \<times> 'r) option \<Rightarrow> BreakglassEscalation list \<Rightarrow> 'w world \<Rightarrow> 'r \<Rightarrow>
   'w world \<times> 'r" where
  "sync_escalations cl resolver [] w r = (w, r)"
| "sync_escalations cl resolver (esc # escs) w r =
     (let groups = ApproverGroups (EscApprovers (be_spec esc)) in
      if length groups = 0 then sync_escalations cl resolver escs w r
      else (case sync_groups resolver groups (be_status esc) False r of
              (st, changed, r') \<Rightarrow>
                if changed
                then sync_escalations cl resolver escs
                       (w\<lparr>api := fst (update_escalation_status cl (esc\<lparr>be_status := st\<rparr>) (api w))\<rparr>) r'
                else sync_escalations cl resolver escs w r'))"

definition updater_runOnce ::
  "'w client \<Rightarrow> (string \<Rightarrow> 'r \<Rightarrow> string list result \<times> 'r) option \<Rightarrow> 'w world \<Rightarrow> 'r \<Rightarrow> 'w world \<times> 'r" where
  "updater_runOnce cl resolver w r =
     (case list_escalations cl [] (api w) of
        Inl _ \<Rightarrow> (w, r)
      | Inr items \<Rightarrow> sync_escalations cl resolver items w r)"

definition updater_interval :: "duration \<Rightarrow> duration" where
  "updater_interval interval = (if interval \<le> 0 then 5 * Minute else interval)"

subsection \<open>What the cache answers\<close>

lemma kcCache_get_set:
  "kcCache_get later k' (kcCache_set now k v c) =
     (if k' = k then if now + kcc_ttl c < later then None else Some v else kcCache_get later k' c)"
  by (simp add: kcCache_get_def kcCache_set_def map_of_map_set After_def)

lemma Members_error_keeps_cache: "Members now g k = (Inl e, k') \<Longrightarrow> k' = k"
  by (auto simp: Members_def split: if_splits option.splits sum.splits)

lemma Members_frame [frame_simps]:
  "Members now g k = (r, k') \<Longrightarrow> kr_cfg k' = kr_cfg k \<and> kr_http k' = kr_http k \<and>
     kr_parse_json k' = kr_parse_json k \<and> kcc_ttl (kr_cache k') = kcc_ttl (kr_cache k)"
  by (auto simp: Members_def kcCache_set_def split: if_splits option.splits sum.splits)

text \<open>The calls to Keycloak do not depend on the cache.\<close>

lemma requests_cache [simp]:
  "realm_url (k\<lparr>kr_cache := c\<rparr>) = realm_url k"
  "group_search_url (k\<lparr>kr_cache := c\<rparr>) = group_search_url k"
  "members_url (k\<lparr>kr_cache := c\<rparr>) = members_url k"
  "get_structs (k\<lparr>kr_cache := c\<rparr>) = get_structs k"
  "clientCredsToken (k\<lparr>kr_cache := c\<rparr>) = clientCredsToken k"
  by (simp_all add: fun_eq_iff realm_url_def group_search_url_def members_url_def get_structs_def clientCredsToken_def
      cong: sum.case_cong if_cong)

lemma resolve_uncached_cache [simp]: "resolve_uncached (k\<lparr>kr_cache := c\<rparr>) g = resolve_uncached k g"
proof -
  have "lookup_members (k\<lparr>kr_cache := c\<rparr>) g = lookup_members k g" by (simp only: lookup_members_def requests_cache)
  then show ?thesis by (simp add: resolve_uncached_def)
qed

lemma resolver_disabled_cache [simp]: "resolver_disabled (k\<lparr>kr_cache := c\<rparr>) = resolver_disabled k"
  by (simp add: resolver_disabled_def)

subsection \<open>The contract of a resolver\<close>

text \<open>During one round of the updater a resolver gives the same answer for a group however often and in
  whatever order it is asked.\<close>

locale group_resolver =
  fixes resolve :: "string \<Rightarrow> 'r \<Rightarrow> string list result \<times> 'r"
    and answer :: "string \<Rightarrow> string list result"
    and valid :: "'r \<Rightarrow> bool"
  assumes resolve_answer: "valid r \<Longrightarrow> fst (resolve g r) = answer g"
    and resolve_valid: "valid r \<Longrightarrow> valid (snd (resolve g r))"
begin

text \<open>The member list that a successful lookup leaves in the status, up to order.\<close>

definition settled :: "string list \<Rightarrow> BreakglassEscalationStatus \<Rightarrow> bool" where
  "settled gs st \<longleftrightarrow> (\<forall>g \<in> set gs. \<forall>ms. answer g = Inr ms \<longrightarrow> mset (group_members st g) = mset (normalizeMembers ms))"

lemma sync_step:
  assumes "valid r"
  obtains r' st' ch' where "valid r'"
    "sync_groups (Some resolve) (g # gs) st ch r = sync_groups (Some resolve) gs st' ch' r'"
    "settled [g] st'" "\<And>h. h \<noteq> g \<Longrightarrow> group_members st' h = group_members st h"
    "\<And>e. answer g = Inl e \<Longrightarrow> group_members st' g = group_members st g"
    "settled [g] st \<Longrightarrow> ch' = ch \<and> ApproverGroupMembers st' = ApproverGroupMembers st"
proof (cases "answer g")
  case (Inl e)
  with assms resolve_answer [of r g] obtain r' where r': "resolve g r = (Inl e, r')" by (metis prod.collapse)
  then have v: "valid r'" using resolve_valid [OF assms, of g] by simp
  show ?thesis
    by (rule that [OF v, of "set_resolution g (error_text e) st" ch])
      (simp_all add: r' Inl settled_def group_members_def set_resolution_def)
next
  case (Inr ms)
  with assms resolve_answer [of r g] obtain r' where r': "resolve g r = (Inr ms, r')" by (metis prod.collapse)
  then have v: "valid r'" using resolve_valid [OF assms, of g] by simp
  let ?st = "set_resolution g ''ok'' st"
  have same: "group_members ?st = group_members st"
    by (simp add: fun_eq_iff group_members_def set_resolution_def)
  show ?thesis
  proof (cases "mset (normalizeMembers ms) = mset (group_members st g)")
    case True
    with r' same show ?thesis
      by (intro that [OF v, of ?st ch])
        (simp_all add: Inr settled_def equalStringSlices_mset Let_def set_resolution_def group_members_def)
  next
    case False
    with r' same show ?thesis
      by (intro that [OF v, of "?st\<lparr>ApproverGroupMembers := map_set g (normalizeMembers ms) (ApproverGroupMembers ?st)\<rparr>" True])
        (auto simp: Inr settled_def equalStringSlices_mset Let_def set_resolution_def group_members_def map_of_map_set)
  qed
qed

lemma sync_settles:
  "valid r \<Longrightarrow> sync_groups (Some resolve) gs st ch r = (st', ch', r') \<Longrightarrow>
     valid r' \<and> settled gs st' \<and> (\<forall>h. h \<notin> set gs \<longrightarrow> group_members st' h = group_members st h)"
proof (induction gs arbitrary: st ch r)
  case (Cons g gs)
  from sync_step [OF Cons.prems(1), of g gs st ch] obtain r1 st1 ch1 where s: "valid r1"
    "sync_groups (Some resolve) (g # gs) st ch r = sync_groups (Some resolve) gs st1 ch1 r1"
    "settled [g] st1" "\<And>h. h \<noteq> g \<Longrightarrow> group_members st1 h = group_members st h" by metis
  from Cons.IH [OF s(1)] s(2) Cons.prems(2)
  have ih: "valid r'" "settled gs st'" "\<And>h. h \<notin> set gs \<Longrightarrow> group_members st' h = group_members st1 h" by auto
  have "settled (g # gs) st'"
    using ih(2,3) s(3) by (cases "g \<in> set gs") (auto simp: settled_def)
  with ih s(4) show ?case by auto
qed (simp add: settled_def)

lemma settled_no_change:
  "valid r \<Longrightarrow> settled gs st \<Longrightarrow> sync_groups (Some resolve) gs st ch r = (st', ch', r') \<Longrightarrow>
     ch' = ch \<and> ApproverGroupMembers st' = ApproverGroupMembers st"
proof (induction gs arbitrary: st r)
  case (Cons g gs)
  from sync_step [OF Cons.prems(1), of g gs st ch] obtain r1 st1 ch1 where s: "valid r1"
    "sync_groups (Some resolve) (g # gs) st ch r = sync_groups (Some resolve) gs st1 ch1 r1"
    "settled [g] st \<Longrightarrow> ch1 = ch \<and> ApproverGroupMembers st1 = ApproverGroupMembers st" by metis
  have same: "ch1 = ch" "ApproverGroupMembers st1 = ApproverGroupMembers st"
    using s(3) Cons.prems(2) by (simp_all add: settled_def)
  then have "settled gs st1" using Cons.prems(2) by (simp add: settled_def group_members_def)
  from Cons.IH [OF s(1) this] s(2) Cons.prems(3) same show ?case by simp
qed simp

end

text \<open>The Keycloak resolver keeps this contract within one round: what it has cached is what Keycloak
  answers.\<close>

definition kc_answer :: "KeycloakGroupMemberResolver \<Rightarrow> string \<Rightarrow> string list result" where
  "kc_answer k g = (if resolver_disabled k then Inr [] else resolve_uncached k g)"

definition kc_consistent :: "instant \<Rightarrow> KeycloakGroupMemberResolver \<Rightarrow> KeycloakGroupMemberResolver \<Rightarrow> bool" where
  "kc_consistent now k0 k \<longleftrightarrow> k = k0\<lparr>kr_cache := kr_cache k\<rparr> \<and>
     (\<forall>g v. kcCache_get now g (kr_cache k) = Some v \<longrightarrow> resolve_uncached k0 g = Inr v)"

interpretation keycloak: group_resolver "Members now" "kc_answer k0" "kc_consistent now k0" for now k0
proof
  fix k g assume c: "kc_consistent now k0 k"
  then have k: "k = k0\<lparr>kr_cache := kr_cache k\<rparr>"
    and hit: "\<And>g v. kcCache_get now g (kr_cache k) = Some v \<Longrightarrow> resolve_uncached k0 g = Inr v"
    by (auto simp: kc_consistent_def)
  have unc: "resolve_uncached k g = resolve_uncached k0 g" and dis: "resolver_disabled k = resolver_disabled k0"
    by (subst k, simp)+
  show "fst (Members now g k) = kc_answer k0 g"
    using hit by (auto simp: Members_def kc_answer_def unc dis split: option.splits sum.splits)
  show "kc_consistent now k0 (snd (Members now g k))"
  proof (cases "resolver_disabled k0 \<or> kcCache_get now g (kr_cache k) \<noteq> None \<or> (\<exists>e. resolve_uncached k0 g = Inl e)")
    case True
    then have "snd (Members now g k) = k" by (auto simp: Members_def unc dis split: option.splits)
    with c show ?thesis by simp
  next
    case False
    then obtain ms where ms: "resolve_uncached k0 g = Inr ms" by (metis sum.exhaust)
    with False have m: "snd (Members now g k) = k\<lparr>kr_cache := kcCache_set now g ms (kr_cache k)\<rparr>"
      by (auto simp: Members_def unc dis)
    have "k\<lparr>kr_cache := c\<rparr> = k0\<lparr>kr_cache := c\<rparr>" for c by (subst k) simp
    with m hit ms show ?thesis by (auto simp: kc_consistent_def kcCache_get_set split: if_splits)
  qed
qed

text \<open>Rounds in which no lookup succeeds.\<close>

lemma sync_groups_failing:
  assumes "\<And>g r. \<exists>e r'. resolve g r = (Inl e, r')"
  shows "fst (snd (sync_groups (Some resolve) gs st ch r)) = ch"
proof (induction gs arbitrary: st r)
  case (Cons g gs)
  obtain e r' where "resolve g r = (Inl e, r')" using assms by blast
  with Cons.IH show ?case by simp
qed simp

lemma sync_groups_disabled: "fst (snd (sync_groups None gs st ch r)) = ch"
  by (induction gs arbitrary: st) simp_all

lemma sync_groups_disabled_note:
  "map_of (GroupResolutionStatus (fst (sync_groups None gs st ch r))) g =
     (if g \<in> set gs then Some ''disabled'' else map_of (GroupResolutionStatus st) g)"
  by (induction gs arbitrary: st) (auto simp: set_resolution_def map_of_map_set)

lemma sync_unchanged:
  assumes "\<And>gs st r. \<not> fst (snd (sync_groups resolver gs st False r))"
  shows "fst (sync_escalations cl resolver escs w r) = w"
proof (induction escs arbitrary: r)
  case (Cons esc escs)
  obtain st ch r' where run:
    "sync_groups resolver (ApproverGroups (EscApprovers (be_spec esc))) (be_status esc) False r = (st, ch, r')"
    by (metis prod_cases3)
  then have "\<not> ch" using assms [of "ApproverGroups (EscApprovers (be_spec esc))" "be_status esc" r] by simp
  with run Cons.IH show ?case by (simp add: Let_def)
qed simp

subsection \<open>A concrete resolver\<close>

definition ex_kc_http :: "http_request \<Rightarrow> http_response result" where
  "ex_kc_http req =
     (if hr_Method req = ''POST'' then Inr \<lparr>hs_StatusCode = 200, hs_Body = ''token''\<rparr>
      else if HasSuffix (hr_URL req) ''/groups?search=sre'' then Inr \<lparr>hs_StatusCode = 200, hs_Body = ''groups''\<rparr>
      else if HasSuffix (hr_URL req) ''/groups/g1/members'' then Inr \<lparr>hs_StatusCode = 200, hs_Body = ''members''\<rparr>
      else Inr \<lparr>hs_StatusCode = 404, hs_Body = []\<rparr>)"

definition ex_kc_json :: "string \<Rightarrow> json result" where
  "ex_kc_json s =
     (if s = ''token'' then Inr (JObject [(''access_token'', JString ''t'')])
      else if s = ''groups'' then Inr (JArray [JObject [(''id'', JString ''g1''), (''name'', JString ''SRE'')]])
      else if s = ''members''
      then Inr (JArray [JObject [(''email'', JString ''Lead@ex.org''), (''username'', JString ''lead'')],
                        JObject [(''username'', JString ''ops'')]])
      else Inl (Err ''EOF''))"

definition ex_kc :: KeycloakGroupMemberResolver where
  "ex_kc = NewKeycloakGroupMemberResolver ex_kc_http ex_kc_json
     \<lparr>kc_BaseURL = ''https://idp/'', Realm = ''r'', ClientID = ''bg'', ClientSecret = ''x'', CacheTTL = ''5m'',
      RequestTimeout = [], Disable = False\<rparr>"

definition ex_status :: BreakglassEscalationStatus where
  "ex_status = \<lparr>ApproverGroupMembers = [(''old'', [''a'']), (''sre'', [''x''])], RequestCount = 0, ApprovalCount = 0,
     GroupResolutionStatus = []\<rparr>"

lemma ex_kc_members: "fst (Members 0 ''sre'' ex_kc) = Inr [''lead@ex.org'', ''ops'']"
  by code_simp

lemma ex_kc_consistent: "kc_consistent 0 ex_kc ex_kc"
  by (simp add: kc_consistent_def kcCache_get_def ex_kc_def NewKeycloakGroupMemberResolver_def newKCCache_def)

subsection \<open>Properties\<close>



text \<open>A member list, once looked up, is answered from the cache for the configured time to live, whatever
  Keycloak would say in the meantime; when the time has passed Keycloak is asked again.\<close>

theorem members_cached:
  assumes "\<not> resolver_disabled k" "kcCache_get now g (kr_cache k) = None" "Members now g k = (Inr ms, k')"
  shows "(later \<le> now + kcc_ttl (kr_cache k) \<longrightarrow>
      Members later g (k'\<lparr>kr_http := http\<rparr>) = (Inr ms, k'\<lparr>kr_http := http\<rparr>)) \<and>
    (now + kcc_ttl (kr_cache k) < later \<longrightarrow>
      fst (Members later g (k'\<lparr>kr_http := http\<rparr>)) = resolve_uncached (k'\<lparr>kr_http := http\<rparr>) g)"
proof -
  have k': "k' = k\<lparr>kr_cache := kcCache_set now g ms (kr_cache k)\<rparr>"
    using assms by (auto simp: Members_def split: sum.splits)
  have "\<not> resolver_disabled (k'\<lparr>kr_http := http\<rparr>)" using assms(1) by (simp add: k' resolver_disabled_def)
  moreover have "kcCache_get later g (kr_cache (k'\<lparr>kr_http := http\<rparr>)) =
      (if now + kcc_ttl (kr_cache k) < later then None else Some ms)" by (simp add: k' kcCache_get_set)
  ultimately show ?thesis by (auto simp: Members_def split: sum.splits)
qed

theorem members_cached_witness:
  "fst (Members (5 * Minute) ''sre'' ((snd (Members 0 ''sre'' ex_kc))\<lparr>kr_http := (\<lambda>r. Inl (Err ''down''))\<rparr>)) =
     Inr [''lead@ex.org'', ''ops'']"
proof -
  have pre: "\<not> resolver_disabled ex_kc" "kcCache_get 0 ''sre'' (kr_cache ex_kc) = None"
    and ttl: "5 * Minute \<le> 0 + kcc_ttl (kr_cache ex_kc)" by code_simp+
  have run: "Members 0 ''sre'' ex_kc = (Inr [''lead@ex.org'', ''ops''], snd (Members 0 ''sre'' ex_kc))"
    using ex_kc_members by (metis prod.collapse)
  from members_cached [OF pre run, of "5 * Minute" "\<lambda>r. Inl (Err ''down'')"] ttl show ?thesis by simp
qed

text \<open>The outcome of a failed or disabled resolution never reaches the API server: when no lookup succeeds,
  or no resolver is configured, the round writes nothing, although it notes the error, or the word disabled,
  for every group in its copy of the status.\<close>

theorem failed_resolution_not_persisted:
  assumes "\<And>g r. \<exists>e r'. resolve g r = (Inl e, r')"
  shows "fst (updater_runOnce cl (Some resolve) w r) = w \<and> fst (updater_runOnce cl None w r) = w \<and>
    (g \<in> set gs \<longrightarrow> map_of (GroupResolutionStatus (fst (sync_groups None gs st False r))) g = Some ''disabled'')"
proof -
  have "fst (sync_escalations cl (Some resolve) escs w r) = w" for escs
    by (rule sync_unchanged) (simp add: sync_groups_failing [of resolve, OF assms])
  moreover have "fst (sync_escalations cl None escs w r) = w" for escs
    by (rule sync_unchanged) (simp add: sync_groups_disabled)
  ultimately show ?thesis
    using sync_groups_disabled_note [of gs st False r g] by (simp add: updater_runOnce_def split: sum.split)
qed

theorem failed_resolution_not_persisted_witness:
  "fst (updater_runOnce mem_client (Some (\<lambda>g r. (Inl (Err ''keycloak token status 500''), r))) (ref_world [ref_escalation ''e'' [''prod'']]) ()) =
     ref_world [ref_escalation ''e'' [''prod'']]"
  using failed_resolution_not_persisted [of "\<lambda>g r. (Inl (Err ''keycloak token status 500''), r)" mem_client
      "ref_world [ref_escalation ''e'' [''prod'']]" "()"] by blast


end
