(* ===== verification/ConfigChecker.thy ===== *)
theory ConfigChecker
  imports ClusterCache
begin

text \<open>
  The periodic check of the cluster configurations (\<^verbatim>\<open>pkg/breakglass/cluster_config_checker.go\<close>) and the
  recorder of Kubernetes events that it uses (\<^verbatim>\<open>pkg/breakglass/event_recorder.go\<close>).  The API server, the
  parser of kubeconfigs and the version call to the cluster are parameters.
\<close>

subsection \<open>The event recorder\<close>

record k8s_event =
  ev_GenerateName :: string
  ev_Namespace :: string
  ev_InvolvedNamespace :: string
  ev_InvolvedName :: string
  ev_InvolvedUID :: string
  ev_Reason :: string
  ev_Message :: string
  ev_Source :: string
  ev_FirstTimestamp :: instant
  ev_LastTimestamp :: instant
  ev_Count :: int
  ev_Type :: string

text \<open>\<open>rec_create\<close> is the create call of the clientset, \<open>rec_podNamespace\<close> the environment variable
  \<^verbatim>\<open>POD_NAMESPACE\<close>.\<close>

record 'w K8sEventRecorder =
  rec_create :: "string \<Rightarrow> k8s_event \<Rightarrow> 'w \<Rightarrow> 'w \<times> error option"
  rec_source :: string
  rec_podNamespace :: string

definition event_namespace :: "'w K8sEventRecorder \<Rightarrow> ObjectMeta \<Rightarrow> string option" where
  "event_namespace r m =
     (if Namespace m \<noteq> [] then Some (Namespace m)
      else if rec_podNamespace r \<noteq> [] then Some (rec_podNamespace r)
      else None)"

definition Event ::
  "instant \<Rightarrow> 'w K8sEventRecorder \<Rightarrow> ObjectMeta \<Rightarrow> string \<Rightarrow> string \<Rightarrow> string \<Rightarrow> 'w world \<Rightarrow> 'w world" where
  "Event now r m eventtype reason message w =
     (case event_namespace r m of
        None \<Rightarrow> w
      | Some ns \<Rightarrow>
          w\<lparr>api := fst (rec_create r ns
             \<lparr>ev_GenerateName = Name m @ ''-'', ev_Namespace = ns, ev_InvolvedNamespace = ns,
              ev_InvolvedName = Name m, ev_InvolvedUID = UID m, ev_Reason = reason, ev_Message = message,
              ev_Source = rec_source r, ev_FirstTimestamp = now, ev_LastTimestamp = now, ev_Count = 1,
              ev_Type = eventtype\<rparr> (api w))\<rparr>)"

text \<open>\<open>sprintf\<close> formats the message with the arguments; it is not called without arguments.\<close>

definition Eventf ::
  "(string \<Rightarrow> 'a list \<Rightarrow> string) \<Rightarrow> instant \<Rightarrow> 'w K8sEventRecorder \<Rightarrow> ObjectMeta \<Rightarrow> string \<Rightarrow> string \<Rightarrow> string \<Rightarrow> 'a list \<Rightarrow>
   'w world \<Rightarrow> 'w world" where
  "Eventf sprintf now r m eventtype reason messageFmt args w =
     Event now r m eventtype reason (if length args > 0 then sprintf messageFmt args else messageFmt) w"

definition AnnotatedEventf ::
  "(string \<Rightarrow> 'a list \<Rightarrow> string) \<Rightarrow> instant \<Rightarrow> 'w K8sEventRecorder \<Rightarrow> ObjectMeta \<Rightarrow> (string \<times> string) list \<Rightarrow> string \<Rightarrow>
   string \<Rightarrow> string \<Rightarrow> 'a list \<Rightarrow> 'w world \<Rightarrow> 'w world" where
  "AnnotatedEventf sprintf now r m annotations eventtype reason messageFmt args w =
     Event now r m eventtype reason (if length args > 0 then sprintf messageFmt args else messageFmt) w"

subsection \<open>The checker\<close>

record 'w ClusterConfigChecker =
  ck_list :: "'w \<Rightarrow> ClusterConfig list result"
  ck_get_secret :: "object_key \<Rightarrow> 'w \<Rightarrow> (string \<times> string) list result"
  ck_update :: "ClusterConfig \<Rightarrow> 'w \<Rightarrow> 'w \<times> error option"
  ck_update_status :: "ClusterConfig \<Rightarrow> 'w \<Rightarrow> 'w \<times> error option"
  ck_parse_kubeconfig :: "string \<Rightarrow> RestConfig result"
  ck_reachable :: "RestConfig \<Rightarrow> error option"
  ck_recorder :: "'w K8sEventRecorder option"

definition ClusterConfigCheckInterval :: duration where
  "ClusterConfigCheckInterval = 10 * Minute"

definition checker_interval :: "duration \<Rightarrow> duration" where
  "checker_interval interval = (if interval = 0 then ClusterConfigCheckInterval else interval)"

definition setStatusAndEvent ::
  "instant \<Rightarrow> 'w ClusterConfigChecker \<Rightarrow> ClusterConfig \<Rightarrow> string \<Rightarrow> string \<Rightarrow> string \<Rightarrow> 'w world \<Rightarrow> 'w world \<times> error option" where
  "setStatusAndEvent now ck cc0 phase message eventType w =
     (let cc = cc0\<lparr>cc_status := (cc_status cc0)\<lparr>Phase := phase, Message := message, LastCheckTime := now\<rparr>\<rparr>;
          (a, err) = (case ck_update ck cc (api w) of
                        (a1, None) \<Rightarrow> (a1, None)
                      | (a1, Some _) \<Rightarrow> ck_update_status ck cc a1);
          w1 = w\<lparr>api := a\<rparr>
      in if err \<noteq> None then (w1, err)
         else (case ck_recorder ck of
                 None \<Rightarrow> w1
               | Some r \<Rightarrow>
                   Event now r (cc_meta cc) eventType
                     (if eventType = ''Normal'' then ''ClusterConfigValidationSucceeded''
                      else ''ClusterConfigValidationFailed'') message w1, None))"

text \<open>The outcome of the checks for one configuration, before anything is written.\<close>

datatype verdict = NoSecretRef | Failed string | Ready

definition config_verdict :: "'w ClusterConfigChecker \<Rightarrow> ClusterConfig \<Rightarrow> 'w \<Rightarrow> verdict" where
  "config_verdict ck cc a =
     (let ref = KubeconfigSecretRef (cc_spec cc) in
      if SecretName ref = [] \<or> SecretNamespace ref = [] then NoSecretRef
      else (case ck_get_secret ck (SecretNamespace ref, SecretName ref) a of
              Inl e \<Rightarrow> Failed (''Referenced kubeconfig secret missing or unreadable: '' @ error_text e)
            | Inr data \<Rightarrow>
                (let keyName = (if SecretKey ref \<noteq> [] then SecretKey ref else ''value'') in
                 case map_of data keyName of
                   None \<Rightarrow> Failed (''Referenced kubeconfig secret missing key: '' @ keyName)
                 | Some kubecfg \<Rightarrow>
                     (case ck_parse_kubeconfig ck kubecfg of
                        Inl e \<Rightarrow> Failed (''kubeconfig parse failed: '' @ error_text e)
                      | Inr restCfg \<Rightarrow>
                          (case ck_reachable ck restCfg of
                             Some e \<Rightarrow> Failed (''cluster unreachable: '' @ error_text e)
                           | None \<Rightarrow> Ready)))))"

definition check_config :: "instant \<Rightarrow> 'w ClusterConfigChecker \<Rightarrow> ClusterConfig \<Rightarrow> 'w world \<Rightarrow> 'w world" where
  "check_config now ck cc w0 =
     (let w = inc_metric (ClusterConfigsChecked (Name (cc_meta cc))) w0 in
      case config_verdict ck cc (api w) of
        NoSecretRef \<Rightarrow> w
      | Failed msg \<Rightarrow>
          inc_metric (ClusterConfigsFailed (Name (cc_meta cc)))
            (fst (setStatusAndEvent now ck cc ''Failed'' msg ''Warning'' w))
      | Ready \<Rightarrow>
          fst (setStatusAndEvent now ck cc ''Ready'' ''Kubeconfig validated and cluster reachable'' ''Normal'' w))"

definition checker_runOnce :: "instant \<Rightarrow> 'w ClusterConfigChecker \<Rightarrow> 'w world \<Rightarrow> 'w world" where
  "checker_runOnce now ck w =
     (case ck_list ck (api w) of
        Inl _ \<Rightarrow> w
      | Inr items \<Rightarrow> fold (check_config now ck) items w)"

subsection \<open>The contract of the API server\<close>

text \<open>Writes of the checker keep the secrets.  \<^verbatim>\<open>ClusterConfig\<close> has a status subresource, so an update of
  the object keeps the stored status.\<close>

locale config_store =
  fixes ck :: "'w ClusterConfigChecker"
    and stored :: "'w \<Rightarrow> ClusterConfig list"
  assumes update_secret: "ck_get_secret ck k (fst (ck_update ck cc a)) = ck_get_secret ck k a"
    and update_status_secret: "ck_get_secret ck k (fst (ck_update_status ck cc a)) = ck_get_secret ck k a"
    and event_secret: "ck_recorder ck = Some r \<Longrightarrow> ck_get_secret ck k (fst (rec_create r ns ev a)) = ck_get_secret ck k a"
    and update_keeps_status: "ck_update ck cc a = (a', None) \<Longrightarrow> map cc_status (stored a') = map cc_status (stored a)"
    and event_keeps_configs: "ck_recorder ck = Some r \<Longrightarrow> stored (fst (rec_create r ns ev a)) = stored a"
begin

lemma setStatus_secret: "ck_get_secret ck k (api (fst (setStatusAndEvent now ck cc ph msg ty w))) = ck_get_secret ck k (api w)"
proof -
  have upd: "ck_get_secret ck k (fst (case ck_update ck c a of (a1, None) \<Rightarrow> (a1, None) | (a1, Some _) \<Rightarrow> ck_update_status ck c a1)) =
      ck_get_secret ck k a" for c a
    using update_secret [of k c a] update_status_secret [of k c] by (auto split: prod.splits option.splits)
  show ?thesis
    using upd [of "cc\<lparr>cc_status := (cc_status cc)\<lparr>Phase := ph, Message := msg, LastCheckTime := now\<rparr>\<rparr>" "api w"] event_secret
    by (auto simp: setStatusAndEvent_def Event_def Let_def split: prod.splits option.splits)
qed

lemma verdict_stable:
  "(\<And>k. ck_get_secret ck k a = ck_get_secret ck k b) \<Longrightarrow> config_verdict ck cc a = config_verdict ck cc b"
  by (simp add: config_verdict_def Let_def cong: if_cong)

lemma setStatus_counters: "counters (fst (setStatusAndEvent now ck cc ph msg ty w)) = counters w"
  by (auto simp: setStatusAndEvent_def Event_def Let_def split: prod.splits option.splits)

lemma check_config_secret: "ck_get_secret ck k (api (check_config now ck cc w)) = ck_get_secret ck k (api w)"
  by (auto simp: check_config_def Let_def setStatus_secret split: verdict.splits)

definition counted :: "'w \<Rightarrow> ClusterConfig \<Rightarrow> metric list" where
  "counted a cc = ClusterConfigsChecked (Name (cc_meta cc)) #
     (case config_verdict ck cc a of Failed _ \<Rightarrow> [ClusterConfigsFailed (Name (cc_meta cc))] | _ \<Rightarrow> [])"

lemma check_config_counters: "counters (check_config now ck cc w) = counters w @ counted (api w) cc"
  by (auto simp: check_config_def counted_def Let_def setStatus_counters split: verdict.splits)

lemma runOnce_counters:
  "counters (fold (check_config now ck) items w) = counters w @ concat (map (counted (api w)) items)"
proof (induction items arbitrary: w)
  case (Cons cc items)
  have "counted (api (check_config now ck cc w)) = counted (api w)"
    using verdict_stable [of "api (check_config now ck cc w)" "api w"] check_config_secret
    by (simp add: fun_eq_iff counted_def)
  with Cons.IH show ?case by (simp add: check_config_counters)
qed simp

lemma setStatus_keeps_status:
  assumes "ck_update ck (cc\<lparr>cc_status := (cc_status cc)\<lparr>Phase := ph, Message := msg, LastCheckTime := now\<rparr>\<rparr>) (api w) = (a, None)"
  shows "map cc_status (stored (api (fst (setStatusAndEvent now ck cc ph msg ty w)))) = map cc_status (stored (api w))"
    and "snd (setStatusAndEvent now ck cc ph msg ty w) = None"
  using assms update_keeps_status [OF assms] event_keeps_configs
  by (auto simp: setStatusAndEvent_def Event_def Let_def split: option.splits)

end

subsection \<open>An API server in memory\<close>

record config_mem =
  cm_configs :: "ClusterConfig list"
  cm_secrets :: "(object_key \<times> (string \<times> string) list) list"
  cm_events :: "k8s_event list"

definition cm_write :: "(ClusterConfig \<Rightarrow> ClusterConfig \<Rightarrow> ClusterConfig) \<Rightarrow> ClusterConfig \<Rightarrow> config_mem \<Rightarrow> config_mem \<times> error option" where
  "cm_write merge cc a =
     (if list_ex (\<lambda>x. meta_key (cc_meta x) = meta_key (cc_meta cc)) (cm_configs a)
      then (a\<lparr>cm_configs := map (\<lambda>x. if meta_key (cc_meta x) = meta_key (cc_meta cc) then merge x cc else x) (cm_configs a)\<rparr>, None)
      else (a, Some (Err ''not found'')))"

definition cm_recorder :: "config_mem K8sEventRecorder" where
  "cm_recorder = \<lparr>rec_create = (\<lambda>ns ev a. (a\<lparr>cm_events := cm_events a @ [ev]\<rparr>, None)),
     rec_source = ''breakglass-controller'', rec_podNamespace = ''default''\<rparr>"

definition cm_checker :: "(string \<Rightarrow> RestConfig result) \<Rightarrow> (RestConfig \<Rightarrow> error option) \<Rightarrow> config_mem ClusterConfigChecker" where
  "cm_checker parse reach =
     \<lparr>ck_list = (\<lambda>a. Inr (cm_configs a)),
      ck_get_secret = (\<lambda>k a. case map_of (cm_secrets a) k of Some d \<Rightarrow> Inr d | None \<Rightarrow> Inl (Err ''not found'')),
      ck_update = cm_write (\<lambda>x cc. cc\<lparr>cc_status := cc_status x\<rparr>),
      ck_update_status = cm_write (\<lambda>x cc. x\<lparr>cc_status := cc_status cc\<rparr>),
      ck_parse_kubeconfig = parse, ck_reachable = reach, ck_recorder = Some cm_recorder\<rparr>"

interpretation mem_checker: config_store "cm_checker parse reach" cm_configs for parse reach
proof
  fix cc a a'
  assume "ck_update (cm_checker parse reach) cc a = (a', None)"
  then show "map cc_status (cm_configs a') = map cc_status (cm_configs a)"
    by (auto simp: cm_checker_def cm_write_def split: if_splits)
qed (auto simp: cm_checker_def cm_write_def cm_recorder_def)

definition ex_checked :: "string \<Rightarrow> string \<Rightarrow> ClusterConfig" where
  "ex_checked n secret = \<lparr>cc_meta = zero_meta\<lparr>Name := n, Namespace := ''bg''\<rparr>,
     cc_spec = \<lparr>ClusterID = n, Tenant = [], Environment = [], Site = [], Location = [],
       KubeconfigSecretRef = \<lparr>SecretName = secret, SecretNamespace = ''bg'', SecretKey = []\<rparr>,
       QPS = None, Burst = None, BlockSelfApproval = False, AllowedApproverDomains = []\<rparr>,
     cc_status = \<lparr>Phase = [], Message = [], LastCheckTime = 0\<rparr>\<rparr>"

definition ex_check :: "config_mem ClusterConfigChecker" where
  "ex_check = cm_checker
     (\<lambda>raw. Inr \<lparr>rest_Host = ''https://prod'', rest_QPS = None, rest_Burst = None, rest_Credentials = raw\<rparr>) (\<lambda>rc. None)"

definition ex_check_world :: "config_mem world" where
  "ex_check_world = \<lparr>api = \<lparr>cm_configs = [ex_checked ''prod'' ''kc'', ex_checked ''dev'' ''gone'', ex_checked ''lab'' []],
     cm_secrets = [((''bg'', ''kc''), [(''value'', ''kubeconfig'')])], cm_events = []\<rparr>, counters = [], outbox = []\<rparr>"

lemma ex_check_store: "config_store ex_check cm_configs"
  unfolding ex_check_def by (rule mem_checker.config_store_axioms)

subsection \<open>Properties\<close>



text \<open>The result of a check is not stored when the full update succeeds: the status subresource makes the
  API server keep the stored status, and the separate status write is only tried after a failed update.  The
  call reports success and the event is emitted all the same.\<close>

theorem checked_status_lost:
  assumes "config_store ck stored"
    and "ck_update ck (cc\<lparr>cc_status := (cc_status cc)\<lparr>Phase := ph, Message := msg, LastCheckTime := now\<rparr>\<rparr>) (api w) = (a, None)"
  shows "map cc_status (stored (api (fst (setStatusAndEvent now ck cc ph msg ty w)))) = map cc_status (stored (api w)) \<and>
    snd (setStatusAndEvent now ck cc ph msg ty w) = None"
  using config_store.setStatus_keeps_status [OF assms] by simp

theorem checked_status_lost_witness:
  "map cc_status (cm_configs (api (fst (setStatusAndEvent 7 ex_check (ex_checked ''prod'' ''kc'') ''Ready'' ''ok'' ''Normal'' ex_check_world)))) =
     map cc_status (cm_configs (api ex_check_world))"
proof -
  let ?cc = "ex_checked ''prod'' ''kc''"
  have "snd (ck_update ex_check (?cc\<lparr>cc_status := (cc_status ?cc)\<lparr>Phase := ''Ready'', Message := ''ok'', LastCheckTime := 7\<rparr>\<rparr>)
      (api ex_check_world)) = None" by code_simp
  then have "ck_update ex_check (?cc\<lparr>cc_status := (cc_status ?cc)\<lparr>Phase := ''Ready'', Message := ''ok'', LastCheckTime := 7\<rparr>\<rparr>)
      (api ex_check_world) =
    (fst (ck_update ex_check (?cc\<lparr>cc_status := (cc_status ?cc)\<lparr>Phase := ''Ready'', Message := ''ok'', LastCheckTime := 7\<rparr>\<rparr>)
      (api ex_check_world)), None)" by (metis prod.collapse)
  from checked_status_lost [OF ex_check_store this, of "''Normal''"] show ?thesis by (rule conjunct1)
qed

end
