(* ===== verification/Startup.thy ===== *)
theory Startup
  imports ApiServer KeycloakSync ConfigChecker
begin

text \<open>
  The start of the program (\<^verbatim>\<open>cmd/main.go\<close>) with the constructors of the two managers: the order of the
  steps that can end it, the choice of the group resolver, and the intervals of the background tasks.
  The environment, the kubeconfig contexts and the clients are parameters.  Logging is not part of the model;
  the webhook manager, the loops and the listener are in the theory \<^verbatim>\<open>Wiring\<close>; the index functions that
  \<^verbatim>\<open>main\<close> installs are \<open>session_index\<close>, \<open>escalation_index\<close> and \<open>clusterconfig_index\<close> of the theory \<^verbatim>\<open>KubeClient\<close>.
\<close>

subsection \<open>Tickers\<close>

text \<open>\<^verbatim>\<open>time.NewTicker\<close> panics when the interval is not positive.\<close>

definition NewTicker :: "duration \<Rightarrow> duration result" where
  "NewTicker d = (if d \<le> 0 then Inl (Err ''non-positive interval for NewTicker'') else Inr d)"

definition checker_Start :: "duration \<Rightarrow> duration result" where
  "checker_Start interval = NewTicker (checker_interval interval)"

definition updater_Start :: "duration \<Rightarrow> duration result" where
  "updater_Start interval = NewTicker (updater_interval interval)"

definition configured_interval :: "Config \<Rightarrow> duration" where
  "configured_interval cfg =
     (let s = KubernetesConfig.ClusterConfigCheckInterval (cfg_Kubernetes cfg) in
      if s \<noteq> [] then (case ParseDuration s of Some d \<Rightarrow> d | None \<Rightarrow> 10 * Minute) else 10 * Minute)"

subsection \<open>Managers and resolver\<close>

definition NewSessionManager ::
  "(string \<Rightarrow> 'g result) \<Rightarrow> ('g \<Rightarrow> 'c result) \<Rightarrow> string \<Rightarrow> 'c result" where
  "NewSessionManager get_config new_client contextName =
     (case get_config contextName of
        Inl err \<Rightarrow> Inl (wrap_error (''failed to get config with context '' @ Quote contextName) err)
      | Inr cfg \<Rightarrow> map_error (wrap_error ''failed to create new client'') (new_client cfg))"

definition NewEscalationManager ::
  "(string \<Rightarrow> 'g result) \<Rightarrow> ('g \<Rightarrow> 'c result) \<Rightarrow> string \<Rightarrow> KeycloakGroupMemberResolver \<Rightarrow>
   ('c \<times> KeycloakGroupMemberResolver) result" where
  "NewEscalationManager get_config new_client contextName resolver =
     (case get_config contextName of
        Inl err \<Rightarrow> Inl (wrap_error (''failed to get config with context '' @ Quote contextName) err)
      | Inr cfg \<Rightarrow>
          (case new_client cfg of
             Inl err \<Rightarrow> Inl (wrap_error ''failed to create new client'' err)
           | Inr c \<Rightarrow> Inr (c, resolver)))"

text \<open>The resolver with its fields at their zero value; its nil cache is never reached, as it is disabled.\<close>

definition noop_resolver ::
  "(http_request \<Rightarrow> http_response result) \<Rightarrow> (string \<Rightarrow> json result) \<Rightarrow> KeycloakGroupMemberResolver" where
  "noop_resolver http parse = \<lparr>kr_cfg = cfg_Keycloak zero_Config, kr_http = http, kr_parse_json = parse, kr_timeout = 0,
     kr_cache = newKCCache 0\<rparr>"

definition select_resolver ::
  "(http_request \<Rightarrow> http_response result) \<Rightarrow> (string \<Rightarrow> json result) \<Rightarrow> Config \<Rightarrow> KeycloakGroupMemberResolver" where
  "select_resolver http parse cfg =
     (let kc = cfg_Keycloak cfg in
      if \<not> Disable kc \<and> kc_BaseURL kc \<noteq> [] \<and> Realm kc \<noteq> [] \<and> ClientID kc \<noteq> []
      then NewKeycloakGroupMemberResolver http parse kc
      else noop_resolver http parse)"

subsection \<open>The program\<close>

record ('g, 'c, 'k) start_deps =
  sd_load :: "Config \<times> error option"
  sd_getenv :: "string \<Rightarrow> string"
  sd_pem_ok :: "string \<Rightarrow> bool"
  sd_fetch_jwks :: "tls_mode \<Rightarrow> string \<Rightarrow> 'k result"
  sd_parse_url :: "string \<Rightarrow> string result"
  sd_get_config :: "string \<Rightarrow> 'g result"
  sd_new_client :: "'g \<Rightarrow> 'c result"
  sd_clientset :: "error option"
  sd_http :: "http_request \<Rightarrow> http_response result"
  sd_parse_json :: "string \<Rightarrow> json result"

record ('c, 'k) running =
  run_keys :: 'k
  run_server :: Server
  run_routes :: "route list"
  run_session_client :: 'c
  run_escalation_client :: 'c
  run_resolver :: KeycloakGroupMemberResolver
  run_updater_interval :: duration
  run_event_namespace :: string
  run_checker_interval :: duration
  run_webhook_manager :: bool

definition NewAuth :: "('g, 'c, 'k) start_deps \<Rightarrow> Config \<Rightarrow> 'k result" where
  "NewAuth d cfg =
     (case NewAuth_tls (sd_pem_ok d) cfg of
        Inl e \<Rightarrow> Inl e
      | Inr mode \<Rightarrow> map_error (wrap_error ''Could not get JWKS'') (sd_fetch_jwks d mode (jwks_url cfg)))"

definition main_start :: "('g, 'c, 'k) start_deps \<Rightarrow> ('c, 'k) running result" where
  "main_start d =
     (case sd_load d of
        (_, Some err) \<Rightarrow> Inl (wrap_error ''Error loading config for breakglass controller'' err)
      | (cfg, None) \<Rightarrow>
     (case NewAuth d cfg of
        Inl err \<Rightarrow> Inl err
      | Inr keys \<Rightarrow>
     (case NewSessionManager (sd_get_config d) (sd_new_client d) (KubeContext (cfg_Kubernetes cfg)) of
        Inl err \<Rightarrow> Inl (wrap_error ''Error creating breakglass session manager'' err)
      | Inr sessionManager \<Rightarrow>
     (case NewEscalationManager (sd_get_config d) (sd_new_client d) (KubeContext (cfg_Kubernetes cfg))
             (select_resolver (sd_http d) (sd_parse_json d) cfg) of
        Inl err \<Rightarrow> Inl (wrap_error ''Error creating breakglass escalation manager'' err)
      | Inr (escalationClient, resolver) \<Rightarrow>
     (case RegisterAll main_controllers server_routes of
        (_, Some err) \<Rightarrow> Inl (wrap_error ''Error registering breakglass controllers'' err)
      | (routes, None) \<Rightarrow>
     (case sd_clientset d of
        Some err \<Rightarrow> Inl (wrap_error ''failed to create kubernetes clientset for event recorder'' err)
      | None \<Rightarrow>
          let podNs = sd_getenv d ''POD_NAMESPACE'';
              enableMgr = sd_getenv d ''ENABLE_WEBHOOK_MANAGER''
          in Inr \<lparr>run_keys = keys, run_server = NewServer (sd_parse_url d) cfg, run_routes = routes,
                  run_session_client = sessionManager, run_escalation_client = escalationClient,
                  run_resolver = resolver, run_updater_interval = 10 * Minute,
                  run_event_namespace = (if podNs = [] then ''default'' else podNs),
                  run_checker_interval = configured_interval cfg,
                  run_webhook_manager = (enableMgr = [] \<or> enableMgr = ''true'')\<rparr>))))))"

subsection \<open>Facts\<close>

lemma select_resolver_disabled:
  "resolver_disabled (select_resolver http parse cfg) \<longleftrightarrow>
     Disable (cfg_Keycloak cfg) \<or> kc_BaseURL (cfg_Keycloak cfg) = [] \<or> Realm (cfg_Keycloak cfg) = [] \<or>
     ClientID (cfg_Keycloak cfg) = []"
  by (auto simp: select_resolver_def resolver_disabled_def noop_resolver_def NewKeycloakGroupMemberResolver_def
      zero_Config_def Let_def)

lemma NewAuth_tls_skip:
  "NewAuth_tls ok cfg = Inr SkipVerify \<Longrightarrow> as_InsecureSkipVerify (cfg_AuthorizationServer cfg)"
  by (auto simp: NewAuth_tls_def Let_def split: if_splits)

lemma ParseDuration_zero_str: "ParseDuration [] = None"
  by code_simp

subsection \<open>Properties\<close>

text \<open>C21. A program that starts has a configuration that loaded without error, all routes, and a key set that was
  fetched from the configured endpoint over a connection whose certificate was checked, unless the
  configuration explicitly says otherwise.\<close>

theorem start_up_verifies_keys:
  assumes "main_start d = Inr run"
  shows "snd (sd_load d) = None \<and> run_routes run = main_routes \<and> srv_config (run_server run) = fst (sd_load d) \<and>
    (\<exists>mode. sd_fetch_jwks d mode (jwks_url (fst (sd_load d))) = Inr (run_keys run) \<and>
       (mode = SkipVerify \<longrightarrow> as_InsecureSkipVerify (cfg_AuthorizationServer (fst (sd_load d)))))"
proof -
  obtain cfg err where l: "sd_load d = (cfg, err)" by force
  from assms l have "err = None" by (auto simp: main_start_def split: option.splits)
  with l assms obtain keys where k: "NewAuth d cfg = Inr keys" by (auto simp: main_start_def split: sum.splits)
  with assms l \<open>err = None\<close> have run: "run_keys run = keys" "run_routes run = main_routes"
    "srv_config (run_server run) = cfg"
    by (auto simp: main_start_def main_routes_def NewServer_def Let_def split: sum.splits prod.splits option.splits)
  from k obtain mode where "NewAuth_tls (sd_pem_ok d) cfg = Inr mode" "sd_fetch_jwks d mode (jwks_url cfg) = Inr keys"
    by (auto simp: NewAuth_def map_error_def split: sum.splits)
  with run l \<open>err = None\<close> NewAuth_tls_skip show ?thesis by auto
qed

definition ex_start :: "Config \<Rightarrow> (unit, unit, string) start_deps" where
  "ex_start cfg = \<lparr>sd_load = (cfg, None), sd_getenv = (\<lambda>_. []), sd_pem_ok = (\<lambda>_. True),
     sd_fetch_jwks = (\<lambda>mode url. if mode = SystemRoots then Inr ''keys'' else Inl (Err ''refused'')),
     sd_parse_url = Inr, sd_get_config = (\<lambda>_. Inr ()), sd_new_client = (\<lambda>_. Inr ()), sd_clientset = None,
     sd_http = (\<lambda>_. Inl (Err ''offline'')), sd_parse_json = (\<lambda>_. Inl (Err ''no json''))\<rparr>"

theorem start_up_verifies_keys_witness:
  "\<exists>run. main_start (ex_start zero_Config) = Inr run \<and> run_routes run = main_routes"
proof -
  obtain run where run: "main_start (ex_start zero_Config) = Inr run"
  proof -
    have "case main_start (ex_start zero_Config) of Inl _ \<Rightarrow> False | Inr _ \<Rightarrow> True" by code_simp
    then show ?thesis using that by (auto split: sum.splits)
  qed
  with start_up_verifies_keys [OF run] show ?thesis by blast
qed

text \<open>The background tasks and their tickers: the status updater always starts with a positive interval; the
  configuration checker panics exactly when the configured interval is a negative duration, while an empty,
  an unreadable and a zero setting all mean ten minutes.\<close>

theorem background_tickers:
  "(\<exists>d. updater_Start interval = Inr d \<and> 0 < d) \<and>
   (checker_Start (configured_interval cfg) = Inl (Err ''non-positive interval for NewTicker'') \<longleftrightarrow>
      (\<exists>v < 0. ParseDuration (KubernetesConfig.ClusterConfigCheckInterval (cfg_Kubernetes cfg)) = Some v)) \<and>
   (ParseDuration (KubernetesConfig.ClusterConfigCheckInterval (cfg_Kubernetes cfg)) \<in> {None, Some 0} \<longleftrightarrow>
      checker_Start (configured_interval cfg) = Inr (10 * Minute) \<and>
      ParseDuration (KubernetesConfig.ClusterConfigCheckInterval (cfg_Kubernetes cfg)) \<noteq> Some (10 * Minute))"
proof -
  let ?s = "KubernetesConfig.ClusterConfigCheckInterval (cfg_Kubernetes cfg)"
  have conf: "configured_interval cfg = (case ParseDuration ?s of Some d \<Rightarrow> d | None \<Rightarrow> 10 * Minute)"
    by (auto simp: configured_interval_def Let_def ParseDuration_zero_str split: option.splits)
  have pos: "\<exists>d. updater_Start interval = Inr d \<and> 0 < d"
    by (auto simp: updater_Start_def NewTicker_def updater_interval_def Minute_def)
  show ?thesis
    using pos by (cases "ParseDuration ?s")
      (auto simp: conf checker_Start_def NewTicker_def checker_interval_def ConfigChecker.ClusterConfigCheckInterval_def Minute_def)
qed

text \<open>A negative setting is a readable duration, so the fallback does not apply to it.\<close>

lemma negative_interval_panics:
  "checker_Start (configured_interval (zero_Config\<lparr>cfg_Kubernetes := (cfg_Kubernetes zero_Config)
     \<lparr>KubernetesConfig.ClusterConfigCheckInterval := ''-1m''\<rparr>\<rparr>)) = Inl (Err ''non-positive interval for NewTicker'')"
  by code_simp

end
