(* ===== verification/UserGroups.thy ===== *)
theory UserGroups
  imports SessionController Webhook
begin

text \<open>
  How the groups of a user are found when the token does not carry them
  (\<^verbatim>\<open>pkg/breakglass/group_checker.go\<close> and the closure in \<^verbatim>\<open>NewBreakglassSessionController\<close>), and the
  escalation controller (\<^verbatim>\<open>pkg/breakglass/escalation_controller.go\<close>) that lists the escalations open to a
  user.  Kubeconfig contexts, clients and the self subject reviews of the clusters are parameters.
\<close>

subsection \<open>Groups from a cluster\<close>

datatype auth_version = AuthenticationV1 | AuthenticationV1beta1 | AuthenticationV1alpha1

text \<open>\<open>rd_review\<close> is the create call for a self subject review of one API version, made as the given user:
  the groups, or an error with the answer of \<^verbatim>\<open>IsNotFound\<close> for it.\<close>

record review_deps =
  rd_load :: "Config \<times> error option"
  rd_context :: "string \<Rightarrow> RestConfig result"
  rd_new_client :: "RestConfig \<Rightarrow> string \<Rightarrow> error option"
  rd_review :: "auth_version \<Rightarrow> RestConfig \<Rightarrow> string \<Rightarrow> (bool \<times> error) + string list"

definition getConfigForClusterName :: "review_deps \<Rightarrow> string \<Rightarrow> RestConfig result" where
  "getConfigForClusterName d name =
     (case rd_context d name of
        Inr cfg \<Rightarrow> Inr cfg
      | Inl err \<Rightarrow> (case rd_context d (''kind-'' @ name) of Inr kindCfg \<Rightarrow> Inr kindCfg | Inl _ \<Rightarrow> Inl err))"

text \<open>What a create call returns, and the user in it: every version has the groups in the same place.\<close>

datatype runtime_object = SelfSubjectReview auth_version "string list" | OtherObject string

fun getUserInfo :: "runtime_object \<Rightarrow> string list result" where
  "getUserInfo (SelfSubjectReview AuthenticationV1alpha1 groups) = Inr groups"
| "getUserInfo (SelfSubjectReview AuthenticationV1beta1 groups) = Inr groups"
| "getUserInfo (SelfSubjectReview AuthenticationV1 groups) = Inr groups"
| "getUserInfo (OtherObject t) = Inl (Err (''unexpected response type '' @ t @ '', expected SelfSubjectReview''))"

text \<open>The fallback to older versions of the API.\<close>

definition create_review :: "review_deps \<Rightarrow> auth_version \<Rightarrow> RestConfig \<Rightarrow> string \<Rightarrow> (bool \<times> error) + runtime_object" where
  "create_review d v rc user =
     (case rd_review d v rc user of Inl e \<Rightarrow> Inl e | Inr groups \<Rightarrow> Inr (SelfSubjectReview v groups))"

fun review_versions :: "review_deps \<Rightarrow> RestConfig \<Rightarrow> string \<Rightarrow> auth_version list \<Rightarrow> (bool \<times> error) + runtime_object" where
  "review_versions d rc user [] = Inl (True, Err ''no version'')"
| "review_versions d rc user [v] = create_review d v rc user"
| "review_versions d rc user (v # vs) =
     (case create_review d v rc user of
        Inl (True, _) \<Rightarrow> review_versions d rc user vs
      | r \<Rightarrow> r)"

definition GetUserGroups :: "review_deps \<Rightarrow> ClusterUserGroup \<Rightarrow> string list result" where
  "GetUserGroups d cug =
     (case getConfigForClusterName d (cug_Clustername cug) of
        Inl e \<Rightarrow> Inl (wrap_error ''failed to get config'' e)
      | Inr kubeCfg \<Rightarrow>
          (case rd_new_client d kubeCfg (cug_Username cug) of
             Some e \<Rightarrow> Inl (wrap_error ''failed to create client'' e)
           | None \<Rightarrow>
               (case review_versions d kubeCfg (cug_Username cug)
                       [AuthenticationV1, AuthenticationV1beta1, AuthenticationV1alpha1] of
                  Inl (_, e) \<Rightarrow> Inl (wrap_error ''failed to get users subject review'' e)
                | Inr res \<Rightarrow>
                    (case getUserInfo res of
                       Inl e \<Rightarrow> Inl (wrap_error ''failed to get user info from response'' e)
                     | Inr originalGroups \<Rightarrow>
                         let prefixes = OIDCPrefixes (cfg_Kubernetes (fst (rd_load d))) in
                         Inr (if length prefixes > 0 then stripOIDCPrefixes originalGroups prefixes else originalGroups)))))"

definition CanGroupsDoLegacy ::
  "review_deps \<Rightarrow> (RestConfig \<Rightarrow> string list \<Rightarrow> error option) \<Rightarrow>
   (RestConfig \<Rightarrow> string list \<Rightarrow> ResourceAttributes \<Rightarrow> bool result) \<Rightarrow>
   string list \<Rightarrow> SubjectAccessReview \<Rightarrow> string \<Rightarrow> bool result" where
  "CanGroupsDoLegacy d new_client create_ssar groups sar clustername =
     (case getConfigForClusterName d clustername of
        Inl e \<Rightarrow> Inl e
      | Inr rc \<Rightarrow> CanGroupsDo new_client create_ssar (Some rc) groups sar clustername)"

text \<open>The function that the session controller uses: the REST configuration of the cluster first, the
  kubeconfig contexts when there is none.\<close>

definition controller_getUserGroups ::
  "review_deps \<Rightarrow> 'w provider_deps option \<Rightarrow> ClusterUserGroup \<Rightarrow> 'w world \<Rightarrow> ClientProvider \<Rightarrow>
   string list result \<times> ClientProvider" where
  "controller_getUserGroups d provider cug w p =
     (case provider of
        None \<Rightarrow> (GetUserGroups d cug, p)
      | Some pd \<Rightarrow>
          (case GetRESTConfig pd (cug_Clustername cug) w p of
             (Inl _, p') \<Rightarrow> (GetUserGroups d cug, p')
           | (Inr rc, p') \<Rightarrow>
               ((case rd_new_client d rc (cug_Username cug) of
                   Some e \<Rightarrow> Inl (wrap_error ''remote client construction failed'' e)
                 | None \<Rightarrow>
                     (case rd_review d AuthenticationV1 rc (cug_Username cug) of
                        Inl (_, e) \<Rightarrow> Inl (wrap_error ''remote SelfSubjectReview failed'' e)
                      | Inr groups \<Rightarrow>
                          Inr (if length (loaded_prefixes (rd_load d)) > 0
                               then stripOIDCPrefixes groups (loaded_prefixes (rd_load d)) else groups))), p')))"

subsection \<open>The escalation controller\<close>

record 'w BreakglassEscalationController =
  ec_client :: "'w client"
  ec_load :: "Config \<times> error option"
  ec_getUserGroupsFn :: "ClusterUserGroup \<Rightarrow> string list result"

definition dropK8sInternalFieldsEscalationList :: "BreakglassEscalation list \<Rightarrow> BreakglassEscalation list" where
  "dropK8sInternalFieldsEscalationList xs = map dropK8sInternalFieldsEscalation xs"

definition caller_groups :: "'w BreakglassEscalationController \<Rightarrow> request_context \<Rightarrow> string list result" where
  "caller_groups ec c =
     (let token = (case ctx_groups c of Some arr \<Rightarrow> arr | None \<Rightarrow> []);
          resolved = (if length token = 0
                      then ec_getUserGroupsFn ec \<lparr>cug_Clustername = [], cug_Username = ctx_email c, cug_GroupName = []\<rparr>
                      else Inr token)
      in case resolved of
           Inl e \<Rightarrow> Inl e
         | Inr groups \<Rightarrow>
             Inr (if length (loaded_prefixes (ec_load ec)) > 0
                  then stripOIDCPrefixes groups (loaded_prefixes (ec_load ec)) else groups))"

definition handleGetEscalations :: "'w BreakglassEscalationController \<Rightarrow> request_context \<Rightarrow> 'w world \<Rightarrow> response" where
  "handleGetEscalations ec c w =
     (case GetEmail c of
        Inl _ \<Rightarrow> JSONText 500 ''failed to extract user identity''
      | Inr email \<Rightarrow>
          (case caller_groups ec c of
             Inl _ \<Rightarrow> JSONText 500 ''failed to extract user groups''
           | Inr userGroups \<Rightarrow>
               (case GetGroupBreakglassEscalations (ec_client ec) (ec_load ec) userGroups w of
                  Inl _ \<Rightarrow> JSONText 500 ''failed to extract user escalations''
                | Inr escalations \<Rightarrow> JSONEscalations 200 (dropK8sInternalFieldsEscalationList escalations))))"

subsection \<open>Facts\<close>

lemma create_review_Inr:
  "create_review d v rc user = Inr res \<longleftrightarrow> (\<exists>gs. rd_review d v rc user = Inr gs \<and> res = SelfSubjectReview v gs)"
  by (auto simp: create_review_def split: sum.splits)

lemma create_review_Inl: "create_review d v rc user = Inl e \<longleftrightarrow> rd_review d v rc user = Inl e"
  by (auto simp: create_review_def split: sum.splits)

lemma getUserInfo_review [simp]: "getUserInfo (SelfSubjectReview v gs) = Inr gs"
  by (cases v) simp_all

lemma review_versions_Inr:
  "review_versions d rc user vs = Inr res \<Longrightarrow> \<exists>i < length vs. \<exists>gs. rd_review d (vs ! i) rc user = Inr gs \<and>
     res = SelfSubjectReview (vs ! i) gs \<and> (\<forall>j < i. \<exists>e. rd_review d (vs ! j) rc user = Inl (True, e))"
proof (induction d rc user vs rule: review_versions.induct)
  case (3 d rc user v v' vs)
  show ?case
  proof (cases "create_review d v rc user")
    case (Inr x)
    with 3 show ?thesis by (intro exI [of _ 0]) (auto simp: create_review_Inr)
  next
    case (Inl x)
    then obtain e where e: "create_review d v rc user = Inl (True, e)" "review_versions d rc user (v' # vs) = Inr res"
      using "3.prems" by (auto split: prod.splits bool.splits)
    from "3.IH" [OF e(1) refl refl e(2)] obtain i gs where "i < length (v' # vs)"
      "rd_review d ((v' # vs) ! i) rc user = Inr gs" "res = SelfSubjectReview ((v' # vs) ! i) gs"
      "\<forall>j < i. \<exists>e. rd_review d ((v' # vs) ! j) rc user = Inl (True, e)" by blast
    then show ?thesis using e(1) by (intro exI [of _ "Suc i"] conjI exI [of _ gs]) (auto simp: less_Suc_eq_0_disj create_review_Inl)
  qed
qed (auto simp: create_review_Inr)

lemma getConfig_source:
  "getConfigForClusterName d name = Inr rc \<Longrightarrow> rd_context d name = Inr rc \<or> rd_context d (''kind-'' @ name) = Inr rc"
  by (auto simp: getConfigForClusterName_def split: sum.splits)

text \<open>Without configured prefixes stripping changes nothing, so the guard on the number of prefixes is only
  an optimisation.\<close>

lemma strip_no_prefixes [simp]: "stripOIDCPrefixes gs [] = gs"
  by (induction gs) (simp_all add: stripOIDCPrefixes_def)

subsection \<open>Properties\<close>

text \<open>The groups of a user on a cluster: when the lookup through the kubeconfig contexts answers, the
  context is the one named after the cluster, or the kind context when the first does not exist; the groups
  are those of the first API version that the server knows, and configured OIDC prefixes are stripped.\<close>

theorem user_groups_from_first_api:
  assumes "GetUserGroups d cug = Inr gs"
  shows "\<exists>rc i original. i < 3 \<and>
    (rd_context d (cug_Clustername cug) = Inr rc \<or> rd_context d (''kind-'' @ cug_Clustername cug) = Inr rc) \<and>
    rd_review d ([AuthenticationV1, AuthenticationV1beta1, AuthenticationV1alpha1] ! i) rc (cug_Username cug) =
      Inr original \<and>
    (\<forall>j < i. \<exists>e. rd_review d ([AuthenticationV1, AuthenticationV1beta1, AuthenticationV1alpha1] ! j) rc
       (cug_Username cug) = Inl (True, e)) \<and>
    gs = stripOIDCPrefixes original (OIDCPrefixes (cfg_Kubernetes (fst (rd_load d))))"
proof -
  let ?vs = "[AuthenticationV1, AuthenticationV1beta1, AuthenticationV1alpha1]"
  from assms obtain rc res where rc: "getConfigForClusterName d (cug_Clustername cug) = Inr rc"
    and rv: "review_versions d rc (cug_Username cug) ?vs = Inr res"
    by (auto simp: GetUserGroups_def split: sum.splits option.splits prod.splits)
  from review_versions_Inr [OF rv] obtain i original where i: "i < length ?vs"
    "rd_review d (?vs ! i) rc (cug_Username cug) = Inr original"
    "\<forall>j < i. \<exists>e. rd_review d (?vs ! j) rc (cug_Username cug) = Inl (True, e)"
    and res: "res = SelfSubjectReview (?vs ! i) original" by blast
  have gs: "gs = stripOIDCPrefixes original (OIDCPrefixes (cfg_Kubernetes (fst (rd_load d))))"
    using assms rc rv res by (auto simp: GetUserGroups_def Let_def split: option.splits if_splits)
  have "i < 3" using i(1) by simp
  with i(2,3) getConfig_source [OF rc] gs show ?thesis by blast
qed

definition ex_review :: review_deps where
  "ex_review = \<lparr>rd_load = (zero_Config, None),
     rd_context = (\<lambda>n. if n = ''kind-prod''
       then Inr \<lparr>rest_Host = ''h'', rest_QPS = None, rest_Burst = None, rest_Credentials = []\<rparr> else Inl (Err ''no context'')),
     rd_new_client = (\<lambda>_ _. None),
     rd_review = (\<lambda>v _ _. if v = AuthenticationV1beta1 then Inr [''dev''] else Inl (True, Err ''not found''))\<rparr>"

theorem user_groups_from_first_api_witness:
  "\<exists>rc. rd_context ex_review ''kind-prod'' = Inr rc \<and>
     rd_review ex_review AuthenticationV1beta1 rc ''dev@ex.org'' = Inr [''dev'']"
proof -
  let ?c = "\<lparr>cug_Clustername = ''prod'', cug_Username = ''dev@ex.org'', cug_GroupName = []\<rparr>"
  have g: "GetUserGroups ex_review ?c = Inr [''dev'']" by code_simp
  show ?thesis using user_groups_from_first_api [OF g] by (auto simp: ex_review_def)
qed

text \<open>C25. The list of escalations that a caller gets holds only stored escalations, without their managed
  fields and last applied configuration, that allow one of the caller's groups: the groups of the token, or
  those of the lookup when the token has none, with the configured prefixes stripped.\<close>

theorem escalations_listed_are_allowed:
  assumes "escalation_listing (ec_client ec) stored"
    and "handleGetEscalations ec c w = JSONEscalations 200 listed" "e \<in> set listed"
  shows "\<exists>gs be. caller_groups ec c = Inr gs \<and> be \<in> set (stored (api w)) \<and>
    e = dropK8sInternalFieldsEscalation be \<and> ManagedFields (be_meta e) = [] \<and> be_spec e = be_spec be \<and>
    set gs \<inter> set (normalized_allowed (loaded_prefixes (ec_load ec)) be) \<noteq> {}"
proof -
  from assms(2) obtain gs found where gs: "caller_groups ec c = Inr gs"
    and found: "GetGroupBreakglassEscalations (ec_client ec) (ec_load ec) gs w = Inr found"
    and listed: "listed = map dropK8sInternalFieldsEscalation found"
    by (auto simp: handleGetEscalations_def dropK8sInternalFieldsEscalationList_def split: sum.splits)
  from listed assms(3) obtain be where be: "be \<in> set found" "e = dropK8sInternalFieldsEscalation be" by auto
  from escalation_listing.group_lookup_sound [OF assms(1) found be(1)] gs be(2) show ?thesis
    by (auto simp: group_match_iff dropK8sInternalFieldsEscalation_def drop_internal_meta_def)
qed

definition ex_ec :: "string list \<Rightarrow> mem_api BreakglassEscalationController" where
  "ex_ec oidc = \<lparr>ec_client = mem_client,
     ec_load = (zero_Config\<lparr>cfg_Kubernetes := (cfg_Kubernetes zero_Config)\<lparr>OIDCPrefixes := oidc\<rparr>\<rparr>, None),
     ec_getUserGroupsFn = (\<lambda>_. Inr [])\<rparr>"

theorem escalations_listed_are_allowed_witness:
  "\<exists>be \<in> set (m_escalations (api (ex_world []))). dropK8sInternalFieldsEscalation be =
     dropK8sInternalFieldsEscalation ex_escalation \<and> ''dev'' \<in> set (Groups (Allowed (be_spec be)))"
proof -
  have l: "escalation_listing (ec_client (ex_ec [])) m_escalations"
    using mem_escalations.escalation_listing_axioms by (simp add: ex_ec_def)
  have h: "handleGetEscalations (ex_ec []) ex_dev (ex_world []) =
      JSONEscalations 200 [dropK8sInternalFieldsEscalation ex_escalation]" by code_simp
  have c: "caller_groups (ex_ec []) ex_dev = Inr [''dev'']" by code_simp
  have p: "loaded_prefixes (ec_load (ex_ec [])) = []" by code_simp
  from escalations_listed_are_allowed [OF l h, of "dropK8sInternalFieldsEscalation ex_escalation"] c p show ?thesis
    by (auto simp: normalized_allowed_def)
qed

text \<open>An escalation whose allowed group carries an OIDC prefix is open to the caller, but it is left out as soon
  as the index finds another escalation: the index holds the group names as written, and its hits end the
  search.\<close>

definition prefixed_escalation :: BreakglassEscalation where
  "prefixed_escalation = ex_escalation\<lparr>be_meta := (be_meta ex_escalation)\<lparr>Name := ''prod-view''\<rparr>,
     be_spec := (be_spec ex_escalation)\<lparr>Allowed := \<lparr>Clusters = [''prod''], Groups = [''oidc:dev'']\<rparr>\<rparr>\<rparr>"

definition prefixed_world :: "BreakglassEscalation list \<Rightarrow> mem_api world" where
  "prefixed_world es = (ex_world [])\<lparr>api := (ex_api [] [])\<lparr>m_escalations := es\<rparr>\<rparr>"

lemma index_hits_hide_prefixed:
  "handleGetEscalations (ex_ec [''oidc:'']) ex_dev (prefixed_world [prefixed_escalation]) =
     JSONEscalations 200 [dropK8sInternalFieldsEscalation prefixed_escalation]"
  "handleGetEscalations (ex_ec [''oidc:'']) ex_dev (prefixed_world [ex_escalation, prefixed_escalation]) =
     JSONEscalations 200 [dropK8sInternalFieldsEscalation ex_escalation]"
  by code_simp+

end
