(* ===== verification/MailTemplates.thy ===== *)
theory MailTemplates
  imports SessionState
begin

text \<open>
  The mail bodies of \<^verbatim>\<open>pkg/mail/templates.go\<close>: the parameters of each mail and the template that renders it.
  The template engine is a library: parsing and executing a template are parameters, and the texts of the four
  embedded HTML files are arguments.
\<close>

subsection \<open>Parameters\<close>

record RequestMailParams =
  rm_SubjectFullName :: string
  rm_SubjectEmail :: string
  rm_RequestedRole :: string
  rm_URL :: string
  rm_BrandingName :: string

record ApprovedMailParams =
  am_SubjectFullName :: string
  am_SubjectEmail :: string
  am_RequestedRole :: string
  am_ApproverFullName :: string
  am_ApproverEmail :: string
  am_BrandingName :: string

datatype mail_params =
    RequestParams RequestMailParams
  | ApprovedParams ApprovedMailParams
  | SessionParams RequestBreakglassSessionMailParams

subsection \<open>Templates\<close>

record 't templates =
  requestTemplate :: 't
  approvedTempate :: 't
  breakglassSessionTemplate :: 't
  breakglassNotificationTemplate :: 't

text \<open>\<open>parse name raw\<close> is \<^verbatim>\<open>template.New(name).Parse(raw)\<close>; an error is the panic of \<^verbatim>\<open>init\<close>.\<close>

definition init_templates ::
  "(string \<Rightarrow> string \<Rightarrow> 't result) \<Rightarrow> string \<Rightarrow> string \<Rightarrow> string \<Rightarrow> string \<Rightarrow> 't templates result" where
  "init_templates parse requestTemplateRaw approvedTemplateRaw breakglassSessionReqTemplateRaw breakglassSessionNotifiTemplateRaw =
     (case parse ''request'' requestTemplateRaw of Inl err \<Rightarrow> Inl err | Inr request \<Rightarrow>
     (case parse ''approved'' approvedTemplateRaw of Inl err \<Rightarrow> Inl err | Inr approved \<Rightarrow>
     (case parse ''breakglassSessionRequest'' breakglassSessionReqTemplateRaw of Inl err \<Rightarrow> Inl err | Inr session \<Rightarrow>
     (case parse ''breakglassSessionNotification'' breakglassSessionNotifiTemplateRaw of Inl err \<Rightarrow> Inl err | Inr notification \<Rightarrow>
        Inr \<lparr>requestTemplate = request, approvedTempate = approved, breakglassSessionTemplate = session,
             breakglassNotificationTemplate = notification\<rparr>))))"

text \<open>\<open>execute\<close> gives what was written to the buffer and the error.\<close>

definition render :: "('t \<Rightarrow> mail_params \<Rightarrow> string \<times> error option) \<Rightarrow> 't \<Rightarrow> mail_params \<Rightarrow> string \<times> error option" where
  "render execute t p = (case execute t p of (b, err) \<Rightarrow> (b, err))"

definition RenderRequest ::
  "('t \<Rightarrow> mail_params \<Rightarrow> string \<times> error option) \<Rightarrow> 't templates \<Rightarrow> RequestMailParams \<Rightarrow> string \<times> error option" where
  "RenderRequest execute ts p = render execute (requestTemplate ts) (RequestParams p)"

definition RenderApproved ::
  "('t \<Rightarrow> mail_params \<Rightarrow> string \<times> error option) \<Rightarrow> 't templates \<Rightarrow> ApprovedMailParams \<Rightarrow> string \<times> error option" where
  "RenderApproved execute ts p = render execute (approvedTempate ts) (ApprovedParams p)"

definition RenderBreakglassSessionRequest ::
  "('t \<Rightarrow> mail_params \<Rightarrow> string \<times> error option) \<Rightarrow> 't templates \<Rightarrow> RequestBreakglassSessionMailParams \<Rightarrow>
   string \<times> error option" where
  "RenderBreakglassSessionRequest execute ts p = render execute (breakglassSessionTemplate ts) (SessionParams p)"

definition RenderBreakglassSessionNotification ::
  "('t \<Rightarrow> mail_params \<Rightarrow> string \<times> error option) \<Rightarrow> 't templates \<Rightarrow> RequestBreakglassSessionMailParams \<Rightarrow>
   string \<times> error option" where
  "RenderBreakglassSessionNotification execute ts p = render execute (breakglassSessionTemplate ts) (SessionParams p)"

subsection \<open>Facts\<close>

text \<open>The notification is the mail of a request: the template that was parsed for it is never executed.\<close>

lemma notification_is_request:
  "RenderBreakglassSessionNotification execute (ts\<lparr>breakglassNotificationTemplate := t\<rparr>) p =
     RenderBreakglassSessionRequest execute ts p"
  by (simp add: RenderBreakglassSessionNotification_def RenderBreakglassSessionRequest_def)

text \<open>Once \<^verbatim>\<open>init\<close> has passed, every renderer executes a template that was parsed.\<close>

lemma init_templates_parsed:
  "init_templates parse a b c d = Inr ts \<Longrightarrow> parse ''request'' a = Inr (requestTemplate ts) \<and>
     parse ''approved'' b = Inr (approvedTempate ts) \<and>
     parse ''breakglassSessionRequest'' c = Inr (breakglassSessionTemplate ts) \<and>
     parse ''breakglassSessionNotification'' d = Inr (breakglassNotificationTemplate ts)"
  by (auto simp: init_templates_def split: sum.splits)

end
