(* ===== verification/Wiring.thy ===== *)
theory Wiring
  imports Startup UserGroups MailTemplates Expiry
begin

text \<open>
  How the parts are put together and kept running: the constructors of the controllers, the manager of the
  admission webhooks that \<^verbatim>\<open>cmd/main.go\<close> starts in the background with the schemes of \<^verbatim>\<open>api/v1alpha1\<close> and
  \<^verbatim>\<open>pkg/breakglass/scheme.go\<close>, the loops of the periodic tasks, and the listener.  The manager itself and the
  listener are libraries and parameters.
\<close>

subsection \<open>Constructors\<close>

text \<open>The function for the groups of a user reads the cluster provider \<open>p\<close> as it is when it is called.\<close>

definition NewBreakglassSessionController ::
  "'w client \<Rightarrow> Config \<Rightarrow> (Config \<times> error option) \<Rightarrow> review_deps \<Rightarrow> 'w provider_deps option \<Rightarrow> 'w world \<Rightarrow> ClientProvider \<Rightarrow>
   ('t \<Rightarrow> mail_params \<Rightarrow> string \<times> error option) \<Rightarrow> 't templates \<Rightarrow> (mail_message \<Rightarrow> error option) \<Rightarrow> string \<Rightarrow>
   'w BreakglassSessionController" where
  "NewBreakglassSessionController cl cfg load d ccProvider w p execute ts dial disable_email =
     \<lparr>wc_client = cl, wc_config = cfg, wc_load = load,
      wc_getUserGroupsFn = (\<lambda>cug. fst (controller_getUserGroups d ccProvider cug w p)),
      wc_render = (\<lambda>params. case RenderBreakglassSessionRequest execute ts params of
         (_, Some err) \<Rightarrow> Inl err | (body, None) \<Rightarrow> Inr body),
      wc_dial = dial, wc_disable_email = disable_email\<rparr>"

definition NewBreakglassEscalationController ::
  "'w client \<Rightarrow> (Config \<times> error option) \<Rightarrow> review_deps \<Rightarrow> 'w BreakglassEscalationController" where
  "NewBreakglassEscalationController cl load d =
     \<lparr>ec_client = cl, ec_load = load, ec_getUserGroupsFn = GetUserGroups d\<rparr>"

definition NewWebhookController ::
  "'w client \<Rightarrow> Config \<Rightarrow> (Config \<times> error option) \<Rightarrow> 'w provider_deps option \<Rightarrow> (RestConfig \<Rightarrow> error option) \<Rightarrow>
   (RestConfig \<Rightarrow> string list \<Rightarrow> error option) \<Rightarrow> (RestConfig \<Rightarrow> string list \<Rightarrow> ResourceAttributes \<Rightarrow> bool result) \<Rightarrow>
   (RestConfig \<Rightarrow> SubjectAccessReview \<Rightarrow> bool result) \<Rightarrow> 'w WebhookController" where
  "NewWebhookController cl cfg load ccProvider new_clientset new_client create_ssar sar_create =
     \<lparr>wh_client = cl, wh_config = cfg, wh_load = load, wh_canDoFn = CanGroupsDo new_client create_ssar,
      wh_provider = ccProvider, wh_new_clientset = new_clientset, wh_sar_create = sar_create\<rparr>"

subsection \<open>Schemes\<close>

datatype api_kind = KindSession | KindEscalation | KindClusterConfig | KindDenyPolicy | Builtin string

text \<open>What the \<^verbatim>\<open>init\<close> functions of \<^verbatim>\<open>api/v1alpha1\<close> register with its builder; \<open>AddToScheme\<close> adds it to a scheme.\<close>

definition SchemeBuilder :: "api_kind list" where
  "SchemeBuilder = [KindEscalation, KindSession, KindClusterConfig, KindDenyPolicy]"

definition AddToScheme :: "api_kind list \<Rightarrow> api_kind list" where
  "AddToScheme s = s @ SchemeBuilder"

text \<open>The scheme of \<^verbatim>\<open>pkg/breakglass\<close>, on top of the kinds of client-go.\<close>

definition Scheme :: "string list \<Rightarrow> api_kind list" where
  "Scheme clientgo = AddToScheme (map Builtin clientgo)"

subsection \<open>The webhook manager\<close>

record 'm manager_deps =
  md_new :: "api_kind list option \<Rightarrow> 'm result"
  md_indexer :: "'m \<Rightarrow> bool"
  md_index :: "'m \<Rightarrow> api_kind \<Rightarrow> string \<Rightarrow> error option"
  md_cache :: "'m \<Rightarrow> bool"
  md_complete :: "'m \<Rightarrow> api_kind \<Rightarrow> error option"
  md_start :: "'m \<Rightarrow> error option"

text \<open>The package variables that the admission checks list through.\<close>

record 'm admission_globals =
  webhookClient :: "'m option"
  webhookCache :: "'m option"

definition SetupWebhookWithManager ::
  "'m manager_deps \<Rightarrow> api_kind \<Rightarrow> 'm \<Rightarrow> 'm admission_globals \<Rightarrow> error option \<times> 'm admission_globals" where
  "SetupWebhookWithManager d k mgr g =
     (let g1 = g\<lparr>webhookClient := Some mgr\<rparr>;
          g2 = (if md_cache d mgr then g1\<lparr>webhookCache := Some mgr\<rparr> else g1)
      in (md_complete d mgr k, g2))"

definition main_indices :: "(api_kind \<times> string) list" where
  "main_indices = [(KindSession, ''spec.cluster''), (KindSession, ''spec.user''), (KindSession, ''spec.grantedGroup''),
     (KindEscalation, ''spec.allowed.cluster''), (KindEscalation, ''spec.allowed.group''),
     (KindEscalation, ''spec.escalatedGroup''), (KindClusterConfig, ''metadata.name''), (KindClusterConfig, ''spec.clusterID'')]"

datatype manager_outcome = NoManager error | SetupFailed api_kind error | ManagerExited "error option"

text \<open>The kinds whose webhook is set up, in order; the first error ends the goroutine.\<close>

fun setup_webhooks ::
  "'m manager_deps \<Rightarrow> api_kind list \<Rightarrow> 'm \<Rightarrow> 'm admission_globals \<Rightarrow> manager_outcome \<times> 'm admission_globals" where
  "setup_webhooks d [] mgr g = (ManagerExited (md_start d mgr), g)"
| "setup_webhooks d (k # ks) mgr g =
     (case SetupWebhookWithManager d k mgr g of
        (Some err, g') \<Rightarrow> (SetupFailed k err, g')
      | (None, g') \<Rightarrow> setup_webhooks d ks mgr g')"

text \<open>The goroutine: the indices that failed, which is only logged, and how it ended.  The manager is made with
  empty options, so with no scheme.\<close>

definition run_webhook_manager ::
  "'m manager_deps \<Rightarrow> 'm admission_globals \<Rightarrow> (api_kind \<times> string) list \<times> manager_outcome \<times> 'm admission_globals" where
  "run_webhook_manager d g =
     (case md_new d None of
        Inl merr \<Rightarrow> ([], NoManager merr, g)
      | Inr mgr \<Rightarrow>
          (if md_indexer d mgr then filter (\<lambda>(k, f). md_index d mgr k f \<noteq> None) main_indices else [],
           setup_webhooks d [KindSession, KindEscalation, KindClusterConfig] mgr g))"

definition webhook_manager_enabled :: "(string \<Rightarrow> string) \<Rightarrow> bool" where
  "webhook_manager_enabled getenv =
     (let enableMgr = getenv ''ENABLE_WEBHOOK_MANAGER'' in enableMgr = [] \<or> enableMgr = ''true'')"

subsection \<open>What the manager promises\<close>

text \<open>Without a scheme in its options a manager has the one of client-go, which knows the built-in kinds only.
  An index or a webhook for a kind that the scheme does not know is refused.\<close>

locale webhook_manager =
  fixes d :: "'m manager_deps" and knows :: "'m \<Rightarrow> api_kind \<Rightarrow> bool"
  assumes default_scheme: "md_new d None = Inr mgr \<Longrightarrow> knows mgr k \<Longrightarrow> \<exists>n. k = Builtin n"
    and given_scheme: "md_new d (Some s) = Inr mgr \<Longrightarrow> knows mgr k \<longleftrightarrow> k \<in> set s"
    and index_known: "md_index d mgr k f = None \<Longrightarrow> knows mgr k"
    and complete_known: "md_complete d mgr k = None \<Longrightarrow> knows mgr k"
begin

lemma default_refuses: "md_new d None = Inr mgr \<Longrightarrow> (\<And>n. k \<noteq> Builtin n) \<Longrightarrow>
    md_complete d mgr k \<noteq> None \<and> md_index d mgr k f \<noteq> None"
  using default_scheme index_known complete_known by blast

lemma manager_gives_up:
  assumes "run_webhook_manager d g = (failed, out, g')"
  shows "(\<exists>e. md_new d None = Inl e \<and> out = NoManager e) \<and> failed = [] \<and> g' = g \<or>
    (\<exists>mgr e. md_new d None = Inr mgr \<and> out = SetupFailed KindSession e \<and> webhookClient g' = Some mgr \<and>
       (md_indexer d mgr \<longrightarrow> failed = main_indices))"
proof (cases "md_new d None")
  case (Inr mgr)
  from default_refuses [OF this, of KindSession] obtain e where e: "md_complete d mgr KindSession = Some e" by auto
  have "list_all (\<lambda>kf. md_index d mgr (fst kf) (snd kf) \<noteq> None) main_indices"
    using default_refuses [OF Inr] by (simp add: main_indices_def)
  then have "filter (\<lambda>(k, f). md_index d mgr k f \<noteq> None) main_indices = main_indices"
    by (simp add: filter_id_conv list_all_iff case_prod_beta)
  with assms Inr e show ?thesis
    by (auto simp: run_webhook_manager_def SetupWebhookWithManager_def Let_def)
qed (use assms in \<open>simp add: run_webhook_manager_def\<close>)

end

text \<open>A manager that is its scheme.\<close>

definition ex_manager :: "string list \<Rightarrow> api_kind list manager_deps" where
  "ex_manager clientgo = \<lparr>md_new = (\<lambda>s. Inr (case s of Some ks \<Rightarrow> ks | None \<Rightarrow> map Builtin clientgo)),
     md_indexer = (\<lambda>_. True), md_index = (\<lambda>mgr k f. if k \<in> set mgr then None else Some (Err ''no kind is registered for the type'')),
     md_cache = (\<lambda>_. True), md_complete = (\<lambda>mgr k. if k \<in> set mgr then None else Some (Err ''no kind is registered for the type'')),
     md_start = (\<lambda>_. None)\<rparr>"

interpretation ex_manager: webhook_manager "ex_manager clientgo" "\<lambda>mgr k. k \<in> set mgr" for clientgo :: "string list"
  by unfold_locales (auto simp: ex_manager_def split: if_splits)

subsection \<open>The loops of the background tasks\<close>

text \<open>Each pass of the checker looks at the context before its round and again while it waits for the ticker.\<close>

fun checker_loop :: "'w ClusterConfigChecker \<Rightarrow> (instant \<times> bool \<times> bool) list \<Rightarrow> 'w world \<Rightarrow> 'w world" where
  "checker_loop ck [] w = w"
| "checker_loop ck ((now, cancelled, stopped) # passes) w =
     (if cancelled then w
      else (let w' = checker_runOnce now ck w in if stopped then w' else checker_loop ck passes w'))"

text \<open>The updater runs once at its start and once for each tick (a time) until the context ends (\<open>None\<close>).\<close>

fun updater_ticks ::
  "'w client \<Rightarrow> (instant \<Rightarrow> (string \<Rightarrow> 'r \<Rightarrow> string list result \<times> 'r) option) \<Rightarrow> instant option list \<Rightarrow> 'w world \<Rightarrow> 'r \<Rightarrow>
   'w world \<times> 'r" where
  "updater_ticks cl resolver [] w r = (w, r)"
| "updater_ticks cl resolver (None # signals) w r = (w, r)"
| "updater_ticks cl resolver (Some now # signals) w r =
     (case updater_runOnce cl (resolver now) w r of (w', r') \<Rightarrow> updater_ticks cl resolver signals w' r')"

definition updater_loop ::
  "'w client \<Rightarrow> (instant \<Rightarrow> (string \<Rightarrow> 'r \<Rightarrow> string list result \<times> 'r) option) \<Rightarrow> instant \<Rightarrow> instant option list \<Rightarrow>
   'w world \<Rightarrow> 'r \<Rightarrow> 'w world \<times> 'r" where
  "updater_loop cl resolver now signals w r =
     (case updater_runOnce cl (resolver now) w r of (w', r') \<Rightarrow> updater_ticks cl resolver signals w' r')"

text \<open>Nothing after the end of the context is run.\<close>

lemma updater_ticks_stop: "updater_ticks cl resolver (ticks @ None # signals) w r = updater_ticks cl resolver (ticks @ [None]) w r"
  by (induction cl resolver ticks w r rule: updater_ticks.induct) (auto split: prod.splits)

lemma checker_loop_running:
  "list_all (\<lambda>(now, cancelled, stopped). \<not> cancelled \<and> \<not> stopped) passes \<Longrightarrow>
     checker_loop ck passes w = fold (\<lambda>p. checker_runOnce (fst p) ck) passes w"
  by (induction ck passes w rule: checker_loop.induct) (auto simp: Let_def)

subsection \<open>The probe of a cluster and the listener\<close>

definition checkClusterReachable ::
  "(RestConfig \<Rightarrow> 'd result) \<Rightarrow> ('d \<Rightarrow> 'v result) \<Rightarrow> RestConfig \<Rightarrow> error option" where
  "checkClusterReachable new_discovery server_version cfg =
     (case new_discovery cfg of
        Inl err \<Rightarrow> Some err
      | Inr d \<Rightarrow> (case server_version d of Inl err \<Rightarrow> Some err | Inr _ \<Rightarrow> None))"

datatype listen_call = RunTLS string string string | Run string

definition Listen :: "Config \<Rightarrow> listen_call" where
  "Listen cfg =
     (let s = cfg_Server cfg in
      if TLSCertFile s \<noteq> [] \<and> TLSKeyFile s \<noteq> [] then RunTLS (ListenAddress s) (TLSCertFile s) (TLSKeyFile s)
      else Run (ListenAddress s))"

text \<open>A server with only one of the two files configured serves without TLS.\<close>

lemma Listen_plain: "(\<exists>a. Listen cfg = Run a) \<longleftrightarrow> TLSCertFile (cfg_Server cfg) = [] \<or> TLSKeyFile (cfg_Server cfg) = []"
  by (auto simp: Listen_def Let_def)

subsection \<open>Properties\<close>

text \<open>C17. The admission webhooks are never served.  The manager that main starts for them has no scheme with the
  custom resources, so none of its field indices is installed, the set-up of the first webhook fails, and the
  manager is not started; a manager made with the scheme of \<^verbatim>\<open>pkg/breakglass\<close> would know all four kinds.\<close>

theorem admission_webhooks_never_served:
  assumes "webhook_manager d knows" "run_webhook_manager d g = (failed, out, g')"
  shows "(\<forall>r. out \<noteq> ManagerExited r) \<and>
    (\<forall>mgr. md_new d None = Inr mgr \<and> md_indexer d mgr \<longrightarrow> failed = main_indices) \<and>
    (\<forall>n. md_new d (Some (Scheme n)) = Inr mgr' \<longrightarrow>
       list_all (knows mgr') [KindSession, KindEscalation, KindClusterConfig, KindDenyPolicy])"
proof -
  have "list_all (knows mgr') [KindSession, KindEscalation, KindClusterConfig, KindDenyPolicy]"
    if "md_new d (Some (Scheme n)) = Inr mgr'" for n
    using webhook_manager.given_scheme [OF assms(1) that] by (simp add: Scheme_def AddToScheme_def SchemeBuilder_def)
  with webhook_manager.manager_gives_up [OF assms] show ?thesis by auto
qed

theorem admission_webhooks_never_served_witness:
  "fst (run_webhook_manager (ex_manager [''Secret'']) \<lparr>webhookClient = None, webhookCache = None\<rparr>) = main_indices \<and>
   length main_indices = 8"
proof -
  let ?g = "\<lparr>webhookClient = None, webhookCache = None\<rparr> :: api_kind list admission_globals"
  have "run_webhook_manager (ex_manager [''Secret'']) ?g =
      (fst (run_webhook_manager (ex_manager [''Secret'']) ?g), fst (snd (run_webhook_manager (ex_manager [''Secret'']) ?g)),
       snd (snd (run_webhook_manager (ex_manager [''Secret'']) ?g)))" by simp
  from admission_webhooks_never_served [OF ex_manager.webhook_manager_axioms this] show ?thesis
    by (simp add: ex_manager_def main_indices_def)
qed

end
