(* ===== verification/GoHeap.thy ===== *)
theory GoHeap
  imports ApiTypes
begin

text \<open>
  The custom resources as Go has them in memory: slices, maps and pointers are references into a heap, and a
  view reads the value behind them.  \<^verbatim>\<open>DeepCopy\<close> models the generated copy functions on this heap; this theory has the
  copies of single references and the contract \<open>deep_copier\<close> that they share.  The other theories treat the
  resources as values.
\<close>

subsection \<open>The heap\<close>

type_synonym address = nat

datatype slice = NilSlice | Slice address nat nat

text \<open>A slice has an array, an offset and a length.  Pointers and maps are addresses, \<open>None\<close> when nil.  A struct is a value;
  its references are shared by whoever copies the value.\<close>

record TypeMeta =
  Kind :: string
  APIVersion :: string

record BreakglassEscalationAllowed_ref =
  al_Clusters :: slice
  al_Groups :: slice

record BreakglassEscalationApprovers_ref =
  ap_Users :: slice
  ap_Groups :: slice

record BreakglassEscalationSpec_ref =
  es_Allowed :: BreakglassEscalationAllowed_ref
  es_Approvers :: BreakglassEscalationApprovers_ref
  es_EscalatedGroup :: string
  es_MaxValidFor :: string
  es_RetainFor :: string
  es_IdleTimeout :: string
  es_ClusterConfigRefs :: slice
  es_DenyPolicyRefs :: slice
  es_RequestReason :: "address option"
  es_ApprovalReason :: "address option"
  es_AllowedApproverDomains :: slice
  es_BlockSelfApproval :: "address option"

record BreakglassEscalationStatus_ref =
  et_ApproverGroupMembers :: "address option"
  et_RequestCount :: int
  et_ApprovalCount :: int
  et_GroupResolutionStatus :: "address option"

record BreakglassEscalation_ref =
  eo_TypeMeta :: TypeMeta
  eo_ObjectMeta :: ObjectMeta
  eo_Spec :: BreakglassEscalationSpec_ref
  eo_Status :: BreakglassEscalationStatus_ref

record BreakglassSessionSpec_ref =
  ss_Cluster :: string
  ss_User :: string
  ss_GrantedGroup :: string
  ss_IdleTimeout :: string
  ss_MaxValidFor :: string
  ss_RetainFor :: string
  ss_ClusterConfigRef :: string
  ss_DenyPolicyRefs :: slice
  ss_RequestReason :: string

record BreakglassSessionStatus_ref =
  st_Conditions :: slice
  st_ApprovedAt :: instant
  st_RejectedAt :: instant
  st_ExpiresAt :: instant
  st_TimeoutAt :: instant
  st_RetainedUntil :: instant
  st_IdleUntil :: instant
  st_LastUsed :: instant
  st_State :: BreakglassSessionState
  st_Approver :: string
  st_Approvers :: slice
  st_ApprovalReason :: string
  st_ReasonEnded :: string

record BreakglassSession_ref =
  so_TypeMeta :: TypeMeta
  so_ObjectMeta :: ObjectMeta
  so_Spec :: BreakglassSessionSpec_ref
  so_Status :: BreakglassSessionStatus_ref
  so_OwnerReferences :: slice

record ClusterConfigSpec_ref =
  cs_ClusterID :: string
  cs_Tenant :: string
  cs_Environment :: string
  cs_Site :: string
  cs_Location :: string
  cs_KubeconfigSecretRef :: SecretKeyReference
  cs_QPS :: "address option"
  cs_Burst :: "address option"
  cs_BlockSelfApproval :: bool
  cs_AllowedApproverDomains :: slice

record ClusterConfig_ref =
  co_TypeMeta :: TypeMeta
  co_ObjectMeta :: ObjectMeta
  co_Spec :: ClusterConfigSpec_ref
  co_Status :: ClusterConfigStatus

record DenyPolicyScope_ref =
  sc_Clusters :: slice
  sc_Tenants :: slice
  sc_Sessions :: slice

record DenyRule_ref =
  ru_Verbs :: slice
  ru_APIGroups :: slice
  ru_Resources :: slice
  ru_Namespaces :: slice
  ru_ResourceNames :: slice
  ru_Subresources :: slice

record DenyPolicySpec_ref =
  ps_AppliesTo :: "address option"
  ps_Rules :: slice
  ps_Precedence :: "address option"

record DenyPolicy_ref =
  po_TypeMeta :: TypeMeta
  po_ObjectMeta :: ObjectMeta
  po_Spec :: DenyPolicySpec_ref
  po_Status :: DenyPolicyStatus

text \<open>What a cell holds: an array, a map, or the target of a pointer.\<close>

datatype cell =
    Reserved
  | Strings "string list"
  | Conds "Condition list"
  | Owners "OwnerReference list"
  | RuleArray "DenyRule_ref list"
  | EscalationArray "BreakglassEscalation_ref list"
  | SessionArray "BreakglassSession_ref list"
  | ConfigArray "ClusterConfig_ref list"
  | PolicyArray "DenyPolicy_ref list"
  | StringMap "(string \<times> string) list"
  | SliceMap "(string \<times> slice) list"
  | BoolCell bool
  | Int32Cell int
  | ReasonCell ReasonConfig
  | ScopeCell DenyPolicyScope_ref

type_synonym heap = "cell list"

definition cell_at :: "heap \<Rightarrow> address \<Rightarrow> cell" where
  "cell_at h a = (if a < length h then h ! a else Reserved)"

fun strings_in :: "cell \<Rightarrow> string list" where
  "strings_in (Strings xs) = xs" | "strings_in _ = []"

fun conds_in :: "cell \<Rightarrow> Condition list" where
  "conds_in (Conds xs) = xs" | "conds_in _ = []"

fun owners_in :: "cell \<Rightarrow> OwnerReference list" where
  "owners_in (Owners xs) = xs" | "owners_in _ = []"

fun rules_in :: "cell \<Rightarrow> DenyRule_ref list" where
  "rules_in (RuleArray xs) = xs" | "rules_in _ = []"

fun escalations_in :: "cell \<Rightarrow> BreakglassEscalation_ref list" where
  "escalations_in (EscalationArray xs) = xs" | "escalations_in _ = []"

fun sessions_in :: "cell \<Rightarrow> BreakglassSession_ref list" where
  "sessions_in (SessionArray xs) = xs" | "sessions_in _ = []"

fun configs_in :: "cell \<Rightarrow> ClusterConfig_ref list" where
  "configs_in (ConfigArray xs) = xs" | "configs_in _ = []"

fun policies_in :: "cell \<Rightarrow> DenyPolicy_ref list" where
  "policies_in (PolicyArray xs) = xs" | "policies_in _ = []"

fun string_map_in :: "cell \<Rightarrow> (string \<times> string) list" where
  "string_map_in (StringMap xs) = xs" | "string_map_in _ = []"

fun slice_map_in :: "cell \<Rightarrow> (string \<times> slice) list" where
  "slice_map_in (SliceMap xs) = xs" | "slice_map_in _ = []"

fun bool_in :: "cell \<Rightarrow> bool" where
  "bool_in (BoolCell b) = b" | "bool_in _ = False"

fun int32_in :: "cell \<Rightarrow> int" where
  "int32_in (Int32Cell i) = i" | "int32_in _ = 0"

fun reason_in :: "cell \<Rightarrow> ReasonConfig" where
  "reason_in (ReasonCell r) = r" | "reason_in _ = \<lparr>Mandatory = False, Description = []\<rparr>"

fun scope_in :: "cell \<Rightarrow> DenyPolicyScope_ref" where
  "scope_in (ScopeCell s) = s" | "scope_in _ = \<lparr>sc_Clusters = NilSlice, sc_Tenants = NilSlice, sc_Sessions = NilSlice\<rparr>"

subsection \<open>Copies of references\<close>

text \<open>The loop of the generated code over the elements of an array or map.\<close>

fun copy_all :: "('a \<Rightarrow> heap \<Rightarrow> 'a \<times> heap) \<Rightarrow> 'a list \<Rightarrow> heap \<Rightarrow> 'a list \<times> heap" where
  "copy_all c [] h = ([], h)"
| "copy_all c (x # xs) h = (case c x h of (y, h1) \<Rightarrow> (case copy_all c xs h1 of (ys, h2) \<Rightarrow> (y # ys, h2)))"

text \<open>\<open>make\<close> allocates the array, then the elements are copied into it.  Nobody else knows the new cell in between, so it
  is filled once, at the end.\<close>

fun copy_slice :: "('a list \<Rightarrow> cell) \<Rightarrow> (cell \<Rightarrow> 'a list) \<Rightarrow> ('a \<Rightarrow> heap \<Rightarrow> 'a \<times> heap) \<Rightarrow> slice \<Rightarrow> heap \<Rightarrow> slice \<times> heap" where
  "copy_slice mk sel c NilSlice h = (NilSlice, h)"
| "copy_slice mk sel c (Slice a off n) h =
     (case copy_all c (take n (drop off (sel (cell_at h a)))) (h @ [Reserved]) of
        (ys, h1) \<Rightarrow> (Slice (length h) 0 n, h1[length h := mk ys]))"

text \<open>The same for the target of a pointer or a map.\<close>

fun copy_cell :: "('a \<Rightarrow> cell) \<Rightarrow> (cell \<Rightarrow> 'a) \<Rightarrow> ('a \<Rightarrow> heap \<Rightarrow> 'a \<times> heap) \<Rightarrow> address option \<Rightarrow> heap \<Rightarrow> address option \<times> heap" where
  "copy_cell mk sel c None h = (None, h)"
| "copy_cell mk sel c (Some a) h =
     (case c (sel (cell_at h a)) (h @ [Reserved]) of (y, h1) \<Rightarrow> (Some (length h), h1[length h := mk y]))"

definition assign :: "'a \<Rightarrow> heap \<Rightarrow> 'a \<times> heap" where
  "assign x h = (x, h)"

definition copy_value :: "('b \<Rightarrow> heap \<Rightarrow> 'b \<times> heap) \<Rightarrow> 'a \<times> 'b \<Rightarrow> heap \<Rightarrow> ('a \<times> 'b) \<times> heap" where
  "copy_value c e h = (case c (snd e) h of (y, h') \<Rightarrow> ((fst e, y), h'))"

definition copy_strings :: "slice \<Rightarrow> heap \<Rightarrow> slice \<times> heap" where
  "copy_strings = copy_slice Strings strings_in assign"

definition copy_members :: "address option \<Rightarrow> heap \<Rightarrow> address option \<times> heap" where
  "copy_members = copy_cell SliceMap slice_map_in (copy_all (copy_value copy_strings))"

definition copy_string_map :: "address option \<Rightarrow> heap \<Rightarrow> address option \<times> heap" where
  "copy_string_map = copy_cell StringMap string_map_in (copy_all assign)"

text \<open>What is read through a reference.\<close>

fun read_slice :: "(heap \<Rightarrow> 'a \<Rightarrow> 'b) \<Rightarrow> (cell \<Rightarrow> 'a list) \<Rightarrow> heap \<Rightarrow> slice \<Rightarrow> 'b list" where
  "read_slice v sel h NilSlice = []"
| "read_slice v sel h (Slice a off n) = map (v h) (take n (drop off (sel (cell_at h a))))"

definition read_cell :: "(heap \<Rightarrow> 'a \<Rightarrow> 'b) \<Rightarrow> (cell \<Rightarrow> 'a) \<Rightarrow> heap \<Rightarrow> address option \<Rightarrow> 'b option" where
  "read_cell v sel h p = map_option (\<lambda>a. v h (sel (cell_at h a))) p"

abbreviation plain :: "heap \<Rightarrow> 'a \<Rightarrow> 'a" where
  "plain h x \<equiv> x"

abbreviation read_strings :: "heap \<Rightarrow> slice \<Rightarrow> string list" where
  "read_strings \<equiv> read_slice plain strings_in"

abbreviation entry_view :: "(heap \<Rightarrow> 'b \<Rightarrow> 'c) \<Rightarrow> heap \<Rightarrow> 'a \<times> 'b \<Rightarrow> 'a \<times> 'c" where
  "entry_view v h e \<equiv> (fst e, v h (snd e))"

definition read_members :: "heap \<Rightarrow> address option \<Rightarrow> (string \<times> string list) list" where
  "read_members h p = (case read_cell (\<lambda>h. map (entry_view read_strings h)) slice_map_in h p of None \<Rightarrow> [] | Some xs \<Rightarrow> xs)"

definition read_string_map :: "heap \<Rightarrow> address option \<Rightarrow> (string \<times> string) list" where
  "read_string_map h p = (case read_cell (\<lambda>h. map (plain h)) string_map_in h p of None \<Rightarrow> [] | Some xs \<Rightarrow> xs)"

subsection \<open>The contract of a copy\<close>

text \<open>\<open>determined v lo hi h x\<close>: the view of \<open>x\<close> depends on no cells but those from \<open>lo\<close> up to \<open>hi\<close>.\<close>

definition agree :: "address \<Rightarrow> address \<Rightarrow> heap \<Rightarrow> heap \<Rightarrow> bool" where
  "agree lo hi h h' \<longleftrightarrow> (\<forall>a. lo \<le> a \<and> a < hi \<longrightarrow> cell_at h' a = cell_at h a)"

definition determined :: "(heap \<Rightarrow> 'a \<Rightarrow> 'b) \<Rightarrow> address \<Rightarrow> address \<Rightarrow> heap \<Rightarrow> 'a \<Rightarrow> bool" where
  "determined v lo hi h x \<longleftrightarrow> (\<forall>h'. agree lo hi h h' \<longrightarrow> v h' x = v h x)"

text \<open>A value is valid when it has no dangling references.\<close>

abbreviation valid :: "(heap \<Rightarrow> 'a \<Rightarrow> 'b) \<Rightarrow> heap \<Rightarrow> 'a \<Rightarrow> bool" where
  "valid v h x \<equiv> determined v 0 (length h) h x"

definition extends :: "heap \<Rightarrow> heap \<Rightarrow> bool" where
  "extends h h' \<longleftrightarrow> length h \<le> length h' \<and> agree 0 (length h) h h'"

definition copied :: "(heap \<Rightarrow> 'a \<Rightarrow> 'b) \<Rightarrow> heap \<Rightarrow> heap \<Rightarrow> 'a \<Rightarrow> 'a \<Rightarrow> bool" where
  "copied v h h' x y \<longleftrightarrow> extends h h' \<and> v h' y = v h x \<and> determined v (length h) (length h') h' y"

lemma agree_refl [simp]: "agree lo hi h h"
  by (simp add: agree_def)

lemma agree_trans: "agree lo hi h h' \<Longrightarrow> agree lo hi h' h'' \<Longrightarrow> agree lo hi h h''"
  by (simp add: agree_def)

lemma agree_sub: "agree lo hi h h' \<Longrightarrow> lo \<le> lo' \<Longrightarrow> hi' \<le> hi \<Longrightarrow> agree lo' hi' h h'"
  by (simp add: agree_def)

lemma extends_refl [simp]: "extends h h"
  by (simp add: extends_def)

lemma extends_trans:
  assumes "extends h h'" "extends h' h''"
  shows "extends h h''"
proof -
  have "agree 0 (length h) h' h''" using assms agree_sub [of 0 "length h'" h' h'' 0 "length h"] by (simp add: extends_def)
  with assms agree_trans [of 0 "length h" h h' h''] show ?thesis by (simp add: extends_def)
qed

lemma extends_append [simp]: "extends h (h @ ys)"
  by (simp add: extends_def agree_def cell_at_def nth_append)

lemma extends_agree: "extends h h' \<Longrightarrow> agree lo (length h) h h'"
  using agree_sub [of 0 "length h" h h' lo "length h"] by (simp add: extends_def)

lemma determinedI: "(\<And>h'. agree lo hi h h' \<Longrightarrow> v h' x = v h x) \<Longrightarrow> determined v lo hi h x"
  unfolding determined_def by blast

lemma determinedD: "determined v lo hi h x \<Longrightarrow> agree lo hi h h' \<Longrightarrow> v h' x = v h x"
  unfolding determined_def by blast

lemma determined_const: "(\<And>h'. v h' x = v h x) \<Longrightarrow> determined v lo hi h x"
  unfolding determined_def by blast

text \<open>A view that is put together from others.\<close>

lemma determined_part:
  assumes "determined v lo hi h x" "\<And>h'. v h' x = v h x \<Longrightarrow> w h' y = w h y"
  shows "determined w lo hi h y"
  by (intro determinedI assms(2)) (rule determinedD [OF assms(1)])

lemma determined_extends:
  assumes "determined v lo (length h) h x" "extends h h'"
  shows "v h' x = v h x \<and> determined v lo (length h') h' x"
proof -
  have eq: "v h' x = v h x" by (rule determinedD [OF assms(1) extends_agree [OF assms(2)]])
  have "v h'' x = v h' x" if "agree lo (length h') h' h''" for h''
  proof -
    have "length h \<le> length h'" using assms(2) by (simp add: extends_def)
    with agree_sub [OF that, of lo "length h"] have "agree lo (length h) h h''"
      using agree_trans [OF extends_agree [OF assms(2)]] by simp
    from determinedD [OF assms(1) this] eq show ?thesis by simp
  qed
  with eq show ?thesis by (blast intro: determinedI)
qed

lemma determined_mono: "determined v lo hi h x \<Longrightarrow> lo' \<le> lo \<Longrightarrow> hi \<le> hi' \<Longrightarrow> determined v lo' hi' h x"
  by (intro determinedI) (rule determinedD, assumption, rule agree_sub)

lemma copied_extends:
  assumes "copied v h h' x y" "extends h' h''"
  shows "copied v h h'' x y"
  using assms determined_extends [of v "length h" h' y h''] extends_trans [of h h' h''] by (simp add: copied_def)

lemma copied_from:
  assumes "copied v h' h'' x y" "valid v h x" "extends h h'"
  shows "copied v h h'' x y"
proof -
  have "v h' x = v h x" using determined_extends [OF assms(2,3)] by simp
  moreover have "length h \<le> length h'" using assms(3) by (simp add: extends_def)
  ultimately show ?thesis
    using assms(1,3) extends_trans [of h h' h''] determined_mono [of v "length h'" "length h''" h'' y "length h" "length h''"]
    by (simp add: copied_def)
qed

text \<open>What the generated functions promise.\<close>

locale deep_copier =
  fixes view :: "heap \<Rightarrow> 'a \<Rightarrow> 'b" and copy :: "'a \<Rightarrow> heap \<Rightarrow> 'a \<times> heap"
  assumes copy_copied: "valid view h x \<Longrightarrow> copy x h = (y, h') \<Longrightarrow> copied view h h' x y"
begin

text \<open>Later in the course of a larger copy.\<close>

lemma copy_later:
  assumes "valid view h x" "extends h h1" "copy x h1 = (y, h2)"
  shows "copied view h h2 x y"
proof (rule copied_from [OF _ assms(1,2)])
  have "valid view h1 x" using determined_extends [OF assms(1,2)] by simp
  from copy_copied [OF this assms(3)] show "copied view h1 h2 x y" .
qed

text \<open>Original and copy do not share: each keeps its value whatever is written on the other side.\<close>

lemma no_aliasing:
  assumes "valid view h x" "copy x h = (y, h')"
  shows "view h' y = view h x" "extends h h'"
    and "agree 0 (length h) h' h'' \<Longrightarrow> view h'' x = view h x"
    and "agree (length h) (length h') h' h'' \<Longrightarrow> view h'' y = view h x"
proof -
  note c = copy_copied [OF assms, unfolded copied_def]
  show "view h' y = view h x" "extends h h'" using c by simp_all
  show "view h'' y = view h x" if "agree (length h) (length h') h' h''"
    using c determinedD [OF _ that] by metis
  show "view h'' x = view h x" if "agree 0 (length h) h' h''"
  proof -
    have "agree 0 (length h) h h'" using c by (simp add: extends_def)
    from determinedD [OF assms(1) agree_trans [OF this that]] show ?thesis .
  qed
qed

end

subsection \<open>Copies of parts\<close>

lemma value_copier: "(\<And>x. f x = x) \<Longrightarrow> deep_copier plain (\<lambda>x h. (f x, h))"
  by unfold_locales (auto simp: copied_def intro: determined_const)

lemma assign_copier: "deep_copier plain assign"
  by unfold_locales (auto simp: copied_def assign_def intro: determined_const)

lemma pair_copier:
  assumes "deep_copier v c" "deep_copier w d"
  shows "deep_copier (\<lambda>h (x, y). (v h x, w h y)) (\<lambda>(x, y) h. case c x h of (x', h1) \<Rightarrow> case d y h1 of (y', h2) \<Rightarrow> ((x', y'), h2))"
proof
  let ?v = "\<lambda>h (x, y). (v h x, w h y)"
  fix h z z' h' assume valid: "valid ?v h z" and run: "(case z of (x, y) \<Rightarrow> \<lambda>h. case c x h of (x', h1) \<Rightarrow> case d y h1 of (y', h2) \<Rightarrow> ((x', y'), h2)) h = (z', h')"
  obtain x y where z: "z = (x, y)" by force
  obtain x' h1 where c: "c x h = (x', h1)" by force
  obtain y' h2 where d: "d y h1 = (y', h2)" by force
  have z': "z' = (x', y')" "h' = h2" using run z c d by simp_all
  have "valid v h x" "valid w h y" using valid by (auto simp: z elim!: determined_part)
  with deep_copier.copy_copied [OF assms(1) _ c] have x: "copied v h h1 x x'" by blast
  then have "extends h h1" by (simp add: copied_def)
  from deep_copier.copy_later [OF assms(2) \<open>valid w h y\<close> this d] have y: "copied w h h2 y y'" .
  have "extends h1 h2"
    using deep_copier.copy_copied [OF assms(2) conjunct2 [OF determined_extends [OF \<open>valid w h y\<close> \<open>extends h h1\<close>]] d]
    by (simp add: copied_def)
  from copied_extends [OF x this] have x': "copied v h h2 x x'" .
  have "determined ?v (length h) (length h2) h2 (x', y')"
  proof (rule determinedI)
    fix g assume "agree (length h) (length h2) h2 g"
    with x' y have "v g x' = v h2 x'" "w g y' = w h2 y'" unfolding copied_def by (blast dest: determinedD)+
    then show "?v g (x', y') = ?v h2 (x', y')" by simp
  qed
  with x' y show "copied ?v h h' z z'" by (simp add: z z' copied_def)
qed

text \<open>A struct whose fields are copied: \<open>parts\<close> are the fields with references, \<open>put\<close> stores their copies.\<close>

lemma record_copier:
  assumes "deep_copier v c" "\<And>h x. view h x = build x (v h (parts x))"
    and "\<And>x t. parts (put x t) = t" "\<And>x t u. build (put x t) u = build x u" "\<And>x u u'. build x u = build x u' \<Longrightarrow> u = u'"
    and "\<And>x h. copy x h = (case c (parts x) h of (t, h') \<Rightarrow> (put x t, h'))"
  shows "deep_copier view copy"
proof
  fix h x y h' assume valid: "valid view h x" and run: "copy x h = (y, h')"
  obtain t h1 where t: "c (parts x) h = (t, h1)" by force
  with run assms(6) have y: "y = put x t" "h' = h1" by simp_all
  have "valid v h (parts x)"
  proof (rule determined_part [OF valid])
    fix g assume "view g x = view h x"
    then show "v g (parts x) = v h (parts x)" unfolding assms(2) by (rule assms(5))
  qed
  from deep_copier.copy_copied [OF assms(1) this t] have t': "copied v h h1 (parts x) t" .
  have new: "view g (put x t) = build x (v g t)" for g by (simp add: assms(2-4))
  have "determined v (length h) (length h1) h1 t" using t' by (simp add: copied_def)
  then have "determined view (length h) (length h1) h1 (put x t)" by (rule determined_part) (simp add: new)
  moreover have "view h1 (put x t) = view h x" using t' by (simp add: new assms(2) [of h x] copied_def)
  ultimately show "copied view h h' x y" using t' by (simp add: y copied_def)
qed

lemma list_copier:
  assumes "deep_copier v c"
  shows "deep_copier (\<lambda>h. map (v h)) (copy_all c)"
proof
  fix h xs ys h' assume "valid (\<lambda>h. map (v h)) h xs" "copy_all c xs h = (ys, h')"
  then show "copied (\<lambda>h. map (v h)) h h' xs ys"
  proof (induction xs arbitrary: h ys h')
    case Nil
    then show ?case by (auto simp: copied_def intro: determined_const)
  next
    case (Cons x xs)
    obtain y h1 where c: "c x h = (y, h1)" by force
    obtain zs h2 where cs: "copy_all c xs h1 = (zs, h2)" by force
    have ys: "ys = y # zs" "h' = h2" using Cons.prems(2) c cs by simp_all
    have valid: "valid v h x" "valid (\<lambda>h. map (v h)) h xs" using Cons.prems(1) by (auto elim!: determined_part)
    from deep_copier.copy_copied [OF assms valid(1) c] have y: "copied v h h1 x y" .
    then have ext: "extends h h1" by (simp add: copied_def)
    from Cons.IH [OF conjunct2 [OF determined_extends [OF valid(2) ext]] cs]
    have zs1: "copied (\<lambda>h. map (v h)) h1 h2 xs zs" .
    then have "extends h1 h2" by (simp add: copied_def)
    from copied_extends [OF y this] have y': "copied v h h2 x y" .
    from copied_from [OF zs1 valid(2) ext] have zs': "copied (\<lambda>h. map (v h)) h h2 xs zs" .
    have "determined (\<lambda>h. map (v h)) (length h) (length h2) h2 (y # zs)"
    proof (rule determinedI)
      fix g assume "agree (length h) (length h2) h2 g"
      with y' zs' have "v g y = v h2 y" "map (v g) zs = map (v h2) zs"
        unfolding copied_def by (blast dest: determinedD)+
      then show "map (v g) (y # zs) = map (v h2) (y # zs)" by simp
    qed
    with y' zs' show ?case by (simp add: ys copied_def)
  qed
qed

lemma length_copy_all: "copy_all c xs h = (ys, h') \<Longrightarrow> length ys = length xs"
  by (induction xs arbitrary: h ys h') (auto split: prod.splits)

text \<open>A newly allocated cell that is filled with the copy of its content.\<close>

lemma filled_cell:
  assumes "deep_copier v c" "valid v h x" "c x (h @ [Reserved]) = (y, h1)"
    and "h' = h1[length h := cell]"
  shows "extends h h' \<and> length h < length h' \<and> v h' y = v h x \<and> determined v (Suc (length h)) (length h') h' y \<and>
    cell_at h' (length h) = cell"
proof -
  have ext: "extends h (h @ [Reserved])" by simp
  note c = deep_copier.copy_copied [OF assms(1) conjunct2 [OF determined_extends [OF assms(2) ext]] assms(3), unfolded copied_def]
  have len: "length h < length h1" using c by (auto simp: extends_def)
  then have new: "cell_at h' (length h) = cell" by (simp add: assms(4) cell_at_def)
  have old: "cell_at h' a = cell_at h1 a" if "a \<noteq> length h" for a using that by (simp add: assms(4) cell_at_def)
  have "agree 0 (length h) h h1" using extends_trans [OF ext] c by (simp add: extends_def)
  then have e: "extends h h'" using len old by (simp add: extends_def agree_def assms(4))
  have same: "agree (Suc (length h)) (length h1) h1 h'" using old by (simp add: agree_def)
  have det: "determined v (Suc (length h)) (length h1) h1 y" using c by simp
  from determinedD [OF this same] have v: "v h' y = v h1 y" .
  have "v h1 y = v h x" using c determined_extends [OF assms(2) ext] by simp
  moreover have "determined v (Suc (length h)) (length h') h' y"
  proof (rule determinedI)
    fix h'' assume "agree (Suc (length h)) (length h') h' h''"
    then have "agree (Suc (length h)) (length h1) h' h''" by (simp add: assms(4))
    from determinedD [OF det agree_trans [OF same this]] v show "v h'' y = v h' y" by simp
  qed
  ultimately show ?thesis using e len new v by (simp add: assms(4))
qed

lemma valid_content:
  assumes "\<And>h'. agree 0 (length h) h h' \<Longrightarrow> v h' (f (cell_at h' a)) = v h (f (cell_at h a))"
    and "\<And>h'. v h' (f Reserved) = v h (f Reserved)"
  shows "valid v h (f (cell_at h a))"
proof (rule determinedI)
  fix h' assume agree: "agree 0 (length h) h h'"
  show "v h' (f (cell_at h a)) = v h (f (cell_at h a))"
  proof (cases "a < length h")
    case True
    with agree have "cell_at h' a = cell_at h a" by (simp add: agree_def)
    with assms(1) [OF agree] show ?thesis by simp
  next
    case False
    then have "cell_at h a = Reserved" by (simp add: cell_at_def)
    with assms(2) show ?thesis by simp
  qed
qed

lemma cell_copier:
  assumes "deep_copier v c" "\<And>x. sel (mk x) = x" "\<And>h h'. v h' (sel Reserved) = v h (sel Reserved)"
  shows "deep_copier (read_cell v sel) (copy_cell mk sel c)"
proof
  fix h p q h' assume valid: "valid (read_cell v sel) h p" and run: "copy_cell mk sel c p h = (q, h')"
  show "copied (read_cell v sel) h h' p q"
  proof (cases p)
    case None
    with run show ?thesis by (auto simp: copied_def read_cell_def intro: determined_const)
  next
    case (Some a)
    obtain y h1 where y: "c (sel (cell_at h a)) (h @ [Reserved]) = (y, h1)" by force
    have "valid v h (sel (cell_at h a))"
    proof (rule valid_content [where f = sel])
      show "v g (sel (cell_at g a)) = v h (sel (cell_at h a))" if "agree 0 (length h) h g" for g
        using determinedD [OF valid that] Some by (simp add: read_cell_def)
    qed (rule assms(3))
    note f = filled_cell [OF assms(1) this y, of "h1[length h := mk y]" "mk y"]
    have q: "q = Some (length h)" "h' = h1[length h := mk y]" using run Some y by simp_all
    have "v h'' (sel (cell_at h'' (length h))) = v h' y" if "agree (length h) (length h') h' h''" for h''
    proof -
      have "cell_at h'' (length h) = mk y" using that f q by (simp add: agree_def)
      moreover have "agree (Suc (length h)) (length h') h' h''" using that by (simp add: agree_def)
      with f q have "v h'' y = v h' y" by (blast intro: determinedD)
      ultimately show ?thesis by (simp add: assms(2))
    qed
    then have "determined (read_cell v sel) (length h) (length h') h' q"
      using f q by (intro determinedI) (simp add: read_cell_def assms(2))
    with f q Some show ?thesis by (simp add: copied_def read_cell_def assms(2))
  qed
qed

lemma slice_copier:
  assumes "deep_copier v c" "\<And>xs. sel (mk xs) = xs" "sel Reserved = []"
  shows "deep_copier (read_slice v sel) (copy_slice mk sel c)"
proof
  fix h s t h' assume valid: "valid (read_slice v sel) h s" and run: "copy_slice mk sel c s h = (t, h')"
  show "copied (read_slice v sel) h h' s t"
  proof (cases s)
    case NilSlice
    with run show ?thesis by (auto simp: copied_def intro: determined_const)
  next
    case (Slice a off n)
    let ?f = "\<lambda>d. take n (drop off (sel d))"
    obtain ys h1 where ys: "copy_all c (?f (cell_at h a)) (h @ [Reserved]) = (ys, h1)" by force
    have "valid (\<lambda>h. map (v h)) h (?f (cell_at h a))"
    proof (rule valid_content [where f = ?f])
      show "map (v g) (?f (cell_at g a)) = map (v h) (?f (cell_at h a))" if "agree 0 (length h) h g" for g
        using determinedD [OF valid that] Slice by simp
    qed (simp add: assms(3))
    note f = filled_cell [OF list_copier [OF assms(1)] this ys, of "h1[length h := mk ys]" "mk ys"]
    have t: "t = Slice (length h) 0 n" "h' = h1[length h := mk ys]" using run Slice ys by simp_all
    have "length ys \<le> n" using length_copy_all [OF ys] by simp
    then have all: "take n (drop 0 (sel (mk ys))) = ys" using assms(2) by simp
    have "map (v h'') (take n (drop 0 (sel (cell_at h'' (length h))))) = map (v h') ys"
      if "agree (length h) (length h') h' h''" for h''
    proof -
      have "cell_at h'' (length h) = mk ys" using that f t by (simp add: agree_def)
      moreover have "agree (Suc (length h)) (length h') h' h''" using that by (simp add: agree_def)
      moreover have "determined (\<lambda>h. map (v h)) (Suc (length h)) (length h') h' ys" using f t by simp
      ultimately have "cell_at h'' (length h) = mk ys" "map (v h'') ys = map (v h') ys" by (blast dest: determinedD)+
      then show ?thesis using all by simp
    qed
    then have "determined (read_slice v sel) (length h) (length h') h' t"
      using f t all by (intro determinedI) simp
    with f t all Slice show ?thesis by (simp add: copied_def)
  qed
qed

lemma entry_copier:
  assumes "deep_copier v c"
  shows "deep_copier (entry_view v) (copy_value c)"
  by (rule record_copier [OF assms, where parts = snd and put = "\<lambda>e y. (fst e, y)" and build = "\<lambda>e y. (fst e, y)"])
    (simp_all add: copy_value_def)

end
