(* ===== verification/DeepCopy.thy ===== *)
theory DeepCopy
  imports GoHeap
begin

text \<open>
  The generated copy functions of \<^verbatim>\<open>api/v1alpha1/zz_generated.deepcopy.go\<close>: for each type \<open>DeepCopyInto\<close>, \<open>DeepCopy\<close> and, for
  objects and lists, \<open>DeepCopyObject\<close>.  A copy has the value of its original, lives in newly allocated cells, and
  neither side sees what is written through the other; every type is an instance of \<open>deep_copier\<close>.  A pointer to a
  struct is an optional struct; the new struct itself is a value.
\<close>

subsection \<open>The types\<close>

text \<open>The copies of metadata, times, conditions and owner references are library code.\<close>

record 'l metav1 =
  copy_ObjectMeta :: "ObjectMeta \<Rightarrow> ObjectMeta"
  copy_ListMeta :: "'l \<Rightarrow> 'l"
  copy_Time :: "instant \<Rightarrow> instant"
  copy_Condition :: "Condition \<Rightarrow> Condition"
  copy_OwnerReference :: "OwnerReference \<Rightarrow> OwnerReference"

record 'l BreakglassEscalationList_ref =
  el_TypeMeta :: TypeMeta
  el_ListMeta :: 'l
  el_Items :: slice

record 'l BreakglassSessionList_ref =
  sl_TypeMeta :: TypeMeta
  sl_ListMeta :: 'l
  sl_Items :: slice

record 'l ClusterConfigList_ref =
  cl_TypeMeta :: TypeMeta
  cl_ListMeta :: 'l
  cl_Items :: slice

record 'l DenyPolicyList_ref =
  pl_TypeMeta :: TypeMeta
  pl_ListMeta :: 'l
  pl_Items :: slice

text \<open>\<open>DeepCopy\<close> of a pointer: nil stays nil, otherwise a new struct is filled.\<close>

definition deep_copy :: "('a \<Rightarrow> heap \<Rightarrow> 'a \<times> heap) \<Rightarrow> 'a option \<Rightarrow> heap
    \<Rightarrow> 'a option \<times> heap" where
  "deep_copy into p h = (case p of None \<Rightarrow> (None, h) | Some x \<Rightarrow> (case into x h of (y, h')
      \<Rightarrow> (Some y, h')))"

definition BreakglassEscalationAllowed_DeepCopyInto :: "BreakglassEscalationAllowed_ref \<Rightarrow> heap \<Rightarrow>
    BreakglassEscalationAllowed_ref \<times> heap" where
  "BreakglassEscalationAllowed_DeepCopyInto r h =
     (case copy_strings (al_Clusters r) h of (x1, h1) \<Rightarrow>
      case copy_strings (al_Groups r) h1 of (x2, h2) \<Rightarrow>
      (r\<lparr>al_Clusters := x1, al_Groups := x2\<rparr>, h2))"

definition BreakglassEscalationAllowed_DeepCopy :: "BreakglassEscalationAllowed_ref option \<Rightarrow> heap \<Rightarrow>
    BreakglassEscalationAllowed_ref option \<times> heap" where
  "BreakglassEscalationAllowed_DeepCopy = deep_copy BreakglassEscalationAllowed_DeepCopyInto"

definition BreakglassEscalationAllowed_view :: "heap \<Rightarrow> BreakglassEscalationAllowed_ref \<Rightarrow>
    BreakglassEscalationAllowed" where
  "BreakglassEscalationAllowed_view h r =
     \<lparr>Clusters = read_strings h (al_Clusters r), Groups = read_strings h (al_Groups r)\<rparr>"

definition BreakglassEscalationApprovers_DeepCopyInto :: "BreakglassEscalationApprovers_ref \<Rightarrow> heap
    \<Rightarrow> BreakglassEscalationApprovers_ref \<times> heap" where
  "BreakglassEscalationApprovers_DeepCopyInto r h =
     (case copy_strings (ap_Users r) h of (x1, h1) \<Rightarrow>
      case copy_strings (ap_Groups r) h1 of (x2, h2) \<Rightarrow>
      (r\<lparr>ap_Users := x1, ap_Groups := x2\<rparr>, h2))"

definition BreakglassEscalationApprovers_DeepCopy :: "BreakglassEscalationApprovers_ref option \<Rightarrow> heap
    \<Rightarrow> BreakglassEscalationApprovers_ref option \<times> heap" where
  "BreakglassEscalationApprovers_DeepCopy = deep_copy BreakglassEscalationApprovers_DeepCopyInto"

definition BreakglassEscalationApprovers_view :: "heap \<Rightarrow> BreakglassEscalationApprovers_ref \<Rightarrow>
    BreakglassEscalationApprovers" where
  "BreakglassEscalationApprovers_view h r =
     \<lparr>ApproverUsers = read_strings h (ap_Users r), ApproverGroups = read_strings h (ap_Groups r)\<rparr>"

definition BreakglassEscalationSpec_DeepCopyInto :: "BreakglassEscalationSpec_ref \<Rightarrow> heap \<Rightarrow>
    BreakglassEscalationSpec_ref \<times> heap" where
  "BreakglassEscalationSpec_DeepCopyInto r h =
     (case BreakglassEscalationAllowed_DeepCopyInto (es_Allowed r) h of (x1, h1) \<Rightarrow>
      case BreakglassEscalationApprovers_DeepCopyInto (es_Approvers r) h1 of (x2, h2) \<Rightarrow>
      case copy_strings (es_ClusterConfigRefs r) h2 of (x3, h3) \<Rightarrow>
      case copy_strings (es_DenyPolicyRefs r) h3 of (x4, h4) \<Rightarrow>
      case copy_cell ReasonCell reason_in assign (es_RequestReason r) h4 of (x5, h5) \<Rightarrow>
      case copy_cell ReasonCell reason_in assign (es_ApprovalReason r) h5 of (x6, h6) \<Rightarrow>
      case copy_strings (es_AllowedApproverDomains r) h6 of (x7, h7) \<Rightarrow>
      case copy_cell BoolCell bool_in assign (es_BlockSelfApproval r) h7 of (x8, h8) \<Rightarrow>
      (r\<lparr>es_Allowed := x1, es_Approvers := x2, es_ClusterConfigRefs := x3, es_DenyPolicyRefs := x4,
        es_RequestReason := x5, es_ApprovalReason := x6, es_AllowedApproverDomains := x7, es_BlockSelfApproval :=
            x8\<rparr>, h8))"

definition BreakglassEscalationSpec_DeepCopy :: "BreakglassEscalationSpec_ref option \<Rightarrow> heap \<Rightarrow>
    BreakglassEscalationSpec_ref option \<times> heap" where
  "BreakglassEscalationSpec_DeepCopy = deep_copy BreakglassEscalationSpec_DeepCopyInto"

definition BreakglassEscalationSpec_view :: "heap \<Rightarrow> BreakglassEscalationSpec_ref \<Rightarrow>
    BreakglassEscalationSpec" where
  "BreakglassEscalationSpec_view h r =
     \<lparr>Allowed = BreakglassEscalationAllowed_view h (es_Allowed r), EscApprovers = BreakglassEscalationApprovers_view
         h (es_Approvers r), EscalatedGroup = es_EscalatedGroup r, EscMaxValidFor = es_MaxValidFor r,
       EscRetainFor = es_RetainFor r, EscIdleTimeout = es_IdleTimeout r, ClusterConfigRefs = read_strings h
           (es_ClusterConfigRefs r), EscDenyPolicyRefs = read_strings h (es_DenyPolicyRefs r),
       EscRequestReason = read_cell plain reason_in h (es_RequestReason r), EscApprovalReason = read_cell plain reason_in h
           (es_ApprovalReason r), EscAllowedApproverDomains = read_strings h (es_AllowedApproverDomains r),
           EscBlockSelfApproval = read_cell plain bool_in h (es_BlockSelfApproval r)\<rparr>"

definition BreakglassEscalationStatus_DeepCopyInto :: "BreakglassEscalationStatus_ref \<Rightarrow> heap \<Rightarrow>
    BreakglassEscalationStatus_ref \<times> heap" where
  "BreakglassEscalationStatus_DeepCopyInto r h =
     (case copy_members (et_ApproverGroupMembers r) h of (x1, h1) \<Rightarrow>
      case copy_string_map (et_GroupResolutionStatus r) h1 of (x2, h2) \<Rightarrow>
      (r\<lparr>et_ApproverGroupMembers := x1, et_GroupResolutionStatus := x2\<rparr>, h2))"

definition BreakglassEscalationStatus_DeepCopy :: "BreakglassEscalationStatus_ref option \<Rightarrow> heap \<Rightarrow>
    BreakglassEscalationStatus_ref option \<times> heap" where
  "BreakglassEscalationStatus_DeepCopy = deep_copy BreakglassEscalationStatus_DeepCopyInto"

definition BreakglassEscalationStatus_view :: "heap \<Rightarrow> BreakglassEscalationStatus_ref \<Rightarrow>
    BreakglassEscalationStatus" where
  "BreakglassEscalationStatus_view h r =
     \<lparr>ApproverGroupMembers = read_members h (et_ApproverGroupMembers r), RequestCount = et_RequestCount r,
         ApprovalCount = et_ApprovalCount r,
       GroupResolutionStatus = read_string_map h (et_GroupResolutionStatus r)\<rparr>"

definition BreakglassEscalation_DeepCopyInto :: "'l metav1 \<Rightarrow> BreakglassEscalation_ref \<Rightarrow> heap
    \<Rightarrow> BreakglassEscalation_ref \<times> heap" where
  "BreakglassEscalation_DeepCopyInto lib r h =
     (case BreakglassEscalationSpec_DeepCopyInto (eo_Spec r) h of (x1, h1) \<Rightarrow>
      case BreakglassEscalationStatus_DeepCopyInto (eo_Status r) h1 of (x2, h2) \<Rightarrow>
      (r\<lparr>eo_ObjectMeta := copy_ObjectMeta lib (eo_ObjectMeta r), eo_Spec := x1, eo_Status := x2\<rparr>, h2))"

definition BreakglassEscalation_DeepCopy :: "'l metav1 \<Rightarrow> BreakglassEscalation_ref option \<Rightarrow> heap
    \<Rightarrow> BreakglassEscalation_ref option \<times> heap" where
  "BreakglassEscalation_DeepCopy lib = deep_copy (BreakglassEscalation_DeepCopyInto lib)"

definition BreakglassEscalation_view :: "heap \<Rightarrow> BreakglassEscalation_ref \<Rightarrow> TypeMeta \<times>
    BreakglassEscalation" where
  "BreakglassEscalation_view h r =
     (eo_TypeMeta r, \<lparr>be_meta = eo_ObjectMeta r, be_spec = BreakglassEscalationSpec_view h (eo_Spec r), be_status =
         BreakglassEscalationStatus_view h (eo_Status r)\<rparr>)"

definition BreakglassEscalationList_DeepCopyInto :: "'l metav1 \<Rightarrow> 'l BreakglassEscalationList_ref \<Rightarrow>
    heap \<Rightarrow> 'l BreakglassEscalationList_ref \<times> heap" where
  "BreakglassEscalationList_DeepCopyInto lib r h =
     (case copy_slice EscalationArray escalations_in (BreakglassEscalation_DeepCopyInto lib) (el_Items r) h of (x1, h1)
         \<Rightarrow>
      (r\<lparr>el_ListMeta := copy_ListMeta lib (el_ListMeta r), el_Items := x1\<rparr>, h1))"

definition BreakglassEscalationList_DeepCopy :: "'l metav1 \<Rightarrow> ('l BreakglassEscalationList_ref) option
    \<Rightarrow> heap \<Rightarrow> ('l BreakglassEscalationList_ref) option \<times> heap" where
  "BreakglassEscalationList_DeepCopy lib = deep_copy (BreakglassEscalationList_DeepCopyInto lib)"

definition BreakglassEscalationList_view :: "heap \<Rightarrow> 'l BreakglassEscalationList_ref \<Rightarrow> TypeMeta
    \<times> 'l \<times> (TypeMeta \<times> BreakglassEscalation) list" where
  "BreakglassEscalationList_view h r =
     (el_TypeMeta r, el_ListMeta r, read_slice BreakglassEscalation_view escalations_in h (el_Items r))"

definition BreakglassSessionSpec_DeepCopyInto :: "BreakglassSessionSpec_ref \<Rightarrow> heap \<Rightarrow>
    BreakglassSessionSpec_ref \<times> heap" where
  "BreakglassSessionSpec_DeepCopyInto r h =
     (case copy_strings (ss_DenyPolicyRefs r) h of (x1, h1) \<Rightarrow>
      (r\<lparr>ss_DenyPolicyRefs := x1\<rparr>, h1))"

definition BreakglassSessionSpec_DeepCopy :: "BreakglassSessionSpec_ref option \<Rightarrow> heap \<Rightarrow>
    BreakglassSessionSpec_ref option \<times> heap" where
  "BreakglassSessionSpec_DeepCopy = deep_copy BreakglassSessionSpec_DeepCopyInto"

definition BreakglassSessionSpec_view :: "heap \<Rightarrow> BreakglassSessionSpec_ref \<Rightarrow> BreakglassSessionSpec"
    where
  "BreakglassSessionSpec_view h r =
     \<lparr>Cluster = ss_Cluster r, User = ss_User r, GrantedGroup = ss_GrantedGroup r, IdleTimeout = ss_IdleTimeout r,
       MaxValidFor = ss_MaxValidFor r, RetainFor = ss_RetainFor r, ClusterConfigRef = ss_ClusterConfigRef r,
       DenyPolicyRefs = read_strings h (ss_DenyPolicyRefs r), RequestReason = ss_RequestReason r\<rparr>"

definition BreakglassSessionStatus_DeepCopyInto :: "'l metav1 \<Rightarrow> BreakglassSessionStatus_ref \<Rightarrow> heap
    \<Rightarrow> BreakglassSessionStatus_ref \<times> heap" where
  "BreakglassSessionStatus_DeepCopyInto lib r h =
     (case copy_slice Conds conds_in (\<lambda>c h. (copy_Condition lib c, h)) (st_Conditions r) h of (x1, h1) \<Rightarrow>
      case copy_strings (st_Approvers r) h1 of (x2, h2) \<Rightarrow>
      (r\<lparr>st_ApprovedAt := copy_Time lib (st_ApprovedAt r), st_RejectedAt := copy_Time lib (st_RejectedAt r),
          st_ExpiresAt := copy_Time lib (st_ExpiresAt r), st_TimeoutAt := copy_Time lib (st_TimeoutAt r), st_RetainedUntil
          := copy_Time lib (st_RetainedUntil r),
        st_IdleUntil := copy_Time lib (st_IdleUntil r), st_LastUsed := copy_Time lib (st_LastUsed r), st_Conditions := x1,
            st_Approvers := x2\<rparr>, h2))"

definition BreakglassSessionStatus_DeepCopy :: "'l metav1 \<Rightarrow> BreakglassSessionStatus_ref option \<Rightarrow>
    heap \<Rightarrow> BreakglassSessionStatus_ref option \<times> heap" where
  "BreakglassSessionStatus_DeepCopy lib = deep_copy (BreakglassSessionStatus_DeepCopyInto lib)"

definition BreakglassSessionStatus_view :: "heap \<Rightarrow> BreakglassSessionStatus_ref \<Rightarrow>
    BreakglassSessionStatus" where
  "BreakglassSessionStatus_view h r =
     \<lparr>Conditions = read_slice plain conds_in h (st_Conditions r), ApprovedAt = st_ApprovedAt r, RejectedAt =
         st_RejectedAt r, ExpiresAt = st_ExpiresAt r,
       TimeoutAt = st_TimeoutAt r, RetainedUntil = st_RetainedUntil r, IdleUntil = st_IdleUntil r, LastUsed = st_LastUsed r,
       State = st_State r, Approver = st_Approver r, Approvers = read_strings h (st_Approvers r), ApprovalReason =
           st_ApprovalReason r, ReasonEnded = st_ReasonEnded r\<rparr>"

definition BreakglassSession_DeepCopyInto :: "'l metav1 \<Rightarrow> BreakglassSession_ref \<Rightarrow> heap
    \<Rightarrow> BreakglassSession_ref \<times> heap" where
  "BreakglassSession_DeepCopyInto lib r h =
     (case BreakglassSessionSpec_DeepCopyInto (so_Spec r) h of (x1, h1) \<Rightarrow>
      case BreakglassSessionStatus_DeepCopyInto lib (so_Status r) h1 of (x2, h2) \<Rightarrow>
      case copy_slice Owners owners_in (\<lambda>w h. (copy_OwnerReference lib w, h)) (so_OwnerReferences r) h2 of (x3, h3)
          \<Rightarrow>
      (r\<lparr>so_ObjectMeta := copy_ObjectMeta lib (so_ObjectMeta r), so_Spec := x1,
        so_Status := x2, so_OwnerReferences := x3\<rparr>, h3))"

definition BreakglassSession_DeepCopy :: "'l metav1 \<Rightarrow> BreakglassSession_ref option \<Rightarrow> heap
    \<Rightarrow> BreakglassSession_ref option \<times> heap" where
  "BreakglassSession_DeepCopy lib = deep_copy (BreakglassSession_DeepCopyInto lib)"

definition BreakglassSession_view :: "heap \<Rightarrow> BreakglassSession_ref \<Rightarrow> TypeMeta \<times>
    BreakglassSession" where
  "BreakglassSession_view h r =
     (so_TypeMeta r, \<lparr>bs_meta = so_ObjectMeta r, bs_spec = BreakglassSessionSpec_view h (so_Spec r), bs_status =
         BreakglassSessionStatus_view h (so_Status r), bs_OwnerReferences = read_slice plain owners_in h
         (so_OwnerReferences r)\<rparr>)"

definition BreakglassSessionList_DeepCopyInto :: "'l metav1 \<Rightarrow> 'l BreakglassSessionList_ref \<Rightarrow> heap
    \<Rightarrow> 'l BreakglassSessionList_ref \<times> heap" where
  "BreakglassSessionList_DeepCopyInto lib r h =
     (case copy_slice SessionArray sessions_in (BreakglassSession_DeepCopyInto lib) (sl_Items r) h of (x1, h1) \<Rightarrow>
      (r\<lparr>sl_ListMeta := copy_ListMeta lib (sl_ListMeta r), sl_Items := x1\<rparr>, h1))"

definition BreakglassSessionList_DeepCopy :: "'l metav1 \<Rightarrow> ('l BreakglassSessionList_ref) option \<Rightarrow>
    heap \<Rightarrow> ('l BreakglassSessionList_ref) option \<times> heap" where
  "BreakglassSessionList_DeepCopy lib = deep_copy (BreakglassSessionList_DeepCopyInto lib)"

definition BreakglassSessionList_view :: "heap \<Rightarrow> 'l BreakglassSessionList_ref \<Rightarrow> TypeMeta \<times>
    'l \<times> (TypeMeta \<times> BreakglassSession) list" where
  "BreakglassSessionList_view h r =
     (sl_TypeMeta r, sl_ListMeta r, read_slice BreakglassSession_view sessions_in h (sl_Items r))"

definition SecretKeyReference_DeepCopyInto :: "SecretKeyReference \<Rightarrow> heap \<Rightarrow> SecretKeyReference
    \<times> heap" where
  "SecretKeyReference_DeepCopyInto r h =
     (r, h)"

definition SecretKeyReference_DeepCopy :: "SecretKeyReference option \<Rightarrow> heap \<Rightarrow> SecretKeyReference
    option \<times> heap" where
  "SecretKeyReference_DeepCopy = deep_copy SecretKeyReference_DeepCopyInto"

definition ClusterConfigSpec_DeepCopyInto :: "ClusterConfigSpec_ref \<Rightarrow> heap \<Rightarrow> ClusterConfigSpec_ref
    \<times> heap" where
  "ClusterConfigSpec_DeepCopyInto r h =
     (case copy_cell Int32Cell int32_in assign (cs_QPS r) h of (x1, h1) \<Rightarrow>
      case copy_cell Int32Cell int32_in assign (cs_Burst r) h1 of (x2, h2) \<Rightarrow>
      case copy_strings (cs_AllowedApproverDomains r) h2 of (x3, h3) \<Rightarrow>
      (r\<lparr>cs_QPS := x1, cs_Burst := x2, cs_AllowedApproverDomains := x3\<rparr>, h3))"

definition ClusterConfigSpec_DeepCopy :: "ClusterConfigSpec_ref option \<Rightarrow> heap \<Rightarrow>
    ClusterConfigSpec_ref option \<times> heap" where
  "ClusterConfigSpec_DeepCopy = deep_copy ClusterConfigSpec_DeepCopyInto"

definition ClusterConfigSpec_view :: "heap \<Rightarrow> ClusterConfigSpec_ref \<Rightarrow> ClusterConfigSpec" where
  "ClusterConfigSpec_view h r =
     \<lparr>ClusterID = cs_ClusterID r, Tenant = cs_Tenant r, Environment = cs_Environment r, Site = cs_Site r,
       Location = cs_Location r, KubeconfigSecretRef = cs_KubeconfigSecretRef r, QPS = read_cell plain int32_in h (cs_QPS
           r), Burst = read_cell plain int32_in h (cs_Burst r),
       BlockSelfApproval = cs_BlockSelfApproval r, AllowedApproverDomains = read_strings h (cs_AllowedApproverDomains
           r)\<rparr>"

definition ClusterConfigStatus_DeepCopyInto :: "'l metav1 \<Rightarrow> ClusterConfigStatus \<Rightarrow> heap
    \<Rightarrow> ClusterConfigStatus \<times> heap" where
  "ClusterConfigStatus_DeepCopyInto lib r h =
     (r\<lparr>LastCheckTime := copy_Time lib (LastCheckTime r)\<rparr>, h)"

definition ClusterConfigStatus_DeepCopy :: "'l metav1 \<Rightarrow> ClusterConfigStatus option \<Rightarrow> heap
    \<Rightarrow> ClusterConfigStatus option \<times> heap" where
  "ClusterConfigStatus_DeepCopy lib = deep_copy (ClusterConfigStatus_DeepCopyInto lib)"

abbreviation ClusterConfigStatus_view :: "heap \<Rightarrow> ClusterConfigStatus \<Rightarrow> ClusterConfigStatus" where
  "ClusterConfigStatus_view h r \<equiv> r"

definition ClusterConfig_DeepCopyInto :: "'l metav1 \<Rightarrow> ClusterConfig_ref \<Rightarrow> heap \<Rightarrow>
    ClusterConfig_ref \<times> heap" where
  "ClusterConfig_DeepCopyInto lib r h =
     (case ClusterConfigSpec_DeepCopyInto (co_Spec r) h of (x1, h1) \<Rightarrow>
      case ClusterConfigStatus_DeepCopyInto lib (co_Status r) h1 of (x2, h2) \<Rightarrow>
      (r\<lparr>co_ObjectMeta := copy_ObjectMeta lib (co_ObjectMeta r), co_Spec := x1, co_Status := x2\<rparr>, h2))"

definition ClusterConfig_DeepCopy :: "'l metav1 \<Rightarrow> ClusterConfig_ref option \<Rightarrow> heap \<Rightarrow>
    ClusterConfig_ref option \<times> heap" where
  "ClusterConfig_DeepCopy lib = deep_copy (ClusterConfig_DeepCopyInto lib)"

definition ClusterConfig_view :: "heap \<Rightarrow> ClusterConfig_ref \<Rightarrow> TypeMeta \<times> ClusterConfig" where
  "ClusterConfig_view h r =
     (co_TypeMeta r, \<lparr>cc_meta = co_ObjectMeta r, cc_spec = ClusterConfigSpec_view h (co_Spec r), cc_status =
         ClusterConfigStatus_view h (co_Status r)\<rparr>)"

definition ClusterConfigList_DeepCopyInto :: "'l metav1 \<Rightarrow> 'l ClusterConfigList_ref \<Rightarrow> heap
    \<Rightarrow> 'l ClusterConfigList_ref \<times> heap" where
  "ClusterConfigList_DeepCopyInto lib r h =
     (case copy_slice ConfigArray configs_in (ClusterConfig_DeepCopyInto lib) (cl_Items r) h of (x1, h1) \<Rightarrow>
      (r\<lparr>cl_ListMeta := copy_ListMeta lib (cl_ListMeta r), cl_Items := x1\<rparr>, h1))"

definition ClusterConfigList_DeepCopy :: "'l metav1 \<Rightarrow> ('l ClusterConfigList_ref) option \<Rightarrow> heap
    \<Rightarrow> ('l ClusterConfigList_ref) option \<times> heap" where
  "ClusterConfigList_DeepCopy lib = deep_copy (ClusterConfigList_DeepCopyInto lib)"

definition ClusterConfigList_view :: "heap \<Rightarrow> 'l ClusterConfigList_ref \<Rightarrow> TypeMeta \<times> 'l
    \<times> (TypeMeta \<times> ClusterConfig) list" where
  "ClusterConfigList_view h r =
     (cl_TypeMeta r, cl_ListMeta r, read_slice ClusterConfig_view configs_in h (cl_Items r))"

definition DenyPolicyScope_DeepCopyInto :: "DenyPolicyScope_ref \<Rightarrow> heap \<Rightarrow> DenyPolicyScope_ref
    \<times> heap" where
  "DenyPolicyScope_DeepCopyInto r h =
     (case copy_strings (sc_Clusters r) h of (x1, h1) \<Rightarrow>
      case copy_strings (sc_Tenants r) h1 of (x2, h2) \<Rightarrow>
      case copy_strings (sc_Sessions r) h2 of (x3, h3) \<Rightarrow>
      (r\<lparr>sc_Clusters := x1, sc_Tenants := x2, sc_Sessions := x3\<rparr>, h3))"

definition DenyPolicyScope_DeepCopy :: "DenyPolicyScope_ref option \<Rightarrow> heap \<Rightarrow> DenyPolicyScope_ref
    option \<times> heap" where
  "DenyPolicyScope_DeepCopy = deep_copy DenyPolicyScope_DeepCopyInto"

definition DenyPolicyScope_view :: "heap \<Rightarrow> DenyPolicyScope_ref \<Rightarrow> DenyPolicyScope" where
  "DenyPolicyScope_view h r =
     \<lparr>ScopeClusters = read_strings h (sc_Clusters r), ScopeTenants = read_strings h (sc_Tenants r), ScopeSessions =
         read_strings h (sc_Sessions r)\<rparr>"

definition DenyRule_DeepCopyInto :: "DenyRule_ref \<Rightarrow> heap \<Rightarrow> DenyRule_ref \<times> heap" where
  "DenyRule_DeepCopyInto r h =
     (case copy_strings (ru_Verbs r) h of (x1, h1) \<Rightarrow>
      case copy_strings (ru_APIGroups r) h1 of (x2, h2) \<Rightarrow>
      case copy_strings (ru_Resources r) h2 of (x3, h3) \<Rightarrow>
      case copy_strings (ru_Namespaces r) h3 of (x4, h4) \<Rightarrow>
      case copy_strings (ru_ResourceNames r) h4 of (x5, h5) \<Rightarrow>
      case copy_strings (ru_Subresources r) h5 of (x6, h6) \<Rightarrow>
      (r\<lparr>ru_Verbs := x1, ru_APIGroups := x2, ru_Resources := x3,
        ru_Namespaces := x4, ru_ResourceNames := x5, ru_Subresources := x6\<rparr>, h6))"

definition DenyRule_DeepCopy :: "DenyRule_ref option \<Rightarrow> heap \<Rightarrow> DenyRule_ref option \<times> heap" where
  "DenyRule_DeepCopy = deep_copy DenyRule_DeepCopyInto"

definition DenyRule_view :: "heap \<Rightarrow> DenyRule_ref \<Rightarrow> DenyRule" where
  "DenyRule_view h r =
     \<lparr>Verbs = read_strings h (ru_Verbs r), APIGroups = read_strings h (ru_APIGroups r), Resources = read_strings h
         (ru_Resources r), Namespaces = read_strings h (ru_Namespaces r), ResourceNames = read_strings h (ru_ResourceNames r),
       Subresources = read_strings h (ru_Subresources r)\<rparr>"

definition DenyPolicySpec_DeepCopyInto :: "DenyPolicySpec_ref \<Rightarrow> heap \<Rightarrow> DenyPolicySpec_ref \<times>
    heap" where
  "DenyPolicySpec_DeepCopyInto r h =
     (case copy_cell ScopeCell scope_in DenyPolicyScope_DeepCopyInto (ps_AppliesTo r) h of (x1, h1) \<Rightarrow>
      case copy_slice RuleArray rules_in DenyRule_DeepCopyInto (ps_Rules r) h1 of (x2, h2) \<Rightarrow>
      case copy_cell Int32Cell int32_in assign (ps_Precedence r) h2 of (x3, h3) \<Rightarrow>
      (r\<lparr>ps_AppliesTo := x1, ps_Rules := x2, ps_Precedence := x3\<rparr>, h3))"

definition DenyPolicySpec_DeepCopy :: "DenyPolicySpec_ref option \<Rightarrow> heap \<Rightarrow> DenyPolicySpec_ref option
    \<times> heap" where
  "DenyPolicySpec_DeepCopy = deep_copy DenyPolicySpec_DeepCopyInto"

definition DenyPolicySpec_view :: "heap \<Rightarrow> DenyPolicySpec_ref \<Rightarrow> DenyPolicySpec" where
  "DenyPolicySpec_view h r =
     \<lparr>AppliesTo = read_cell DenyPolicyScope_view scope_in h (ps_AppliesTo r), Rules = read_slice DenyRule_view
         rules_in h (ps_Rules r), Precedence = read_cell plain int32_in h (ps_Precedence r)\<rparr>"

definition DenyPolicyStatus_DeepCopyInto :: "'l metav1 \<Rightarrow> DenyPolicyStatus \<Rightarrow> heap \<Rightarrow>
    DenyPolicyStatus \<times> heap" where
  "DenyPolicyStatus_DeepCopyInto lib r h =
     (r\<lparr>LastCompile := copy_Time lib (LastCompile r)\<rparr>, h)"

definition DenyPolicyStatus_DeepCopy :: "'l metav1 \<Rightarrow> DenyPolicyStatus option \<Rightarrow> heap \<Rightarrow>
    DenyPolicyStatus option \<times> heap" where
  "DenyPolicyStatus_DeepCopy lib = deep_copy (DenyPolicyStatus_DeepCopyInto lib)"

abbreviation DenyPolicyStatus_view :: "heap \<Rightarrow> DenyPolicyStatus \<Rightarrow> DenyPolicyStatus" where
  "DenyPolicyStatus_view h r \<equiv> r"

definition DenyPolicy_DeepCopyInto :: "'l metav1 \<Rightarrow> DenyPolicy_ref \<Rightarrow> heap \<Rightarrow>
    DenyPolicy_ref \<times> heap" where
  "DenyPolicy_DeepCopyInto lib r h =
     (case DenyPolicySpec_DeepCopyInto (po_Spec r) h of (x1, h1) \<Rightarrow>
      case DenyPolicyStatus_DeepCopyInto lib (po_Status r) h1 of (x2, h2) \<Rightarrow>
      (r\<lparr>po_ObjectMeta := copy_ObjectMeta lib (po_ObjectMeta r), po_Spec := x1, po_Status := x2\<rparr>, h2))"

definition DenyPolicy_DeepCopy :: "'l metav1 \<Rightarrow> DenyPolicy_ref option \<Rightarrow> heap \<Rightarrow>
    DenyPolicy_ref option \<times> heap" where
  "DenyPolicy_DeepCopy lib = deep_copy (DenyPolicy_DeepCopyInto lib)"

definition DenyPolicy_view :: "heap \<Rightarrow> DenyPolicy_ref \<Rightarrow> TypeMeta \<times> DenyPolicy" where
  "DenyPolicy_view h r =
     (po_TypeMeta r, \<lparr>dp_meta = po_ObjectMeta r, dp_spec = DenyPolicySpec_view h (po_Spec r), dp_status =
         DenyPolicyStatus_view h (po_Status r)\<rparr>)"

definition DenyPolicyList_DeepCopyInto :: "'l metav1 \<Rightarrow> 'l DenyPolicyList_ref \<Rightarrow> heap \<Rightarrow>
    'l DenyPolicyList_ref \<times> heap" where
  "DenyPolicyList_DeepCopyInto lib r h =
     (case copy_slice PolicyArray policies_in (DenyPolicy_DeepCopyInto lib) (pl_Items r) h of (x1, h1) \<Rightarrow>
      (r\<lparr>pl_ListMeta := copy_ListMeta lib (pl_ListMeta r), pl_Items := x1\<rparr>, h1))"

definition DenyPolicyList_DeepCopy :: "'l metav1 \<Rightarrow> ('l DenyPolicyList_ref) option \<Rightarrow> heap
    \<Rightarrow> ('l DenyPolicyList_ref) option \<times> heap" where
  "DenyPolicyList_DeepCopy lib = deep_copy (DenyPolicyList_DeepCopyInto lib)"

definition DenyPolicyList_view :: "heap \<Rightarrow> 'l DenyPolicyList_ref \<Rightarrow> TypeMeta \<times> 'l \<times>
    (TypeMeta \<times> DenyPolicy) list" where
  "DenyPolicyList_view h r =
     (pl_TypeMeta r, pl_ListMeta r, read_slice DenyPolicy_view policies_in h (pl_Items r))"

definition ReasonConfig_DeepCopyInto :: "ReasonConfig \<Rightarrow> heap \<Rightarrow> ReasonConfig \<times> heap" where
  "ReasonConfig_DeepCopyInto r h =
     (r, h)"

definition ReasonConfig_DeepCopy :: "ReasonConfig option \<Rightarrow> heap \<Rightarrow> ReasonConfig option \<times>
    heap" where
  "ReasonConfig_DeepCopy = deep_copy ReasonConfig_DeepCopyInto"

text \<open>The objects behind the interface \<open>runtime.Object\<close>, and what is read from them.\<close>

datatype 'l object =
    EscalationObject "BreakglassEscalation_ref"
  | EscalationListObject "'l BreakglassEscalationList_ref"
  | SessionObject "BreakglassSession_ref"
  | SessionListObject "'l BreakglassSessionList_ref"
  | ConfigObject "ClusterConfig_ref"
  | ConfigListObject "'l ClusterConfigList_ref"
  | PolicyObject "DenyPolicy_ref"
  | PolicyListObject "'l DenyPolicyList_ref"

datatype 'l object_value =
    EscalationValue "TypeMeta \<times> BreakglassEscalation"
  | EscalationListValue "TypeMeta \<times> 'l \<times> (TypeMeta \<times> BreakglassEscalation) list"
  | SessionValue "TypeMeta \<times> BreakglassSession"
  | SessionListValue "TypeMeta \<times> 'l \<times> (TypeMeta \<times> BreakglassSession) list"
  | ConfigValue "TypeMeta \<times> ClusterConfig"
  | ConfigListValue "TypeMeta \<times> 'l \<times> (TypeMeta \<times> ClusterConfig) list"
  | PolicyValue "TypeMeta \<times> DenyPolicy"
  | PolicyListValue "TypeMeta \<times> 'l \<times> (TypeMeta \<times> DenyPolicy) list"

text \<open>A nil pointer becomes a nil interface, not an interface that holds a nil pointer.\<close>

fun as_object :: "('a \<Rightarrow> 'l object) \<Rightarrow> 'a option \<times> heap \<Rightarrow> 'l object option
    \<times> heap" where
  "as_object mk (Some y, h) = (Some (mk y), h)"
| "as_object mk (None, h) = (None, h)"

definition BreakglassEscalation_DeepCopyObject :: "'l metav1 \<Rightarrow> BreakglassEscalation_ref option \<Rightarrow>
    heap \<Rightarrow> 'l object option \<times> heap" where
  "BreakglassEscalation_DeepCopyObject lib p h = as_object EscalationObject (BreakglassEscalation_DeepCopy lib p h)"

definition BreakglassEscalationList_DeepCopyObject :: "'l metav1 \<Rightarrow> ('l BreakglassEscalationList_ref) option
    \<Rightarrow> heap \<Rightarrow> 'l object option \<times> heap" where
  "BreakglassEscalationList_DeepCopyObject lib p h = as_object EscalationListObject (BreakglassEscalationList_DeepCopy lib p h)"

definition BreakglassSession_DeepCopyObject :: "'l metav1 \<Rightarrow> BreakglassSession_ref option \<Rightarrow> heap
    \<Rightarrow> 'l object option \<times> heap" where
  "BreakglassSession_DeepCopyObject lib p h = as_object SessionObject (BreakglassSession_DeepCopy lib p h)"

definition BreakglassSessionList_DeepCopyObject :: "'l metav1 \<Rightarrow> ('l BreakglassSessionList_ref) option
    \<Rightarrow> heap \<Rightarrow> 'l object option \<times> heap" where
  "BreakglassSessionList_DeepCopyObject lib p h = as_object SessionListObject (BreakglassSessionList_DeepCopy lib p h)"

definition ClusterConfig_DeepCopyObject :: "'l metav1 \<Rightarrow> ClusterConfig_ref option \<Rightarrow> heap
    \<Rightarrow> 'l object option \<times> heap" where
  "ClusterConfig_DeepCopyObject lib p h = as_object ConfigObject (ClusterConfig_DeepCopy lib p h)"

definition ClusterConfigList_DeepCopyObject :: "'l metav1 \<Rightarrow> ('l ClusterConfigList_ref) option \<Rightarrow>
    heap \<Rightarrow> 'l object option \<times> heap" where
  "ClusterConfigList_DeepCopyObject lib p h = as_object ConfigListObject (ClusterConfigList_DeepCopy lib p h)"

definition DenyPolicy_DeepCopyObject :: "'l metav1 \<Rightarrow> DenyPolicy_ref option \<Rightarrow> heap \<Rightarrow> 'l
    object option \<times> heap" where
  "DenyPolicy_DeepCopyObject lib p h = as_object PolicyObject (DenyPolicy_DeepCopy lib p h)"

definition DenyPolicyList_DeepCopyObject :: "'l metav1 \<Rightarrow> ('l DenyPolicyList_ref) option \<Rightarrow> heap
    \<Rightarrow> 'l object option \<times> heap" where
  "DenyPolicyList_DeepCopyObject lib p h = as_object PolicyListObject (DenyPolicyList_DeepCopy lib p h)"

text \<open>The call through the interface.\<close>

fun DeepCopyObject :: "'l metav1 \<Rightarrow> 'l object \<Rightarrow> heap \<Rightarrow> 'l object option \<times> heap" where
  "DeepCopyObject lib (EscalationObject r) h = BreakglassEscalation_DeepCopyObject lib (Some r) h"
| "DeepCopyObject lib (EscalationListObject r) h = BreakglassEscalationList_DeepCopyObject lib (Some r) h"
| "DeepCopyObject lib (SessionObject r) h = BreakglassSession_DeepCopyObject lib (Some r) h"
| "DeepCopyObject lib (SessionListObject r) h = BreakglassSessionList_DeepCopyObject lib (Some r) h"
| "DeepCopyObject lib (ConfigObject r) h = ClusterConfig_DeepCopyObject lib (Some r) h"
| "DeepCopyObject lib (ConfigListObject r) h = ClusterConfigList_DeepCopyObject lib (Some r) h"
| "DeepCopyObject lib (PolicyObject r) h = DenyPolicy_DeepCopyObject lib (Some r) h"
| "DeepCopyObject lib (PolicyListObject r) h = DenyPolicyList_DeepCopyObject lib (Some r) h"

fun object_view :: "heap \<Rightarrow> 'l object \<Rightarrow> 'l object_value" where
  "object_view h (EscalationObject r) = EscalationValue (BreakglassEscalation_view h r)"
| "object_view h (EscalationListObject r) = EscalationListValue (BreakglassEscalationList_view h r)"
| "object_view h (SessionObject r) = SessionValue (BreakglassSession_view h r)"
| "object_view h (SessionListObject r) = SessionListValue (BreakglassSessionList_view h r)"
| "object_view h (ConfigObject r) = ConfigValue (ClusterConfig_view h r)"
| "object_view h (ConfigListObject r) = ConfigListValue (ClusterConfigList_view h r)"
| "object_view h (PolicyObject r) = PolicyValue (DenyPolicy_view h r)"
| "object_view h (PolicyListObject r) = PolicyListValue (DenyPolicyList_view h r)"

subsection \<open>Every copy keeps the contract\<close>

lemma strings_copier: "deep_copier read_strings copy_strings"
  unfolding copy_strings_def by (rule slice_copier [OF assign_copier]) simp_all

lemma default_copier:
  assumes "deep_copier (read_cell v sel) c"
  shows "deep_copier (\<lambda>h p. case read_cell v sel h p of None \<Rightarrow> [] | Some xs \<Rightarrow> xs) c"
proof
  let ?v = "\<lambda>h p. case read_cell v sel h p of None \<Rightarrow> [] | Some xs \<Rightarrow> xs"
  fix h p q h' assume valid: "valid ?v h p" and run: "c p h = (q, h')"
  have "valid (read_cell v sel) h p"
  proof (rule determined_part [OF valid])
    fix g assume "?v g p = ?v h p"
    then show "read_cell v sel g p = read_cell v sel h p" by (cases p) (simp_all add: read_cell_def)
  qed
  from deep_copier.copy_copied [OF assms this run] have q: "copied (read_cell v sel) h h' p q" .
  have "determined (read_cell v sel) (length h) (length h') h' q" using q by (simp add: copied_def)
  then have "determined ?v (length h) (length h') h' q" by (rule determined_part) simp
  with q show "copied ?v h h' p q" by (simp add: copied_def)
qed

lemma members_copier: "deep_copier read_members copy_members"
proof -
  have "deep_copier (read_cell (\<lambda>h. map (entry_view read_strings h)) slice_map_in) copy_members"
    unfolding copy_members_def by (rule cell_copier [OF list_copier [OF entry_copier [OF strings_copier]]]) simp_all
  from default_copier [OF this] show ?thesis by (simp add: read_members_def [abs_def])
qed

lemma string_map_copier: "deep_copier read_string_map copy_string_map"
proof -
  have "deep_copier (read_cell (\<lambda>h. map (plain h)) string_map_in) copy_string_map"
    unfolding copy_string_map_def by (rule cell_copier [OF list_copier [OF assign_copier]]) simp_all
  from default_copier [OF this] show ?thesis by (simp add: read_string_map_def [abs_def])
qed

lemma BoolCell_copier: "deep_copier (read_cell plain bool_in) (copy_cell BoolCell bool_in assign)"
  by (rule cell_copier [OF assign_copier]) simp_all

lemma Int32Cell_copier: "deep_copier (read_cell plain int32_in) (copy_cell Int32Cell int32_in assign)"
  by (rule cell_copier [OF assign_copier]) simp_all

lemma ReasonCell_copier: "deep_copier (read_cell plain reason_in) (copy_cell ReasonCell reason_in assign)"
  by (rule cell_copier [OF assign_copier]) simp_all

interpretation escalationallowed: deep_copier BreakglassEscalationAllowed_view BreakglassEscalationAllowed_DeepCopyInto
  by (rule record_copier [OF pair_copier [OF strings_copier strings_copier], where parts = "\<lambda>r. (al_Clusters r,
      al_Groups r)"
      and put = "\<lambda>r (x1, x2). r\<lparr>al_Clusters := x1, al_Groups := x2\<rparr>"
      and build = "\<lambda>r (x1, x2). \<lparr>Clusters = x1, Groups = x2\<rparr>"])
    (auto simp: BreakglassEscalationAllowed_view_def BreakglassEscalationAllowed_DeepCopyInto_def split: prod.splits)

interpretation escalationapprovers: deep_copier BreakglassEscalationApprovers_view BreakglassEscalationApprovers_DeepCopyInto
  by (rule record_copier [OF pair_copier [OF strings_copier strings_copier], where parts = "\<lambda>r. (ap_Users r,
      ap_Groups r)"
      and put = "\<lambda>r (x1, x2). r\<lparr>ap_Users := x1, ap_Groups := x2\<rparr>"
      and build = "\<lambda>r (x1, x2). \<lparr>ApproverUsers = x1, ApproverGroups = x2\<rparr>"])
    (auto simp: BreakglassEscalationApprovers_view_def BreakglassEscalationApprovers_DeepCopyInto_def split: prod.splits)

interpretation escalationspec: deep_copier BreakglassEscalationSpec_view BreakglassEscalationSpec_DeepCopyInto
  by (rule record_copier [OF pair_copier [OF escalationallowed.deep_copier_axioms pair_copier [OF
      escalationapprovers.deep_copier_axioms pair_copier [OF strings_copier pair_copier [OF strings_copier pair_copier [OF
      ReasonCell_copier pair_copier [OF ReasonCell_copier pair_copier [OF strings_copier BoolCell_copier]]]]]]], where
      parts = "\<lambda>r. (es_Allowed r, es_Approvers r, es_ClusterConfigRefs r, es_DenyPolicyRefs r, es_RequestReason r,
      es_ApprovalReason r, es_AllowedApproverDomains r, es_BlockSelfApproval r)"
      and put = "\<lambda>r (x1, x2, x3, x4, x5, x6, x7, x8). r\<lparr>es_Allowed := x1, es_Approvers := x2,
          es_ClusterConfigRefs := x3, es_DenyPolicyRefs := x4, es_RequestReason := x5, es_ApprovalReason := x6,
          es_AllowedApproverDomains := x7, es_BlockSelfApproval := x8\<rparr>"
      and build = "\<lambda>r (x1, x2, x3, x4, x5, x6, x7, x8). \<lparr>Allowed = x1, EscApprovers = x2, EscalatedGroup =
          es_EscalatedGroup r, EscMaxValidFor = es_MaxValidFor r,
       EscRetainFor = es_RetainFor r, EscIdleTimeout = es_IdleTimeout r, ClusterConfigRefs = x3, EscDenyPolicyRefs = x4,
       EscRequestReason = x5, EscApprovalReason = x6, EscAllowedApproverDomains = x7, EscBlockSelfApproval = x8\<rparr>"])
    (auto simp: BreakglassEscalationSpec_view_def BreakglassEscalationSpec_DeepCopyInto_def split: prod.splits)

interpretation escalationstatus: deep_copier BreakglassEscalationStatus_view BreakglassEscalationStatus_DeepCopyInto
  by (rule record_copier [OF pair_copier [OF members_copier string_map_copier], where parts = "\<lambda>r.
      (et_ApproverGroupMembers r, et_GroupResolutionStatus r)"
      and put = "\<lambda>r (x1, x2). r\<lparr>et_ApproverGroupMembers := x1, et_GroupResolutionStatus := x2\<rparr>"
      and build = "\<lambda>r (x1, x2). \<lparr>ApproverGroupMembers = x1, RequestCount = et_RequestCount r, ApprovalCount
          = et_ApprovalCount r,
       GroupResolutionStatus = x2\<rparr>"])
    (auto simp: BreakglassEscalationStatus_view_def BreakglassEscalationStatus_DeepCopyInto_def split: prod.splits)

interpretation sessionspec: deep_copier BreakglassSessionSpec_view BreakglassSessionSpec_DeepCopyInto
  by (rule record_copier [OF strings_copier, where parts = "\<lambda>r. ss_DenyPolicyRefs r"
      and put = "\<lambda>r x1. r\<lparr>ss_DenyPolicyRefs := x1\<rparr>"
      and build = "\<lambda>r x1. \<lparr>Cluster = ss_Cluster r, User = ss_User r, GrantedGroup = ss_GrantedGroup r,
          IdleTimeout = ss_IdleTimeout r,
       MaxValidFor = ss_MaxValidFor r, RetainFor = ss_RetainFor r, ClusterConfigRef = ss_ClusterConfigRef r,
       DenyPolicyRefs = x1, RequestReason = ss_RequestReason r\<rparr>"])
    (auto simp: BreakglassSessionSpec_view_def BreakglassSessionSpec_DeepCopyInto_def split: prod.splits)

interpretation clusterconfigspec: deep_copier ClusterConfigSpec_view ClusterConfigSpec_DeepCopyInto
  by (rule record_copier [OF pair_copier [OF Int32Cell_copier pair_copier [OF Int32Cell_copier strings_copier]], where
      parts = "\<lambda>r. (cs_QPS r, cs_Burst r, cs_AllowedApproverDomains r)"
      and put = "\<lambda>r (x1, x2, x3). r\<lparr>cs_QPS := x1, cs_Burst := x2, cs_AllowedApproverDomains := x3\<rparr>"
      and build = "\<lambda>r (x1, x2, x3). \<lparr>ClusterID = cs_ClusterID r, Tenant = cs_Tenant r, Environment =
          cs_Environment r, Site = cs_Site r,
       Location = cs_Location r, KubeconfigSecretRef = cs_KubeconfigSecretRef r, QPS = x1, Burst = x2,
       BlockSelfApproval = cs_BlockSelfApproval r, AllowedApproverDomains = x3\<rparr>"])
    (auto simp: ClusterConfigSpec_view_def ClusterConfigSpec_DeepCopyInto_def split: prod.splits)

interpretation denypolicyscope: deep_copier DenyPolicyScope_view DenyPolicyScope_DeepCopyInto
  by (rule record_copier [OF pair_copier [OF strings_copier pair_copier [OF strings_copier strings_copier]], where parts =
      "\<lambda>r. (sc_Clusters r, sc_Tenants r, sc_Sessions r)"
      and put = "\<lambda>r (x1, x2, x3). r\<lparr>sc_Clusters := x1, sc_Tenants := x2, sc_Sessions := x3\<rparr>"
      and build = "\<lambda>r (x1, x2, x3). \<lparr>ScopeClusters = x1, ScopeTenants = x2, ScopeSessions = x3\<rparr>"])
    (auto simp: DenyPolicyScope_view_def DenyPolicyScope_DeepCopyInto_def split: prod.splits)

interpretation denyrule: deep_copier DenyRule_view DenyRule_DeepCopyInto
  by (rule record_copier [OF pair_copier [OF strings_copier pair_copier [OF strings_copier pair_copier [OF strings_copier
      pair_copier [OF strings_copier pair_copier [OF strings_copier strings_copier]]]]], where parts = "\<lambda>r.
      (ru_Verbs r, ru_APIGroups r, ru_Resources r, ru_Namespaces r, ru_ResourceNames r, ru_Subresources r)"
      and put = "\<lambda>r (x1, x2, x3, x4, x5, x6). r\<lparr>ru_Verbs := x1, ru_APIGroups := x2, ru_Resources := x3,
          ru_Namespaces := x4, ru_ResourceNames := x5, ru_Subresources := x6\<rparr>"
      and build = "\<lambda>r (x1, x2, x3, x4, x5, x6). \<lparr>Verbs = x1, APIGroups = x2, Resources = x3, Namespaces =
          x4, ResourceNames = x5,
       Subresources = x6\<rparr>"])
    (auto simp: DenyRule_view_def DenyRule_DeepCopyInto_def split: prod.splits)

lemma scope_cell_copier: "deep_copier (read_cell DenyPolicyScope_view scope_in) (copy_cell ScopeCell scope_in
    DenyPolicyScope_DeepCopyInto)"
  by (rule cell_copier [OF denypolicyscope.deep_copier_axioms]) (simp_all add: DenyPolicyScope_view_def)

lemma rules_copier: "deep_copier (read_slice DenyRule_view rules_in) (copy_slice RuleArray rules_in DenyRule_DeepCopyInto)"
  by (rule slice_copier [OF denyrule.deep_copier_axioms]) simp_all

interpretation denypolicyspec: deep_copier DenyPolicySpec_view DenyPolicySpec_DeepCopyInto
  by (rule record_copier [OF pair_copier [OF scope_cell_copier pair_copier [OF rules_copier Int32Cell_copier]], where parts
      = "\<lambda>r. (ps_AppliesTo r, ps_Rules r, ps_Precedence r)"
      and put = "\<lambda>r (x1, x2, x3). r\<lparr>ps_AppliesTo := x1, ps_Rules := x2, ps_Precedence := x3\<rparr>"
      and build = "\<lambda>r (x1, x2, x3). \<lparr>AppliesTo = x1, Rules = x2, Precedence = x3\<rparr>"])
    (auto simp: DenyPolicySpec_view_def DenyPolicySpec_DeepCopyInto_def split: prod.splits)

text \<open>What is relied on of the library: its copies have the same value.\<close>

locale metav1_copies =
  fixes lib :: "'l metav1"
  assumes same_ObjectMeta: "copy_ObjectMeta lib m = m"
    and same_ListMeta: "copy_ListMeta lib l = l"
    and same_Time: "copy_Time lib t = t"
    and same_Condition: "copy_Condition lib c = c"
    and same_OwnerReference: "copy_OwnerReference lib w = w"
begin

lemmas laws = same_ObjectMeta same_ListMeta same_Time same_Condition same_OwnerReference

lemma conds_copier: "deep_copier (read_slice plain conds_in) (copy_slice Conds conds_in (\<lambda>c h. (copy_Condition lib
    c, h)))"
  by (rule slice_copier [OF value_copier]) (simp_all add: laws)

lemma owners_copier: "deep_copier (read_slice plain owners_in) (copy_slice Owners owners_in (\<lambda>w h.
    (copy_OwnerReference lib w, h)))"
  by (rule slice_copier [OF value_copier]) (simp_all add: laws)

end

sublocale metav1_copies \<subseteq> clusterconfigstatus: deep_copier plain "ClusterConfigStatus_DeepCopyInto lib"
  using value_copier [of "\<lambda>r. r\<lparr>LastCheckTime := copy_Time lib (LastCheckTime r)\<rparr>"] by (simp add:
      ClusterConfigStatus_DeepCopyInto_def [abs_def] laws)

sublocale metav1_copies \<subseteq> denypolicystatus: deep_copier plain "DenyPolicyStatus_DeepCopyInto lib"
  using value_copier [of "\<lambda>r. r\<lparr>LastCompile := copy_Time lib (LastCompile r)\<rparr>"] by (simp add:
      DenyPolicyStatus_DeepCopyInto_def [abs_def] laws)

sublocale metav1_copies \<subseteq> escalation: deep_copier BreakglassEscalation_view "BreakglassEscalation_DeepCopyInto lib"
  by (rule record_copier [OF pair_copier [OF escalationspec.deep_copier_axioms escalationstatus.deep_copier_axioms], where
      parts = "\<lambda>r. (eo_Spec r, eo_Status r)"
      and put = "\<lambda>r (x1, x2). r\<lparr>eo_ObjectMeta := copy_ObjectMeta lib (eo_ObjectMeta r), eo_Spec := x1,
          eo_Status := x2\<rparr>"
      and build = "\<lambda>r (x1, x2). (eo_TypeMeta r, \<lparr>be_meta = eo_ObjectMeta r, be_spec = x1, be_status =
          x2\<rparr>)"])
    (auto simp: BreakglassEscalation_view_def BreakglassEscalation_DeepCopyInto_def laws split: prod.splits)

sublocale metav1_copies \<subseteq> sessionstatus: deep_copier BreakglassSessionStatus_view
    "BreakglassSessionStatus_DeepCopyInto lib"
  by (rule record_copier [OF pair_copier [OF conds_copier strings_copier], where parts = "\<lambda>r. (st_Conditions r,
      st_Approvers r)"
      and put = "\<lambda>r (x1, x2). r\<lparr>st_ApprovedAt := copy_Time lib (st_ApprovedAt r), st_RejectedAt := copy_Time
          lib (st_RejectedAt r), st_ExpiresAt := copy_Time lib (st_ExpiresAt r), st_TimeoutAt := copy_Time lib
          (st_TimeoutAt r), st_RetainedUntil := copy_Time lib (st_RetainedUntil r), st_IdleUntil := copy_Time lib
          (st_IdleUntil r), st_LastUsed := copy_Time lib (st_LastUsed r), st_Conditions := x1, st_Approvers := x2\<rparr>"
      and build = "\<lambda>r (x1, x2). \<lparr>Conditions = x1, ApprovedAt = st_ApprovedAt r, RejectedAt = st_RejectedAt
          r, ExpiresAt = st_ExpiresAt r,
       TimeoutAt = st_TimeoutAt r, RetainedUntil = st_RetainedUntil r, IdleUntil = st_IdleUntil r, LastUsed = st_LastUsed r,
       State = st_State r, Approver = st_Approver r, Approvers = x2, ApprovalReason = st_ApprovalReason r, ReasonEnded =
           st_ReasonEnded r\<rparr>"])
    (auto simp: BreakglassSessionStatus_view_def BreakglassSessionStatus_DeepCopyInto_def laws split: prod.splits)

sublocale metav1_copies \<subseteq> session: deep_copier BreakglassSession_view "BreakglassSession_DeepCopyInto lib"
  by (rule record_copier [OF pair_copier [OF sessionspec.deep_copier_axioms pair_copier [OF
      sessionstatus.deep_copier_axioms owners_copier]], where parts = "\<lambda>r. (so_Spec r, so_Status r,
      so_OwnerReferences r)"
      and put = "\<lambda>r (x1, x2, x3). r\<lparr>so_ObjectMeta := copy_ObjectMeta lib (so_ObjectMeta r), so_Spec := x1,
          so_Status := x2, so_OwnerReferences := x3\<rparr>"
      and build = "\<lambda>r (x1, x2, x3). (so_TypeMeta r, \<lparr>bs_meta = so_ObjectMeta r, bs_spec = x1, bs_status =
          x2, bs_OwnerReferences = x3\<rparr>)"])
    (auto simp: BreakglassSession_view_def BreakglassSession_DeepCopyInto_def laws split: prod.splits)

sublocale metav1_copies \<subseteq> clusterconfig: deep_copier ClusterConfig_view "ClusterConfig_DeepCopyInto lib"
  by (rule record_copier [OF pair_copier [OF clusterconfigspec.deep_copier_axioms clusterconfigstatus.deep_copier_axioms],
      where parts = "\<lambda>r. (co_Spec r, co_Status r)"
      and put = "\<lambda>r (x1, x2). r\<lparr>co_ObjectMeta := copy_ObjectMeta lib (co_ObjectMeta r), co_Spec := x1,
          co_Status := x2\<rparr>"
      and build = "\<lambda>r (x1, x2). (co_TypeMeta r, \<lparr>cc_meta = co_ObjectMeta r, cc_spec = x1, cc_status =
          x2\<rparr>)"])
    (auto simp: ClusterConfig_view_def ClusterConfig_DeepCopyInto_def laws split: prod.splits)

sublocale metav1_copies \<subseteq> denypolicy: deep_copier DenyPolicy_view "DenyPolicy_DeepCopyInto lib"
  by (rule record_copier [OF pair_copier [OF denypolicyspec.deep_copier_axioms denypolicystatus.deep_copier_axioms], where
      parts = "\<lambda>r. (po_Spec r, po_Status r)"
      and put = "\<lambda>r (x1, x2). r\<lparr>po_ObjectMeta := copy_ObjectMeta lib (po_ObjectMeta r), po_Spec := x1,
          po_Status := x2\<rparr>"
      and build = "\<lambda>r (x1, x2). (po_TypeMeta r, \<lparr>dp_meta = po_ObjectMeta r, dp_spec = x1, dp_status =
          x2\<rparr>)"])
    (auto simp: DenyPolicy_view_def DenyPolicy_DeepCopyInto_def laws split: prod.splits)

context metav1_copies
begin

lemma BreakglassEscalationList_items: "deep_copier (read_slice BreakglassEscalation_view escalations_in) (copy_slice
    EscalationArray escalations_in (BreakglassEscalation_DeepCopyInto lib))"
  by (rule slice_copier [OF escalation.deep_copier_axioms]) simp_all

lemma BreakglassSessionList_items: "deep_copier (read_slice BreakglassSession_view sessions_in) (copy_slice SessionArray
    sessions_in (BreakglassSession_DeepCopyInto lib))"
  by (rule slice_copier [OF session.deep_copier_axioms]) simp_all

lemma ClusterConfigList_items: "deep_copier (read_slice ClusterConfig_view configs_in) (copy_slice ConfigArray configs_in
    (ClusterConfig_DeepCopyInto lib))"
  by (rule slice_copier [OF clusterconfig.deep_copier_axioms]) simp_all

lemma DenyPolicyList_items: "deep_copier (read_slice DenyPolicy_view policies_in) (copy_slice PolicyArray policies_in
    (DenyPolicy_DeepCopyInto lib))"
  by (rule slice_copier [OF denypolicy.deep_copier_axioms]) simp_all

end

sublocale metav1_copies \<subseteq> escalationlist: deep_copier BreakglassEscalationList_view
    "BreakglassEscalationList_DeepCopyInto lib"
  by (rule record_copier [OF BreakglassEscalationList_items, where parts = "\<lambda>r. el_Items r"
      and put = "\<lambda>r x1. r\<lparr>el_ListMeta := copy_ListMeta lib (el_ListMeta r), el_Items := x1\<rparr>"
      and build = "\<lambda>r x1. (el_TypeMeta r, el_ListMeta r, x1)"])
    (auto simp: BreakglassEscalationList_view_def BreakglassEscalationList_DeepCopyInto_def laws split: prod.splits)

sublocale metav1_copies \<subseteq> sessionlist: deep_copier BreakglassSessionList_view "BreakglassSessionList_DeepCopyInto lib"
  by (rule record_copier [OF BreakglassSessionList_items, where parts = "\<lambda>r. sl_Items r"
      and put = "\<lambda>r x1. r\<lparr>sl_ListMeta := copy_ListMeta lib (sl_ListMeta r), sl_Items := x1\<rparr>"
      and build = "\<lambda>r x1. (sl_TypeMeta r, sl_ListMeta r, x1)"])
    (auto simp: BreakglassSessionList_view_def BreakglassSessionList_DeepCopyInto_def laws split: prod.splits)

sublocale metav1_copies \<subseteq> clusterconfiglist: deep_copier ClusterConfigList_view "ClusterConfigList_DeepCopyInto lib"
  by (rule record_copier [OF ClusterConfigList_items, where parts = "\<lambda>r. cl_Items r"
      and put = "\<lambda>r x1. r\<lparr>cl_ListMeta := copy_ListMeta lib (cl_ListMeta r), cl_Items := x1\<rparr>"
      and build = "\<lambda>r x1. (cl_TypeMeta r, cl_ListMeta r, x1)"])
    (auto simp: ClusterConfigList_view_def ClusterConfigList_DeepCopyInto_def laws split: prod.splits)

sublocale metav1_copies \<subseteq> denypolicylist: deep_copier DenyPolicyList_view "DenyPolicyList_DeepCopyInto lib"
  by (rule record_copier [OF DenyPolicyList_items, where parts = "\<lambda>r. pl_Items r"
      and put = "\<lambda>r x1. r\<lparr>pl_ListMeta := copy_ListMeta lib (pl_ListMeta r), pl_Items := x1\<rparr>"
      and build = "\<lambda>r x1. (pl_TypeMeta r, pl_ListMeta r, x1)"])
    (auto simp: DenyPolicyList_view_def DenyPolicyList_DeepCopyInto_def laws split: prod.splits)

context metav1_copies
begin

lemmas object_copiers =
  escalation.deep_copier_axioms escalationlist.deep_copier_axioms session.deep_copier_axioms sessionlist.deep_copier_axioms
  clusterconfig.deep_copier_axioms clusterconfiglist.deep_copier_axioms denypolicy.deep_copier_axioms denypolicylist.deep_copier_axioms

lemma object_copied:
  assumes "deep_copier v c" "valid object_view h (mk r)" "as_object mk (deep_copy c (Some r) h) = (p, h')"
    and "\<And>g s. object_view g (mk s) = wrap (v g s)" "\<And>s t. wrap s = wrap t \<Longrightarrow> s = t"
  shows "\<exists>y. p = Some y \<and> copied object_view h h' (mk r) y"
proof -
  obtain s h1 where s: "c r h = (s, h1)" by force
  have "valid v h r"
  proof (rule determined_part [OF assms(2)])
    fix g assume "object_view g (mk r) = object_view h (mk r)"
    then show "v g r = v h r" unfolding assms(4) by (rule assms(5))
  qed
  from deep_copier.copy_copied [OF assms(1) this s] have c: "copied v h h1 r s" .
  then have "determined v (length h) (length h1) h1 s" by (simp add: copied_def)
  then have "determined object_view (length h) (length h1) h1 (mk s)" by (rule determined_part) (simp add: assms(4))
  with c have "copied object_view h h1 (mk r) (mk s)" by (simp add: copied_def assms(4))
  with assms(3) s show ?thesis by (auto simp: deep_copy_def)
qed

lemmas object_copy_defs =
  BreakglassEscalation_DeepCopyObject_def BreakglassEscalation_DeepCopy_def
  BreakglassEscalationList_DeepCopyObject_def BreakglassEscalationList_DeepCopy_def
  BreakglassSession_DeepCopyObject_def BreakglassSession_DeepCopy_def
  BreakglassSessionList_DeepCopyObject_def BreakglassSessionList_DeepCopy_def
  ClusterConfig_DeepCopyObject_def ClusterConfig_DeepCopy_def ClusterConfigList_DeepCopyObject_def ClusterConfigList_DeepCopy_def
  DenyPolicy_DeepCopyObject_def DenyPolicy_DeepCopy_def DenyPolicyList_DeepCopyObject_def DenyPolicyList_DeepCopy_def

lemma DeepCopyObject_copied:
  assumes "valid object_view h x" "DeepCopyObject lib x h = (p, h')"
  shows "\<exists>y. p = Some y \<and> copied object_view h h' x y"
proof (cases x)
  case (EscalationObject r)
  show ?thesis unfolding EscalationObject
    by (rule object_copied [OF object_copiers(1), where wrap = EscalationValue])
      (use assms EscalationObject in \<open>simp_all add: object_copy_defs\<close>)
next
  case (EscalationListObject r)
  show ?thesis unfolding EscalationListObject
    by (rule object_copied [OF object_copiers(2), where wrap = EscalationListValue])
      (use assms EscalationListObject in \<open>simp_all add: object_copy_defs\<close>)
next
  case (SessionObject r)
  show ?thesis unfolding SessionObject
    by (rule object_copied [OF object_copiers(3), where wrap = SessionValue])
      (use assms SessionObject in \<open>simp_all add: object_copy_defs\<close>)
next
  case (SessionListObject r)
  show ?thesis unfolding SessionListObject
    by (rule object_copied [OF object_copiers(4), where wrap = SessionListValue])
      (use assms SessionListObject in \<open>simp_all add: object_copy_defs\<close>)
next
  case (ConfigObject r)
  show ?thesis unfolding ConfigObject
    by (rule object_copied [OF object_copiers(5), where wrap = ConfigValue])
      (use assms ConfigObject in \<open>simp_all add: object_copy_defs\<close>)
next
  case (ConfigListObject r)
  show ?thesis unfolding ConfigListObject
    by (rule object_copied [OF object_copiers(6), where wrap = ConfigListValue])
      (use assms ConfigListObject in \<open>simp_all add: object_copy_defs\<close>)
next
  case (PolicyObject r)
  show ?thesis unfolding PolicyObject
    by (rule object_copied [OF object_copiers(7), where wrap = PolicyValue])
      (use assms PolicyObject in \<open>simp_all add: object_copy_defs\<close>)
next
  case (PolicyListObject r)
  show ?thesis unfolding PolicyListObject
    by (rule object_copied [OF object_copiers(8), where wrap = PolicyListValue])
      (use assms PolicyListObject in \<open>simp_all add: object_copy_defs\<close>)
qed

end

definition value_metav1 :: "unit metav1" where
  "value_metav1 = \<lparr>copy_ObjectMeta = (\<lambda>m. m), copy_ListMeta = (\<lambda>l. l), copy_Time = (\<lambda>t. t),
     copy_Condition = (\<lambda>c. c), copy_OwnerReference = (\<lambda>w. w)\<rparr>"

interpretation value_copies: metav1_copies value_metav1
  by unfold_locales (simp_all add: value_metav1_def)

subsection \<open>Properties\<close>


text \<open>An escalation with lists, a map of lists and a pointer.\<close>

definition ex_heap :: heap where
  "ex_heap = [Strings [''dev'', ''prod''], Strings [''lead@ex.org''], SliceMap [(''admins'', Slice 1 0 1), (''none'', NilSlice)], BoolCell True]"

definition ex_object :: "unit object" where
  "ex_object = EscalationObject \<lparr>eo_TypeMeta = \<lparr>Kind = EscalationKind, APIVersion = GroupVersion\<rparr>, eo_ObjectMeta = zero_meta,
     eo_Spec = \<lparr>es_Allowed = \<lparr>al_Clusters = Slice 0 1 1, al_Groups = NilSlice\<rparr>,
       es_Approvers = \<lparr>ap_Users = Slice 1 0 1, ap_Groups = NilSlice\<rparr>, es_EscalatedGroup = ''admin'', es_MaxValidFor = ''1h'',
       es_RetainFor = [], es_IdleTimeout = [], es_ClusterConfigRefs = Slice 0 0 2, es_DenyPolicyRefs = NilSlice,
       es_RequestReason = None, es_ApprovalReason = None, es_AllowedApproverDomains = NilSlice, es_BlockSelfApproval = Some 3\<rparr>,
     eo_Status = \<lparr>et_ApproverGroupMembers = Some 2, et_RequestCount = 0, et_ApprovalCount = 0, et_GroupResolutionStatus = None\<rparr>\<rparr>"

lemma ex_object_valid: "valid object_view ex_heap ex_object"
proof (rule determinedI)
  fix g assume "agree 0 (length ex_heap) ex_heap g"
  then have "cell_at g a = cell_at ex_heap a" if "a < 4" for a using that by (simp add: agree_def ex_heap_def)
  from this [of 0] this [of 1] this [of 2] this [of 3] show "object_view g ex_object = object_view ex_heap ex_object"
    by (simp add: ex_object_def BreakglassEscalation_view_def BreakglassEscalationSpec_view_def BreakglassEscalationStatus_view_def
        BreakglassEscalationAllowed_view_def BreakglassEscalationApprovers_view_def read_members_def read_string_map_def
        read_cell_def ex_heap_def cell_at_def)
qed


end
