(* ===== verification/Spec2Isabelle.thy ===== *)
theory Spec2Isabelle
  imports Revocation UniqueSession Access Progress Observability Wiring DeepCopy
begin

text \<open>
  Verification of the breakglass controller, a Go program that gives users temporary membership in
  privileged groups of Kubernetes clusters.  A user requests a session for a group that an escalation
  offers, an approver approves it, and the target cluster asks the controller's authorization webhook
  about every request: the answer is allowed while the session is valid.  Background tasks time out,
  expire and delete sessions, resolve approver groups in Keycloak and check the cluster configurations.

  \<^bold>\<open>Layout.\<close>  All source paths are below \<^verbatim>\<open>src/\<close>.

  \<^item> \<^verbatim>\<open>Prelude\<close>, \<^verbatim>\<open>GoTime\<close>, \<^verbatim>\<open>GlobMatch\<close>, \<^verbatim>\<open>Encoding\<close>: the parts of Go's library that the sources use: strings,
    errors, instants, \<^verbatim>\<open>time.ParseDuration\<close> with its 64-bit and float64 arithmetic, \<^verbatim>\<open>filepath.Match\<close>, URL
    escaping and the decoding of JSON values into structs.
  \<^item> \<^verbatim>\<open>ApiTypes\<close>: the custom resources of \<^verbatim>\<open>api/v1alpha1\<close> as records and their admission checks.
  \<^item> \<^verbatim>\<open>GoHeap\<close>, \<^verbatim>\<open>DeepCopy\<close>: the same resources with their slices, maps and pointers in a heap, and the generated copy
    functions of \<^verbatim>\<open>zz_generated.deepcopy.go\<close> on it; elsewhere a resource is a value and its copy the identity.
  \<^item> \<^verbatim>\<open>KubeClient\<close>: the Kubernetes API as a record of operations, the locales \<open>kube_listing\<close> and \<open>kube_sessions\<close>
    with the documented laws that the program relies on, and an in-memory server that satisfies them.
  \<^item> \<^verbatim>\<open>Naming\<close>, \<^verbatim>\<open>GroupLists\<close>: name and label sanitisers of \<^verbatim>\<open>session_controller.go\<close>; list helpers on groups.
  \<^item> \<^verbatim>\<open>SessionManager\<close>, \<^verbatim>\<open>EscalationManager\<close>, \<^verbatim>\<open>Config\<close>: \<^verbatim>\<open>pkg/breakglass/session_manager.go\<close>, \<^verbatim>\<open>escalation_manager.go\<close>,
    \<^verbatim>\<open>escalation.go\<close>, \<^verbatim>\<open>cluster_config_manager.go\<close>, \<^verbatim>\<open>pkg/config\<close> and \<^verbatim>\<open>pkg/mail/mail.go\<close>.
  \<^item> \<^verbatim>\<open>SessionState\<close>, \<^verbatim>\<open>Approver\<close>, \<^verbatim>\<open>SessionController\<close>, \<^verbatim>\<open>SessionRequest\<close>: \<^verbatim>\<open>pkg/breakglass/session_controller.go\<close>: the
    predicates on sessions, the approver decision, the handlers for approve, reject, withdraw, drop,
    cancel and the queries, and the request handler with its panics and early returns.
  \<^item> \<^verbatim>\<open>Expiry\<close>: the periodic tasks on sessions.  \<^verbatim>\<open>Lifecycle\<close>: the state machine of a session, traces of events,
    and their invariants.  \<^verbatim>\<open>LifecycleSpec\<close>: the abstract machine that all of this refines.
    \<^verbatim>\<open>UniqueSession\<close>: one active session per user, cluster and group.
    \<^verbatim>\<open>Progress\<close>: what a cleanup round achieves on a server that answers, and racing decisions.
  \<^item> \<^verbatim>\<open>Concurrency\<close>: handlers and loop bodies as tasks that are interleaved between their reads and their writes.
    \<^verbatim>\<open>ConcurrencySpec\<close>: actions and background tasks refine the abstract machine under every interleaving.
    \<^verbatim>\<open>SessionOrigin\<close>: what every stored session looks like under every interleaving.  \<^verbatim>\<open>Revocation\<close>: an ended session
    stays closed under every interleaving.  \<^verbatim>\<open>Access\<close>: what an approval promises.
  \<^item> \<^verbatim>\<open>ClusterCache\<close>, \<^verbatim>\<open>Policy\<close>, \<^verbatim>\<open>Webhook\<close>: \<^verbatim>\<open>pkg/cluster/cache.go\<close>, \<^verbatim>\<open>pkg/policy/deny.go\<close> and the authorization
    webhook \<^verbatim>\<open>pkg/webhook/controller.go\<close>, phase by phase.
  \<^item> \<^verbatim>\<open>KeycloakSync\<close>, \<^verbatim>\<open>ConfigChecker\<close>, \<^verbatim>\<open>UserGroups\<close>: \<^verbatim>\<open>escalation_status_updater.go\<close>, \<^verbatim>\<open>cluster_config_checker.go\<close> with
    \<^verbatim>\<open>event_recorder.go\<close>, and \<^verbatim>\<open>group_checker.go\<close> with \<^verbatim>\<open>escalation_controller.go\<close>.
  \<^item> \<^verbatim>\<open>Auth\<close>, \<^verbatim>\<open>ApiServer\<close>, \<^verbatim>\<open>Middlewares\<close>, \<^verbatim>\<open>Startup\<close>, \<^verbatim>\<open>Wiring\<close>: \<^verbatim>\<open>pkg/api/auth.go\<close>, \<^verbatim>\<open>pkg/api/api.go\<close> with \<^verbatim>\<open>spa.go\<close>, the
    middleware chain with \<^verbatim>\<open>pkg/system/logging.go\<close>, \<^verbatim>\<open>cmd/main.go\<close>, and the constructors, loops, schemes and the webhook
    manager that it puts together.  \<^verbatim>\<open>MailTemplates\<close>: \<^verbatim>\<open>pkg/mail/templates.go\<close>.  \<^verbatim>\<open>Observability\<close>: the counters of
    \<^verbatim>\<open>pkg/metrics\<close> with their registration, the set-up of the loggers, and the log lines and headers of the webhook.
  \<^item> \<^verbatim>\<open>ExampleData\<close>: a concrete installation on which the witnesses of the theorems are evaluated.

  \<^bold>\<open>State and operations.\<close>  The state of a handler is a \<open>world\<close>: the API server, the Prometheus counters and
  the mail that was sent.  A handler is a function from the clock reading, the controller record with its
  configuration, the request and the world to the response and the new world; an error is a value, and a
  Go panic is a value of its own where it can happen.  The caches of the cluster provider, the Keycloak
  resolver and the token keys are passed and returned explicitly.

  \<^bold>\<open>Results.\<close>

  \<^item> Access: whatever the webhook allows goes back to an approval by an accepted approver (below), is
    justified by a live session or the RBAC check, and yields to every matching deny policy; an approved
    session gives its user what the granted group may do, until it ends.
  \<^item> Sessions: when each action succeeds and what it writes, that it touches nothing else, that timestamps
    and states stay consistent along every trace, that no user has two active sessions for the same group of a
    cluster, and that all of it refines the abstract machine.
  \<^item> Interleaving: what the webhook allows goes back to an approval under every schedule of overlapping requests,
    actions and tasks; a stored rejection, withdrawal, drop or cancellation is final; stored specs are well-formed
    and bounded by the matched escalation; actions and tasks refine the abstract machine; two overlapping requests do not.
  \<^item> Requests and approvers: a created session is covered by an escalation; the approver loop computes
    its declarative rule.
  \<^item> Authentication: every handler for sessions and escalations runs behind the token check, in the context of
    the claims; the routes without it are listed; without an email nothing changes.
  \<^item> Background: cleanup deletes exactly what is due; a round ends every session that has to end; of two decisions
    on the same version of a session only the first is stored; one round of group resolution converges; the
    checker counts what it finds; which intervals panic; the admission webhooks are never served.
  \<^item> Functions: sanitisers and the end of their loops, list helpers, lookups, caches and URL building meet their
    specifications; every handler runs under the correlation ID of its request; a deep copy has the same value and shares no memory.

  \<^bold>\<open>Interfaces.\<close>  What one part relies on is a locale, interpreted where it is provided: \<open>kube_listing\<close>, \<open>kube_sessions\<close>,
  \<open>live_sessions\<close>, \<open>versioned_sessions\<close>, \<open>session_repository\<close>, \<open>escalation_listing\<close>, \<open>clusterconfig_listing\<close>, \<open>config_store\<close>,
  \<open>group_resolver\<close>, \<open>route_dispatch\<close>, \<open>gin_engine\<close>, \<open>webhook_manager\<close>, \<open>deep_copier\<close>,
  \<open>metav1_copies\<close>, \<open>counter_registry\<close>.

  \<^bold>\<open>Idealisations.\<close>  One clock reading serves one handler call, or one step of it under interleaving.  Handlers and
  loop bodies are cut after every write to the API server and between their checks and their first write; the
  reads of one step see one state of the server, and the operations on caches are atomic.  Strings are ASCII.  The
  iteration order of Go maps, which the language leaves open, is insertion order.  Client-side rate limits become
  float32 values in the source; here they are integers rounded to 24 bits.  The only fuel is in the duration
  parser, whose loop consumes input in every round and gets the length of the input.

  \<^bold>\<open>Parameters.\<close>  The Kubernetes API and its clients, Keycloak and other HTTP servers, JWT verification, the
  texts of JSON and YAML documents, kubeconfig parsing, SMTP, HTML templates, the router, environment and
  file system are not code of the repository; they are arguments of the definitions that use them.

  \<^bold>\<open>Not modelled.\<close>  Log output other than the fields of the request loggers and the last lines of the webhook; the
  background group lookup of the request handler, which only logs; aliasing outside the deep copies; the
  libraries behind CORS, access log, recovery, the Prometheus registry and the listener; the text of the mail templates; the browser frontend.
\<close>

subsection \<open>Access through a session goes back to an approval\<close>

text \<open>Between the start of the system and now an approver approved the session while it was pending.\<close>

definition approved_during ::
  "'w BreakglassSessionController \<Rightarrow> ('w \<Rightarrow> BreakglassSession list) \<Rightarrow> 'w world \<Rightarrow> (instant \<times> event) list \<Rightarrow>
   BreakglassSession \<Rightarrow> bool" where
  "approved_during wc sessions w evs s \<longleftrightarrow>
     (\<exists>before at c name reason rest x. evs = before @ (at, ActionEvent c name (Approve reason)) # rest \<and>
        x \<in> set (sessions (api (run_trace wc before w))) \<and> session_key x = session_key s \<and>
        State (bs_status x) = SessionStatePending \<and> isSessionApprover wc c x (run_trace wc before w))"

lemma live_session_approved:
  assumes "state_inv t (bs_status s)" "t \<le> now" "live now s"
  shows "State (bs_status s) = SessionStateApproved \<and> 0 < ApprovedAt (bs_status s) \<and>
    ApprovedAt (bs_status s) \<le> now \<and> now < ExpiresAt (bs_status s)"
  using assms by (auto simp: state_inv_def live_def zero_status_def split: BreakglassSessionState.splits)

text \<open>C1. From the first request to the decision: on a store that was empty at the start and was changed by
  requests, actions and cleanup rounds only, a review that the webhook allows is decided on sessions of this
  user and this cluster that are Approved, are within their validity, and were approved by a caller that the
  approver check accepted while they were pending.  Only their granted groups reach the RBAC check or the
  session review that allowed the request.\<close>

theorem access_goes_back_to_approval:
  assumes "kube_sessions (wc_client wc) sessions ok" "wh_client wh = wc_client wc"
    and "ok (api w)" "sessions (api w) = []" "Second \<le> t" "chronological t evs" "end_time t evs \<le> now"
    and "sar_allowed (fst (handleAuthorize now wh c (Some sar) (run_trace wc evs w) p))"
  shows "\<exists>ss. (\<forall>s \<in> set ss. s \<in> set (sessions (api (run_trace wc evs w))) \<and> User (bs_spec s) = sar_User sar \<and>
       Cluster (bs_spec s) = c \<and> State (bs_status s) = SessionStateApproved \<and>
       ApprovedAt (bs_status s) \<le> now \<and> now < ExpiresAt (bs_status s) \<and> approved_during wc sessions w evs s) \<and>
     ((\<exists>rc. wh_canDoFn wh rc (map (\<lambda>s. GrantedGroup (bs_spec s)) ss) sar c = Inr True) \<or>
      (\<exists>rc ra s g. sar_ResourceAttributes sar = Some ra \<and> s \<in> set ss \<and>
         HasSuffix g (GrantedGroup (bs_spec s)) \<and> wh_sar_create wh rc (session_sar g ra) = Inr True))"
proof -
  let ?w = "run_trace wc evs w"
  have "reachable t (sessions (api w))" using assms(4,5) by (simp add: reachable.init)
  from kube_sessions.trace_reachable [OF assms(1) refl assms(3) this assms(6)]
  have inv: "store_inv (end_time t evs) (sessions (api ?w))" using reachable_inv by blast
  have k: "kube_sessions (wh_client wh) sessions ok" using assms(1,2) by simp
  from authorize_allowed_cases [OF k assms(8)] obtain ss
    where ss: "getSessions now (wh_client wh) (sar_User sar) c ?w = Inr ss"
    and cases: "(\<exists>rc. wh_canDoFn wh rc (map (\<lambda>s. GrantedGroup (bs_spec s)) ss) sar c = Inr True) \<or>
      (\<exists>rc ra s g. sar_ResourceAttributes sar = Some ra \<and> s \<in> set (sessions (api ?w)) \<and>
         User (bs_spec s) = sar_User sar \<and> Cluster (bs_spec s) = c \<and> live now s \<and>
         HasSuffix g (GrantedGroup (bs_spec s)) \<and> wh_sar_create wh rc (session_sar g ra) = Inr True)" by blast
  note mem = kube_sessions.getSessions_mem_iff [OF k ss]
  have good: "State (bs_status s) = SessionStateApproved \<and> ApprovedAt (bs_status s) \<le> now \<and>
      now < ExpiresAt (bs_status s) \<and> approved_during wc sessions w evs s" if "s \<in> set ss" for s
  proof -
    from that mem have s: "s \<in> set (sessions (api ?w))" and lv: "live now s" by simp_all
    from inv s have "state_inv (end_time t evs) (bs_status s)" by (simp add: store_inv_def)
    from live_session_approved [OF this assms(7) lv]
    have st: "State (bs_status s) = SessionStateApproved" "ApprovedAt (bs_status s) \<le> now"
      "now < ExpiresAt (bs_status s)" by simp_all
    from kube_sessions.trace_approved [OF assms(1) refl assms(3,4) s st(1)]
    have "approved_during wc sessions w evs s" by (simp add: approved_during_def)
    with st show ?thesis by simp
  qed
  from cases mem have "(\<exists>rc. wh_canDoFn wh rc (map (\<lambda>s. GrantedGroup (bs_spec s)) ss) sar c = Inr True) \<or>
      (\<exists>rc ra s g. sar_ResourceAttributes sar = Some ra \<and> s \<in> set ss \<and>
         HasSuffix g (GrantedGroup (bs_spec s)) \<and> wh_sar_create wh rc (session_sar g ra) = Inr True)" by metis
  with good mem show ?thesis by (intro exI [of _ ss]) simp
qed

theorem access_goes_back_to_approval_witness:
  "\<exists>s \<in> set (m_sessions (api (run_trace ex_wc ex_trace (ex_wh_world [] [])))). User (bs_spec s) = ''dev@ex.org'' \<and>
     State (bs_status s) = SessionStateApproved \<and> approved_during ex_wc m_sessions (ex_wh_world [] []) ex_trace s"
proof -
  let ?w = "ex_wh_world [] []"
  have k: "kube_sessions (wc_client ex_wc) m_sessions mem_wf" "wh_client ex_wh = wc_client ex_wc"
    using mem.kube_sessions_axioms by (simp_all add: ex_wc_def ex_wh_def)
  have start: "mem_wf (api ?w)" "m_sessions (api ?w) = []" "Second \<le> ex_now" "chronological ex_now ex_trace"
    "end_time ex_now ex_trace \<le> ex_now + Hour"
    by code_simp+
  have a: "sar_allowed (fst (handleAuthorize (ex_now + Hour) ex_wh ''prod'' (Some ex_sar) (run_trace ex_wc ex_trace ?w)
      NewClientProvider))" by code_simp
  have no: "\<And>rc gs. wh_canDoFn ex_wh rc gs ex_sar ''prod'' \<noteq> Inr True"
    by (auto simp: ex_wh_def CanGroupsDo_def ex_sar_def split: option.splits)
  have "sar_User ex_sar = ''dev@ex.org''" by (simp add: ex_sar_def)
  with access_goes_back_to_approval [OF k start a] no show ?thesis by metis
qed

end
